theory Spec2Isabelle
  imports Complex_Main "HOL-Library.AList"
begin

section \<open>Numbers of the optimized portfolio backtest\<close>

text \<open>
  The embedding follows \<^verbatim>\<open>run_optimized_backtest.py\<close>. The source computes with
  IEEE doubles. A finite double is read here as the real number it approximates, so every
  statement below is about the exact arithmetic that the floating-point run approximates;
  the three special values are kept, with their IEEE arithmetic (the sign of a zero is not
  kept: a zero divisor counts as positive).
\<close>

datatype xreal = Fin real | PInf | MInf | NaN

fun x_neg :: "xreal \<Rightarrow> xreal" where
  "x_neg (Fin a) = Fin (- a)"
| "x_neg PInf = MInf"
| "x_neg MInf = PInf"
| "x_neg NaN = NaN"

fun x_add :: "xreal \<Rightarrow> xreal \<Rightarrow> xreal" where
  "x_add (Fin a) (Fin b) = Fin (a + b)"
| "x_add NaN y = NaN"
| "x_add x NaN = NaN"
| "x_add PInf MInf = NaN"
| "x_add MInf PInf = NaN"
| "x_add PInf y = PInf"
| "x_add x PInf = PInf"
| "x_add MInf y = MInf"
| "x_add x MInf = MInf"

fun x_mul :: "xreal \<Rightarrow> xreal \<Rightarrow> xreal" where
  "x_mul (Fin a) (Fin b) = Fin (a * b)"
| "x_mul NaN y = NaN"
| "x_mul x NaN = NaN"
| "x_mul (Fin a) PInf = (if a = 0 then NaN else if a > 0 then PInf else MInf)"
| "x_mul (Fin a) MInf = (if a = 0 then NaN else if a > 0 then MInf else PInf)"
| "x_mul PInf (Fin b) = (if b = 0 then NaN else if b > 0 then PInf else MInf)"
| "x_mul MInf (Fin b) = (if b = 0 then NaN else if b > 0 then MInf else PInf)"
| "x_mul PInf PInf = PInf"
| "x_mul MInf MInf = PInf"
| "x_mul PInf MInf = MInf"
| "x_mul MInf PInf = MInf"

text \<open>The IEEE quotient: a division that does not raise.\<close>

fun x_div :: "xreal \<Rightarrow> xreal \<Rightarrow> xreal" where
  "x_div (Fin a) (Fin b) =
     (if b = 0 then (if a > 0 then PInf else if a < 0 then MInf else NaN) else Fin (a / b))"
| "x_div NaN y = NaN"
| "x_div x NaN = NaN"
| "x_div (Fin a) PInf = Fin 0"
| "x_div (Fin a) MInf = Fin 0"
| "x_div PInf (Fin b) = (if b < 0 then MInf else PInf)"
| "x_div MInf (Fin b) = (if b < 0 then PInf else MInf)"
| "x_div PInf PInf = NaN"
| "x_div PInf MInf = NaN"
| "x_div MInf PInf = NaN"
| "x_div MInf MInf = NaN"

fun x_less :: "xreal \<Rightarrow> xreal \<Rightarrow> bool" where
  "x_less (Fin a) (Fin b) = (a < b)"
| "x_less NaN y = False"
| "x_less x NaN = False"
| "x_less x MInf = False"
| "x_less MInf y = True"
| "x_less PInf y = False"
| "x_less (Fin a) PInf = True"

text \<open>
  A number of the program is a Python \<^verbatim>\<open>float\<close> (or \<^verbatim>\<open>int\<close>) or a
  \<^verbatim>\<open>numpy.float64\<close>. What comes out of a frame or a series is a \<^verbatim>\<open>numpy.float64\<close>;
  \<^verbatim>\<open>float(...)\<close> makes a Python float of it; an operation with a
  \<^verbatim>\<open>numpy.float64\<close> operand gives a \<^verbatim>\<open>numpy.float64\<close>.
\<close>

datatype number = Py xreal | Np xreal

fun val :: "number \<Rightarrow> xreal" where
  "val (Py x) = x"
| "val (Np x) = x"

fun is_numpy :: "number \<Rightarrow> bool" where
  "is_numpy (Py x) = False"
| "is_numpy (Np x) = True"

definition result :: "number \<Rightarrow> number \<Rightarrow> xreal \<Rightarrow> number" where
  "result a b x = (if is_numpy a \<or> is_numpy b then Np x else Py x)"

instantiation number :: "{plus, minus, times, uminus, ord}"
begin

definition plus_number :: "number \<Rightarrow> number \<Rightarrow> number" where
  "plus_number a b = result a b (x_add (val a) (val b))"

definition minus_number :: "number \<Rightarrow> number \<Rightarrow> number" where
  "minus_number a b = result a b (x_add (val a) (x_neg (val b)))"

definition times_number :: "number \<Rightarrow> number \<Rightarrow> number" where
  "times_number a b = result a b (x_mul (val a) (val b))"

definition uminus_number :: "number \<Rightarrow> number" where
  "uminus_number a = result a a (x_neg (val a))"

definition less_number :: "number \<Rightarrow> number \<Rightarrow> bool" where
  "less_number a b = x_less (val a) (val b)"

definition less_eq_number :: "number \<Rightarrow> number \<Rightarrow> bool" where
  "less_eq_number a b = (x_less (val a) (val b) \<or> (val a = val b \<and> val a \<noteq> NaN))"

instance ..

end

text \<open>
  \<^verbatim>\<open>a / b\<close> where the divisor is known not to be zero, or an operand is a
  \<^verbatim>\<open>numpy.float64\<close>: the IEEE quotient.
\<close>

definition ieee_quotient :: "number \<Rightarrow> number \<Rightarrow> number" where
  "ieee_quotient a b = result a b (x_div (val a) (val b))"

datatype py_error = KeyError | IndexError | ZeroDivisionError | NameError | ValueError

text \<open>
  \<^verbatim>\<open>a / b\<close>: Python raises \<^verbatim>\<open>ZeroDivisionError\<close> when both operands are Python
  numbers and the divisor is zero; with a \<^verbatim>\<open>numpy.float64\<close> operand numpy warns and
  returns the IEEE quotient (infinite or not a number).
\<close>

definition truediv :: "number \<Rightarrow> number \<Rightarrow> py_error + number" where
  "truediv a b =
     (if \<not> is_numpy a \<and> \<not> is_numpy b \<and> val b = Fin 0 then Inl ZeroDivisionError
      else Inr (ieee_quotient a b))"

text \<open>A Python literal or \<^verbatim>\<open>int\<close>.\<close>

abbreviation py :: "real \<Rightarrow> number" where
  "py r \<equiv> Py (Fin r)"

section \<open>Frames and market condition\<close>

text \<open>
  A price frame (a \<^verbatim>\<open>DataFrame\<close> indexed by date, of which only the \<^verbatim>\<open>Close\<close>
  column is read) is the list of its rows in index order, a row being its date and the
  double in its \<^verbatim>\<open>Close\<close> cell. A series of dividend payments is the list of its
  entries. A dictionary is the list of its items in insertion order, looked up with
  \<open>map_of\<close>; its keys are distinct.
\<close>

type_synonym symbol = string
type_synonym date = nat
type_synonym series = "(date \<times> xreal) list"

datatype regime = bull | bear | sideways

text \<open>\<^verbatim>\<open>frame.loc[date, 'Close'].iloc[0]\<close>: the close of the row labelled \<open>date\<close>.\<close>

definition loc_close :: "series \<Rightarrow> date \<Rightarrow> py_error + xreal" where
  "loc_close rows d = (case map_of rows d of None \<Rightarrow> Inl KeyError | Some x \<Rightarrow> Inr x)"

text \<open>\<^verbatim>\<open>frame.iloc[i]['Close']\<close> for a non-negative position \<open>i\<close>.\<close>

definition iloc_close :: "series \<Rightarrow> nat \<Rightarrow> py_error + xreal" where
  "iloc_close rows i = (if i < length rows then Inr (snd (rows ! i)) else Inl IndexError)"

text \<open>\<^verbatim>\<open>frame.index.get_loc(date)\<close>: the position of the row labelled \<open>date\<close>.\<close>

fun get_loc :: "series \<Rightarrow> date \<Rightarrow> py_error + nat" where
  "get_loc [] d = Inl KeyError"
| "get_loc ((d', x) # rows) d =
     (if d' = d then Inr 0
      else (case get_loc rows d of Inl e \<Rightarrow> Inl e | Inr i \<Rightarrow> Inr (Suc i)))"

subsection \<open>Strategy parameters (lines 37-49)\<close>

definition initial_capital :: number where "initial_capital = py 100000"
definition dividend_alloc :: number where "dividend_alloc = py (70 / 100)"
definition growth_alloc :: number where "growth_alloc = py (30 / 100)"
definition market_lookback_days :: nat where "market_lookback_days = 60"
definition market_threshold :: number where "market_threshold = py (5 / 100)"
definition tolerance :: number where "tolerance = py (5 / 100)"

subsection \<open>Market condition detection (lines 164-184)\<close>

text \<open>
  The frames have two column levels: lines 141, 151, 206, 217 and 346 apply
  \<^verbatim>\<open>.iloc[0]\<close> to the \<^verbatim>\<open>Close\<close> cell of a row, and line 347 applies it to the very
  expression \<^verbatim>\<open>spy_data.iloc[i]['Close']\<close> that lines 173-174 use bare. So
  \<^verbatim>\<open>current_price\<close>, \<^verbatim>\<open>past_price\<close> and \<^verbatim>\<open>price_change\<close> are one-element
  series, the comparison of line 177 is a one-element series of booleans, and pandas
  raises \<^verbatim>\<open>ValueError\<close> when \<^verbatim>\<open>if\<close> asks for the truth value of a series,
  whatever it holds.
\<close>

definition series_truth :: "bool \<Rightarrow> py_error + bool" where
  "series_truth b = Inl ValueError"

text \<open>The body of the \<^verbatim>\<open>try\<close> block: every exception is a left value.\<close>

definition detect_try :: "date \<Rightarrow> series \<Rightarrow> nat \<Rightarrow> number \<Rightarrow> py_error + (regime \<times> number)" where
  "detect_try d spy lookback_days threshold =
     (case get_loc spy d of
        Inl e \<Rightarrow> Inl e
      | Inr current_idx \<Rightarrow>
          if current_idx < lookback_days then Inr (sideways, py (70 / 100))
          else (case iloc_close spy current_idx of
                  Inl e \<Rightarrow> Inl e
                | Inr current_price \<Rightarrow>
                    (case iloc_close spy (current_idx - lookback_days) of
                       Inl e \<Rightarrow> Inl e
                     | Inr past_price \<Rightarrow>
                         (let price_change =
                                ieee_quotient (Np current_price - Np past_price) (Np past_price)
                          in case series_truth (price_change > threshold) of
                               Inl e \<Rightarrow> Inl e
                             | Inr is_above \<Rightarrow>
                                 if is_above then Inr (bull, py (55 / 100))
                                 else (case series_truth (price_change < - threshold) of
                                         Inl e \<Rightarrow> Inl e
                                       | Inr is_below \<Rightarrow>
                                           if is_below then Inr (bear, py (85 / 100))
                                           else Inr (sideways, py (70 / 100)))))))"

text \<open>The bare \<^verbatim>\<open>except\<close> turns every exception into the default.\<close>

definition detect_market_condition :: "date \<Rightarrow> series \<Rightarrow> nat \<Rightarrow> number \<Rightarrow> regime \<times> number" where
  "detect_market_condition d spy lookback_days threshold =
     (case detect_try d spy lookback_days threshold of
        Inl e \<Rightarrow> (sideways, py (70 / 100))
      | Inr r \<Rightarrow> r)"

section \<open>Ledger, loaded data and loop state\<close>

datatype category = dividend_aristocrat | high_growth

record position =
  shares :: number
  category :: category

type_synonym positions = "(symbol \<times> position) list"

datatype direction = sell_dividend | buy_dividend

record rebalancing_event =
  event_date :: date
  event_type :: "direction \<times> regime"
  event_market_condition :: regime
  target_alloc :: number
  excess_moved :: number
  dividend_alloc_before :: number
  dividend_alloc_after :: number

text \<open>
  The data loaded before the walk (lines 68-102). The weights come from
  \<^verbatim>\<open>ReliableFundamentalData.get_exponential_weights\<close>, which is not part of the
  source at hand; they are a parameter of the initial allocation, each a Python float or
  a \<^verbatim>\<open>numpy.float64\<close>.
\<close>

record market_data =
  spy_data :: series
  dividend_data :: "(symbol \<times> series) list"
  dividend_dividends :: "(symbol \<times> series) list"
  growth_data :: "(symbol \<times> series) list"

text \<open>
  What \<^verbatim>\<open>yfinance\<close> returned: for each symbol whose download did not raise, its
  frame, and for the dividend symbols the payments of \<^verbatim>\<open>ticker.dividends\<close>.
\<close>

record downloads =
  spy_download :: series
  dividend_downloads :: "(symbol \<times> series) list"
  dividend_payments :: "(symbol \<times> series) list"
  growth_downloads :: "(symbol \<times> series) list"

text \<open>
  Lines 76-102: a symbol is stored only with a non-empty frame (lines 79-80 and 96-97),
  and its payments only if its frame was stored.
\<close>

definition load_data :: "downloads \<Rightarrow> market_data" where
  "load_data raw =
     (let stored = filter (\<lambda>(symbol, data). data \<noteq> []) (dividend_downloads raw)
      in \<lparr>spy_data = spy_download raw,
          dividend_data = stored,
          dividend_dividends =
            filter (\<lambda>(symbol, dividends). map_of stored symbol \<noteq> None) (dividend_payments raw),
          growth_data = filter (\<lambda>(symbol, data). data \<noteq> []) (growth_downloads raw)\<rparr>)"

text \<open>
  The local variables of \<^verbatim>\<open>run_optimized_backtest\<close> that live across the iterations
  of the date loop. \<open>excess_dividend_value\<close> and \<open>deficit_dividend_value\<close> are unbound
  (\<open>None\<close>) until their branch first runs, and stay bound afterwards.
\<close>

record sim_state =
  positions :: positions
  cash :: number
  excess_dividend_value :: "number option"
  deficit_dividend_value :: "number option"
  market_conditions :: "regime list"
  dynamic_targets :: "number list"
  rebalancing_events :: "rebalancing_event list"
  portfolio_values :: "number list"
  spy_values :: "number list"
  dividend_values :: "number list"
  growth_values :: "number list"
  dates :: "date list"
  dividend_contributions :: "number list"
  growth_contributions :: "number list"

text \<open>
  \<^verbatim>\<open>for symbol, position in positions.items(): body\<close>, where the body updates the
  position in place and the cash balance, or raises before it has changed either. An
  exception leaves the loop with the positions already visited updated.
\<close>

fun for_positions ::
  "(symbol \<Rightarrow> position \<Rightarrow> number \<Rightarrow> py_error + (position \<times> number)) \<Rightarrow> positions \<Rightarrow> number
     \<Rightarrow> (positions \<times> number) \<times> py_error option" where
  "for_positions body [] c = (([], c), None)"
| "for_positions body ((symbol, position) # rest) c =
     (case body symbol position c of
        Inl e \<Rightarrow> (((symbol, position) # rest, c), Some e)
      | Inr (position', c') \<Rightarrow>
          (case for_positions body rest c' of
             ((rest', c''), r) \<Rightarrow> (((symbol, position') # rest', c''), r)))"

section \<open>Initial allocation (lines 135-158)\<close>

fun allocate_dividend ::
  "(symbol \<times> series) list \<Rightarrow> (symbol \<times> number) list \<Rightarrow> positions \<Rightarrow> number
     \<Rightarrow> py_error + (positions \<times> number)" where
  "allocate_dividend dd [] ps c = Inr (ps, c)"
| "allocate_dividend dd ((symbol, weight) # rest) ps c =
     (case map_of dd symbol of
        None \<Rightarrow> allocate_dividend dd rest ps c
      | Some frame \<Rightarrow>
          (case iloc_close frame 0 of
             Inl e \<Rightarrow> Inl e
           | Inr first_close \<Rightarrow>
               (let initial_price = Py first_close;
                    target_value = initial_capital * dividend_alloc * weight
                in case truediv target_value initial_price of
                     Inl e \<Rightarrow> Inl e
                   | Inr sh \<Rightarrow>
                       allocate_dividend dd rest
                         (AList.update symbol \<lparr>shares = sh, category = dividend_aristocrat\<rparr> ps)
                         (c - target_value))))"

fun allocate_growth ::
  "number \<Rightarrow> (symbol \<times> series) list \<Rightarrow> positions \<Rightarrow> number \<Rightarrow> py_error + (positions \<times> number)" where
  "allocate_growth w [] ps c = Inr (ps, c)"
| "allocate_growth w ((symbol, frame) # rest) ps c =
     (case iloc_close frame 0 of
        Inl e \<Rightarrow> Inl e
      | Inr first_close \<Rightarrow>
          (let initial_price = Py first_close;
               target_value = initial_capital * growth_alloc * w
           in case truediv target_value initial_price of
                Inl e \<Rightarrow> Inl e
              | Inr sh \<Rightarrow>
                  allocate_growth w rest
                    (AList.update symbol \<lparr>shares = sh, category = high_growth\<rparr> ps)
                    (c - target_value)))"

text \<open>Line 109: \<^verbatim>\<open>1.0 / len(growth_data) if growth_data else 0\<close>.\<close>

definition growth_weight_per_stock :: "market_data \<Rightarrow> number" where
  "growth_weight_per_stock md =
     (if growth_data md \<noteq> [] then py (1 / real (length (growth_data md))) else py 0)"

definition initial_allocation ::
  "market_data \<Rightarrow> (symbol \<times> number) list \<Rightarrow> py_error + (positions \<times> number)" where
  "initial_allocation md dividend_weights =
     (case allocate_dividend (dividend_data md) dividend_weights [] initial_capital of
        Inl e \<Rightarrow> Inl e
      | Inr (ps, c) \<Rightarrow> allocate_growth (growth_weight_per_stock md) (growth_data md) ps c)"

section \<open>One date of the walk (lines 197-359)\<close>

subsection \<open>Dividend reinvestment (lines 200-209)\<close>

text \<open>
  \<^verbatim>\<open>dividends[date]\<close> is a \<^verbatim>\<open>numpy.float64\<close>, so the amount received and the
  division of line 207 are numpy's: the division does not raise.
\<close>

definition reinvest_body ::
  "market_data \<Rightarrow> date \<Rightarrow> symbol \<Rightarrow> position \<Rightarrow> number \<Rightarrow> py_error + (position \<times> number)" where
  "reinvest_body md d symbol position c =
     (if category position = dividend_aristocrat then
        (case map_of (dividend_dividends md) symbol of
           None \<Rightarrow> Inr (position, c)
         | Some dividends \<Rightarrow>
             (case map_of dividends d of
                None \<Rightarrow> Inr (position, c)
              | Some payment \<Rightarrow>
                  (let dividend_amount = Np payment;
                       dividend_value_received = shares position * dividend_amount
                   in case map_of (dividend_data md) symbol of
                        None \<Rightarrow> Inl KeyError
                      | Some frame \<Rightarrow>
                          (case loc_close frame d of
                             Inl e \<Rightarrow> Inl e
                           | Inr close \<Rightarrow>
                               (let current_price = Py close
                                in case truediv dividend_value_received current_price of
                                     Inl e \<Rightarrow> Inl e
                                   | Inr new_shares \<Rightarrow>
                                       Inr (position\<lparr>shares := shares position + new_shares\<rparr>,
                                            c))))))
      else Inr (position, c))"

subsection \<open>Valuation (lines 212-227 and 324-339)\<close>

fun value_loop ::
  "market_data \<Rightarrow> date \<Rightarrow> positions \<Rightarrow> number \<times> number \<times> number \<Rightarrow> py_error + (number \<times> number \<times> number)" where
  "value_loop md d [] acc = Inr acc"
| "value_loop md d ((symbol, position) # rest) (portfolio_value, dividend_value, growth_value) =
     (case map_of (dividend_data md) symbol of
        Some frame \<Rightarrow>
          (case loc_close frame d of
             Inl e \<Rightarrow> Inl e
           | Inr close \<Rightarrow>
               (let current_price = Py close;
                    position_value = shares position * current_price
                in value_loop md d rest
                     (portfolio_value + position_value, dividend_value + position_value,
                      growth_value)))
      | None \<Rightarrow>
          (case map_of (growth_data md) symbol of
             Some frame \<Rightarrow>
               (case loc_close frame d of
                  Inl e \<Rightarrow> Inl e
                | Inr close \<Rightarrow>
                    (let current_price = Py close;
                         position_value = shares position * current_price
                     in value_loop md d rest
                          (portfolio_value + position_value, dividend_value,
                           growth_value + position_value)))
           | None \<Rightarrow> value_loop md d rest (portfolio_value, dividend_value, growth_value)))"

text \<open>The triple is (portfolio value, dividend value, growth value).\<close>

definition valuation ::
  "market_data \<Rightarrow> date \<Rightarrow> positions \<Rightarrow> number \<Rightarrow> py_error + (number \<times> number \<times> number)" where
  "valuation md d ps c = value_loop md d ps (c, py 0, py 0)"

text \<open>
  \<^verbatim>\<open>value / portfolio_value if portfolio_value > 0 else 0\<close>: the divisor is positive, so
  the division cannot raise.
\<close>

definition alloc_fraction :: "number \<Rightarrow> number \<Rightarrow> number" where
  "alloc_fraction v portfolio_value =
     (if portfolio_value > py 0 then ieee_quotient v portfolio_value else py 0)"

subsection \<open>The two legs of a trade (lines 258-278 and 289-309)\<close>

text \<open>
  The sale loops of the two branches (lines 258-265 over the dividend frames, 289-296 over
  the growth frames) are the same code up to the names; so are the purchase loops (lines
  268-278 and 299-309). \<open>frames\<close> is the dictionary of the sleeve, \<open>amount\<close> the excess
  or deficit, \<open>sleeve_value\<close> the sleeve's value before the trade. The divisions by the
  sleeve's value are guarded by \<^verbatim>\<open>> 0\<close> and cannot raise; the division by the price
  of line 276 (and 307) can.
\<close>

definition sell_body ::
  "(symbol \<times> series) list \<Rightarrow> date \<Rightarrow> number \<Rightarrow> number \<Rightarrow> symbol \<Rightarrow> position \<Rightarrow> number
     \<Rightarrow> py_error + (position \<times> number)" where
  "sell_body frames d amount sleeve_value symbol position c =
     (case map_of frames symbol of
        None \<Rightarrow> Inr (position, c)
      | Some frame \<Rightarrow>
          (case loc_close frame d of
             Inl e \<Rightarrow> Inl e
           | Inr close \<Rightarrow>
               (let current_price = Py close;
                    sell_fraction =
                      (if sleeve_value > py 0 then ieee_quotient amount sleeve_value else py 0);
                    shares_to_sell = shares position * sell_fraction
                in Inr (position\<lparr>shares := shares position - shares_to_sell\<rparr>,
                        c + shares_to_sell * current_price))))"

definition buy_body ::
  "(symbol \<times> series) list \<Rightarrow> date \<Rightarrow> number \<Rightarrow> number \<Rightarrow> symbol \<Rightarrow> position \<Rightarrow> number
     \<Rightarrow> py_error + (position \<times> number)" where
  "buy_body frames d amount sleeve_value symbol position c =
     (case map_of frames symbol of
        None \<Rightarrow> Inr (position, c)
      | Some frame \<Rightarrow>
          (case loc_close frame d of
             Inl e \<Rightarrow> Inl e
           | Inr close \<Rightarrow>
               (let current_price = Py close;
                    buy_fraction =
                      (if sleeve_value > py 0
                       then ieee_quotient (shares position * current_price) sleeve_value
                       else py (1 / real (length frames)));
                    buy_amount = amount * buy_fraction
                in case truediv buy_amount current_price of
                     Inl e \<Rightarrow> Inl e
                   | Inr shares_to_buy \<Rightarrow>
                       Inr (position\<lparr>shares := shares position + shares_to_buy\<rparr>,
                            c - buy_amount))))"

subsection \<open>Tolerance band, trade and event (lines 230-339)\<close>

text \<open>
  The dictionary literal of lines 313-321. Its \<^verbatim>\<open>excess_moved\<close> entry is
  \<^verbatim>\<open>excess_dividend_value if 'excess_dividend_value' in locals() else deficit_dividend_value\<close>.
\<close>

definition make_event ::
  "date \<Rightarrow> sim_state \<Rightarrow> direction \<Rightarrow> regime \<Rightarrow> number \<Rightarrow> number \<Rightarrow> number \<Rightarrow> number
     \<Rightarrow> py_error + rebalancing_event" where
  "make_event d st dir market_condition target_dividend_alloc current_dividend_alloc
       target_dividend_value portfolio_value =
     (case (case excess_dividend_value st of
              Some x \<Rightarrow> Inr x
            | None \<Rightarrow> (case deficit_dividend_value st of
                         Some y \<Rightarrow> Inr y
                       | None \<Rightarrow> Inl NameError)) of
        Inl e \<Rightarrow> Inl e
      | Inr moved \<Rightarrow>
          (case truediv target_dividend_value portfolio_value of
             Inl e \<Rightarrow> Inl e
           | Inr after \<Rightarrow>
               Inr \<lparr>event_date = d,
                    event_type = (dir, market_condition),
                    event_market_condition = market_condition,
                    target_alloc = target_dividend_alloc,
                    excess_moved = moved,
                    dividend_alloc_before = current_dividend_alloc,
                    dividend_alloc_after = after\<rparr>))"

text \<open>Lines 312-339: append the event, then value the portfolio again.\<close>

definition record_event ::
  "market_data \<Rightarrow> date \<Rightarrow> sim_state \<Rightarrow> direction \<Rightarrow> regime \<Rightarrow> number \<Rightarrow> number \<Rightarrow> number \<Rightarrow> number
     \<Rightarrow> sim_state \<times> (py_error + (number \<times> number \<times> number))" where
  "record_event md d st dir market_condition target_dividend_alloc current_dividend_alloc
       target_dividend_value portfolio_value =
     (case make_event d st dir market_condition target_dividend_alloc current_dividend_alloc
             target_dividend_value portfolio_value of
        Inl e \<Rightarrow> (st, Inl e)
      | Inr ev \<Rightarrow>
          (let st' = st\<lparr>rebalancing_events := rebalancing_events st @ [ev]\<rparr>
           in (st', valuation md d (positions st') (cash st'))))"

text \<open>Lines 249-278.\<close>

definition sell_dividend_branch ::
  "market_data \<Rightarrow> date \<Rightarrow> sim_state \<Rightarrow> regime \<Rightarrow> number \<Rightarrow> number \<Rightarrow> number \<times> number \<times> number
     \<Rightarrow> sim_state \<times> (py_error + (number \<times> number \<times> number))" where
  "sell_dividend_branch md d st market_condition target_dividend_alloc current_dividend_alloc v =
     (case v of (portfolio_value, dividend_value, growth_value) \<Rightarrow>
        (let target_dividend_value = portfolio_value * target_dividend_alloc;
             excess = dividend_value - target_dividend_value;
             st1 = st\<lparr>excess_dividend_value := Some excess\<rparr>
         in case for_positions (sell_body (dividend_data md) d excess dividend_value)
                   (positions st1) (cash st1) of
              ((ps, c), Some e) \<Rightarrow> (st1\<lparr>positions := ps, cash := c\<rparr>, Inl e)
            | ((ps, c), None) \<Rightarrow>
                (case for_positions (buy_body (growth_data md) d excess growth_value) ps c of
                   ((ps', c'), Some e) \<Rightarrow> (st1\<lparr>positions := ps', cash := c'\<rparr>, Inl e)
                 | ((ps', c'), None) \<Rightarrow>
                     record_event md d (st1\<lparr>positions := ps', cash := c'\<rparr>) sell_dividend
                       market_condition target_dividend_alloc current_dividend_alloc
                       target_dividend_value portfolio_value)))"

text \<open>Lines 280-309.\<close>

definition buy_dividend_branch ::
  "market_data \<Rightarrow> date \<Rightarrow> sim_state \<Rightarrow> regime \<Rightarrow> number \<Rightarrow> number \<Rightarrow> number \<times> number \<times> number
     \<Rightarrow> sim_state \<times> (py_error + (number \<times> number \<times> number))" where
  "buy_dividend_branch md d st market_condition target_dividend_alloc current_dividend_alloc v =
     (case v of (portfolio_value, dividend_value, growth_value) \<Rightarrow>
        (let target_dividend_value = portfolio_value * target_dividend_alloc;
             deficit = target_dividend_value - dividend_value;
             st1 = st\<lparr>deficit_dividend_value := Some deficit\<rparr>
         in case for_positions (sell_body (growth_data md) d deficit growth_value)
                   (positions st1) (cash st1) of
              ((ps, c), Some e) \<Rightarrow> (st1\<lparr>positions := ps, cash := c\<rparr>, Inl e)
            | ((ps, c), None) \<Rightarrow>
                (case for_positions (buy_body (dividend_data md) d deficit dividend_value) ps c of
                   ((ps', c'), Some e) \<Rightarrow> (st1\<lparr>positions := ps', cash := c'\<rparr>, Inl e)
                 | ((ps', c'), None) \<Rightarrow>
                     record_event md d (st1\<lparr>positions := ps', cash := c'\<rparr>) buy_dividend
                       market_condition target_dividend_alloc current_dividend_alloc
                       target_dividend_value portfolio_value)))"

text \<open>
  Lines 230-339 (\<^verbatim>\<open>enable_dynamic_rebalancing\<close> is the constant \<^verbatim>\<open>True\<close>). The
  argument is the valuation of lines 212-225; the result carries the values the snapshot
  will record: the same when no trade ran, the recomputed ones after a trade.
\<close>

definition rebalance ::
  "market_data \<Rightarrow> date \<Rightarrow> sim_state \<Rightarrow> number \<times> number \<times> number
     \<Rightarrow> sim_state \<times> (py_error + (number \<times> number \<times> number))" where
  "rebalance md d st v =
     (case v of (portfolio_value, dividend_value, growth_value) \<Rightarrow>
        (let current_dividend_alloc = alloc_fraction dividend_value portfolio_value
         in case detect_market_condition d (spy_data md) market_lookback_days market_threshold of
              (market_condition, target_dividend_alloc) \<Rightarrow>
                (let st1 = st\<lparr>market_conditions := market_conditions st @ [market_condition],
                              dynamic_targets := dynamic_targets st @ [target_dividend_alloc]\<rparr>;
                     upper_band = target_dividend_alloc + tolerance;
                     lower_band = target_dividend_alloc - tolerance
                 in if current_dividend_alloc > upper_band then
                      sell_dividend_branch md d st1 market_condition target_dividend_alloc
                        current_dividend_alloc v
                    else if current_dividend_alloc < lower_band then
                      buy_dividend_branch md d st1 market_condition target_dividend_alloc
                        current_dividend_alloc v
                    else (st1, Inr v))))"

subsection \<open>Benchmark value and snapshot (lines 345-356)\<close>

text \<open>
  Line 346 converts the close of the date with \<^verbatim>\<open>float(...)\<close>; the first close of
  line 347 stays a \<^verbatim>\<open>numpy.float64\<close>, so the division is numpy's and does not raise.
\<close>

definition record_values ::
  "market_data \<Rightarrow> date \<Rightarrow> sim_state \<Rightarrow> number \<times> number \<times> number \<Rightarrow> sim_state \<times> py_error option" where
  "record_values md d st v =
     (case v of (portfolio_value, dividend_value, growth_value) \<Rightarrow>
        (case loc_close (spy_data md) d of
           Inl e \<Rightarrow> (st, Some e)
         | Inr close \<Rightarrow>
             (case iloc_close (spy_data md) 0 of
                Inl e \<Rightarrow> (st, Some e)
              | Inr first_close \<Rightarrow>
                  (let spy_price = Py close
                   in case truediv spy_price (Np first_close) of
                        Inl e \<Rightarrow> (st, Some e)
                      | Inr ratio \<Rightarrow>
                          (st\<lparr>portfolio_values := portfolio_values st @ [portfolio_value],
                              spy_values := spy_values st @ [initial_capital * ratio],
                              dividend_values := dividend_values st @ [dividend_value],
                              growth_values := growth_values st @ [growth_value],
                              dates := dates st @ [d],
                              dividend_contributions := dividend_contributions st
                                @ [alloc_fraction dividend_value portfolio_value],
                              growth_contributions := growth_contributions st
                                @ [alloc_fraction growth_value portfolio_value]\<rparr>, None)))))"

subsection \<open>The body of the date loop and the loop\<close>

text \<open>
  The \<^verbatim>\<open>try\<close> body of one date. The second component is the exception that left it,
  if any; the state is the one the exception leaves behind.
\<close>

definition process_date :: "market_data \<Rightarrow> date \<Rightarrow> sim_state \<Rightarrow> sim_state \<times> py_error option" where
  "process_date md d st =
     (case for_positions (reinvest_body md d) (positions st) (cash st) of
        ((ps, c), Some e) \<Rightarrow> (st\<lparr>positions := ps, cash := c\<rparr>, Some e)
      | ((ps, c), None) \<Rightarrow>
          (let st1 = st\<lparr>positions := ps, cash := c\<rparr>
           in case valuation md d (positions st1) (cash st1) of
                Inl e \<Rightarrow> (st1, Some e)
              | Inr v \<Rightarrow>
                  (case rebalance md d st1 v of
                     (st2, Inl e) \<Rightarrow> (st2, Some e)
                   | (st2, Inr v') \<Rightarrow> record_values md d st2 v')))"

text \<open>
  \<^verbatim>\<open>for date in all_dates: try: ... except Exception: continue\<close>: the exception is
  logged and dropped, the walk goes on from the state it left.
\<close>

fun run_loop :: "market_data \<Rightarrow> date list \<Rightarrow> sim_state \<Rightarrow> sim_state" where
  "run_loop md [] st = st"
| "run_loop md (d # ds) st = run_loop md ds (fst (process_date md d st))"

section \<open>The whole run\<close>

text \<open>Lines 122-128: the dates common to the benchmark and every loaded frame.\<close>

definition all_dates :: "market_data \<Rightarrow> date list" where
  "all_dates md =
     filter (\<lambda>d. list_all (\<lambda>(symbol, frame). d \<in> fst ` set frame) (dividend_data md)
               \<and> list_all (\<lambda>(symbol, frame). d \<in> fst ` set frame) (growth_data md))
       (map fst (spy_data md))"

definition initial_state :: "positions \<Rightarrow> number \<Rightarrow> sim_state" where
  "initial_state ps c =
     \<lparr>positions = ps, cash = c, excess_dividend_value = None, deficit_dividend_value = None,
      market_conditions = [], dynamic_targets = [], rebalancing_events = [],
      portfolio_values = [], spy_values = [], dividend_values = [], growth_values = [],
      dates = [], dividend_contributions = [], growth_contributions = []\<rparr>"

datatype outcome = Raised py_error | Returned_None | Returned sim_state

text \<open>
  Lines 68-71, 130-132, 135-158, 197-363: the run up to the point where the metrics are
  derived from the recorded lists.
\<close>

definition run_optimized_backtest :: "market_data \<Rightarrow> (symbol \<times> number) list \<Rightarrow> outcome" where
  "run_optimized_backtest md dividend_weights =
     (if spy_data md = [] then Returned_None
      else if all_dates md = [] then Returned_None
      else (case initial_allocation md dividend_weights of
              Inl e \<Rightarrow> Raised e
            | Inr (ps, c) \<Rightarrow>
                (let st = run_loop md (all_dates md) (initial_state ps c)
                 in if portfolio_values st = [] then Returned_None else Returned st)))"

text \<open>Lines 400-403: the number of dates on which each market condition was recorded.\<close>

definition count_condition :: "(regime \<rightharpoonup> nat) \<Rightarrow> regime \<Rightarrow> (regime \<rightharpoonup> nat)" where
  "count_condition counts condition =
     counts(condition \<mapsto> (case counts condition of None \<Rightarrow> 0 | Some n \<Rightarrow> n) + 1)"

fun market_condition_counts :: "(regime \<rightharpoonup> nat) \<Rightarrow> regime list \<Rightarrow> (regime \<rightharpoonup> nat)" where
  "market_condition_counts counts [] = counts"
| "market_condition_counts counts (condition # rest) =
     market_condition_counts (count_condition counts condition) rest"

text \<open>The run from what was downloaded.\<close>

definition backtest :: "downloads \<Rightarrow> (symbol \<times> number) list \<Rightarrow> outcome" where
  "backtest raw dividend_weights = run_optimized_backtest (load_data raw) dividend_weights"

section \<open>Notions used to state the properties\<close>

text \<open>A number is finite when it is neither infinite nor NaN; \<open>rv\<close> is then its value.\<close>

definition fin :: "number \<Rightarrow> bool" where
  "fin a = (case val a of Fin r \<Rightarrow> True | _ \<Rightarrow> False)"

definition rv :: "number \<Rightarrow> real" where
  "rv a = (case val a of Fin r \<Rightarrow> r | _ \<Rightarrow> 0)"

definition is_nan :: "number \<Rightarrow> bool" where
  "is_nan a = (val a = NaN)"

text \<open>The share counts of a ledger, as real numbers.\<close>

definition holdings :: "positions \<Rightarrow> (symbol \<times> real) list" where
  "holdings ps = map (\<lambda>(s, p). (s, rv (shares p))) ps"

definition finite_positions :: "positions \<Rightarrow> bool" where
  "finite_positions ps = list_all (\<lambda>(s, p). fin (shares p)) ps"

text \<open>
  \<^verbatim>\<open>frames[symbol].loc[date, 'Close'].iloc[0]\<close> where both lookups succeed: the close of
  \<open>symbol\<close> on \<open>d\<close> in a sleeve's dictionary of frames; \<open>price_on\<close> is that close when
  it is finite.
\<close>

definition close_on :: "(symbol \<times> series) list \<Rightarrow> date \<Rightarrow> symbol \<Rightarrow> xreal option" where
  "close_on frames d symbol =
     (case map_of frames symbol of None \<Rightarrow> None | Some frame \<Rightarrow> map_of frame d)"

definition price_on :: "(symbol \<times> series) list \<Rightarrow> date \<Rightarrow> symbol \<Rightarrow> real option" where
  "price_on frames d symbol =
     (case close_on frames d symbol of Some (Fin price) \<Rightarrow> Some price | _ \<Rightarrow> None)"

text \<open>
  The per-share amount paid on \<open>d\<close> to a position: the guards of lines 201 and 203 and
  the lookup of line 204.
\<close>

definition payment_on :: "market_data \<Rightarrow> date \<Rightarrow> symbol \<Rightarrow> position \<Rightarrow> xreal option" where
  "payment_on md d symbol position =
     (if category position = dividend_aristocrat then
        (case map_of (dividend_dividends md) symbol of
           None \<Rightarrow> None
         | Some dividends \<Rightarrow> map_of dividends d)
      else None)"

text \<open>The position after the reinvestment of its payment on \<open>d\<close>, if it has one.\<close>

definition reinvested :: "market_data \<Rightarrow> date \<Rightarrow> symbol \<Rightarrow> position \<Rightarrow> position" where
  "reinvested md d s p =
     (case payment_on md d s p of
        None \<Rightarrow> p
      | Some amt \<Rightarrow>
          (case close_on (dividend_data md) d s of
             None \<Rightarrow> p
           | Some close \<Rightarrow>
               p\<lparr>shares := shares p + ieee_quotient (shares p * Np amt) (Py close)\<rparr>))"

text \<open>The value on \<open>d\<close> of the holdings whose symbol is priced in \<open>frames\<close>.\<close>

definition sleeve_value :: "(symbol \<times> series) list \<Rightarrow> date \<Rightarrow> (symbol \<times> real) list \<Rightarrow> real" where
  "sleeve_value frames d hs =
     (\<Sum>(s, x)\<leftarrow>hs. case price_on frames d s of None \<Rightarrow> 0 | Some price \<Rightarrow> x * price)"

text \<open>
  Every position belongs to at most one sleeve dictionary and, if it belongs to one, has a
  finite, non-zero close on \<open>d\<close> there.
\<close>

definition priced_symbol :: "market_data \<Rightarrow> date \<Rightarrow> symbol \<Rightarrow> bool" where
  "priced_symbol md d s =
     (case map_of (dividend_data md) s of
        Some frame \<Rightarrow>
          map_of (growth_data md) s = None
          \<and> (case map_of frame d of Some (Fin price) \<Rightarrow> price \<noteq> 0 | _ \<Rightarrow> False)
      | None \<Rightarrow>
          (case map_of (growth_data md) s of
             Some frame \<Rightarrow> (case map_of frame d of Some (Fin price) \<Rightarrow> price \<noteq> 0 | _ \<Rightarrow> False)
           | None \<Rightarrow> True))"

definition priced :: "market_data \<Rightarrow> date \<Rightarrow> positions \<Rightarrow> bool" where
  "priced md d ps = list_all (\<lambda>(s, p). priced_symbol md d s) ps"

text \<open>Every symbol of the dictionary \<open>frames\<close> has a position, and there is at least one.\<close>

definition covered :: "(symbol \<times> series) list \<Rightarrow> positions \<Rightarrow> bool" where
  "covered frames ps =
     (frames \<noteq> [] \<and> length (filter (\<lambda>(s, p). map_of frames s \<noteq> None) ps) = length frames)"

text \<open>What the sale loop and the purchase loop do to one holding.\<close>

definition sell_fraction_of :: "real \<Rightarrow> real \<Rightarrow> real" where
  "sell_fraction_of amount sleeve_total = (if sleeve_total > 0 then amount / sleeve_total else 0)"

definition sold :: "(symbol \<times> series) list \<Rightarrow> date \<Rightarrow> real \<Rightarrow> symbol \<Rightarrow> real \<Rightarrow> real" where
  "sold frames d sf s x =
     (case price_on frames d s of
        None \<Rightarrow> x
      | Some price \<Rightarrow> x - x * sf)"

definition buy_fraction_of ::
  "(symbol \<times> series) list \<Rightarrow> date \<Rightarrow> real \<Rightarrow> symbol \<Rightarrow> real \<Rightarrow> real" where
  "buy_fraction_of frames d sleeve_total s x =
     (case price_on frames d s of
        None \<Rightarrow> 0
      | Some price \<Rightarrow>
          (if sleeve_total > 0 then x * price / sleeve_total
           else 1 / real (length frames)))"

definition bought ::
  "(symbol \<times> series) list \<Rightarrow> date \<Rightarrow> real \<Rightarrow> real \<Rightarrow> symbol \<Rightarrow> real \<Rightarrow> real" where
  "bought frames d amount sleeve_total s x =
     (case price_on frames d s of
        None \<Rightarrow> x
      | Some price \<Rightarrow> x + amount * buy_fraction_of frames d sleeve_total s x / price)"

text \<open>
  The close of every holding held in \<open>frames\<close> is there on \<open>d\<close>, finite and not zero.
\<close>

definition available :: "(symbol \<times> series) list \<Rightarrow> date \<Rightarrow> (symbol \<times> real) list \<Rightarrow> bool" where
  "available frames d hs =
     list_all (\<lambda>(s, x). map_of frames s \<noteq> None \<longrightarrow>
        (case price_on frames d s of None \<Rightarrow> False | Some price \<Rightarrow> price \<noteq> 0)) hs"

text \<open>
  The holdings after a sale of \<open>amount\<close> out of the sleeve \<open>src\<close> (worth \<open>vs\<close>) and a
  purchase of \<open>amount\<close> into the sleeve \<open>dst\<close> (worth \<open>vd\<close>).
\<close>

definition traded ::
  "(symbol \<times> series) list \<Rightarrow> (symbol \<times> series) list \<Rightarrow> date \<Rightarrow> real \<Rightarrow> real \<Rightarrow> real
     \<Rightarrow> (symbol \<times> real) list \<Rightarrow> (symbol \<times> real) list" where
  "traded src dst d amount vs vd hs =
     map (\<lambda>(s, x). (s, bought dst d amount vd s x))
       (map (\<lambda>(s, x). (s, sold src d (sell_fraction_of amount vs) s x)) hs)"

text \<open>The lists that lines 350-356 append to, as one tuple.\<close>

definition snapshots ::
  "sim_state \<Rightarrow> date list \<times> number list \<times> number list \<times> number list \<times> number list
     \<times> number list \<times> number list" where
  "snapshots st =
     (dates st, portfolio_values st, spy_values st, dividend_values st, growth_values st,
      dividend_contributions st, growth_contributions st)"

text \<open>The number of dates counted by the histogram of lines 400-403.\<close>

definition histogram_total :: "(regime \<rightharpoonup> nat) \<Rightarrow> nat" where
  "histogram_total counts =
     (case counts bull of None \<Rightarrow> 0 | Some n \<Rightarrow> n)
     + (case counts bear of None \<Rightarrow> 0 | Some n \<Rightarrow> n)
     + (case counts sideways of None \<Rightarrow> 0 | Some n \<Rightarrow> n)"

text \<open>
  The recorded lists have matching lengths: the five snapshot lists one entry per recorded
  date, the dynamic targets one entry per market condition, and there are at least as many
  market conditions as recorded dates.
\<close>

definition aligned :: "sim_state \<Rightarrow> bool" where
  "aligned st \<longleftrightarrow>
     length (portfolio_values st) = length (dates st)
     \<and> length (spy_values st) = length (dates st)
     \<and> length (dividend_values st) = length (dates st)
     \<and> length (growth_values st) = length (dates st)
     \<and> length (dynamic_targets st) = length (market_conditions st)
     \<and> length (dates st) \<le> length (market_conditions st)"

text \<open>Every stored frame has a row, as lines 79-80 and 96-97 see to.\<close>

definition stored :: "market_data \<Rightarrow> bool" where
  "stored md =
     (list_all (\<lambda>(symbol, frame). frame \<noteq> []) (dividend_data md)
      \<and> list_all (\<lambda>(symbol, frame). frame \<noteq> []) (growth_data md))"

section \<open>Arithmetic of finite numbers\<close>

lemma fin_cases: "fin a \<longleftrightarrow> (\<exists>r. a = Py (Fin r) \<or> a = Np (Fin r))"
  by (cases a; cases "val a") (auto simp: fin_def)

lemma fin_simps [simp]:
  "fin (Py (Fin r))" "fin (Np (Fin r))"
  "\<not> fin (Py NaN)" "\<not> fin (Np NaN)" "\<not> fin (Py PInf)" "\<not> fin (Np PInf)"
  "\<not> fin (Py MInf)" "\<not> fin (Np MInf)"
  by (simp_all add: fin_def)

lemma rv_simps [simp]: "rv (Py (Fin r)) = r" "rv (Np (Fin r)) = r"
  by (simp_all add: rv_def)

lemma fin_val: "fin a \<Longrightarrow> val a = Fin (rv a)"
  by (auto simp: fin_cases)

lemma fin_plus [simp]: "fin a \<Longrightarrow> fin b \<Longrightarrow> fin (a + b)"
  and rv_plus [simp]: "fin a \<Longrightarrow> fin b \<Longrightarrow> rv (a + b) = rv a + rv b"
  by (auto simp: fin_cases plus_number_def result_def)

lemma fin_minus [simp]: "fin a \<Longrightarrow> fin b \<Longrightarrow> fin (a - b)"
  and rv_minus [simp]: "fin a \<Longrightarrow> fin b \<Longrightarrow> rv (a - b) = rv a - rv b"
  by (auto simp: fin_cases minus_number_def result_def)

lemma fin_times [simp]: "fin a \<Longrightarrow> fin b \<Longrightarrow> fin (a * b)"
  and rv_times [simp]: "fin a \<Longrightarrow> fin b \<Longrightarrow> rv (a * b) = rv a * rv b"
  by (auto simp: fin_cases times_number_def result_def)

lemma fin_quotient [simp]: "fin a \<Longrightarrow> fin b \<Longrightarrow> rv b \<noteq> 0 \<Longrightarrow> fin (ieee_quotient a b)"
  and rv_quotient [simp]: "fin a \<Longrightarrow> fin b \<Longrightarrow> rv b \<noteq> 0 \<Longrightarrow> rv (ieee_quotient a b) = rv a / rv b"
  by (auto simp: fin_cases ieee_quotient_def result_def)

lemma truediv_fin: "fin b \<Longrightarrow> rv b \<noteq> 0 \<Longrightarrow> truediv a b = Inr (ieee_quotient a b)"
  by (auto simp: fin_cases truediv_def)

lemma truediv_numpy: "is_numpy a \<or> is_numpy b \<Longrightarrow> truediv a b = Inr (ieee_quotient a b)"
  by (auto simp: truediv_def)

lemma less_fin: "fin a \<Longrightarrow> fin b \<Longrightarrow> (a < b) = (rv a < rv b)"
  by (auto simp: fin_cases less_number_def)

section \<open>The classifier\<close>

lemma get_loc_bound: "get_loc spy d = Inr i \<Longrightarrow> i < length spy"
  by (induction spy arbitrary: i) (auto split: if_splits sum.splits)

lemma get_loc_label: "get_loc spy d = Inr i \<Longrightarrow> fst (spy ! i) = d"
  by (induction spy arbitrary: i) (auto split: if_splits sum.splits)

lemma detect_try_warm_up:
  "get_loc spy d = Inr i \<Longrightarrow> i < n \<Longrightarrow> detect_try d spy n t = Inr (sideways, py (70 / 100))"
  by (simp add: detect_try_def)

lemma detect_try_after_warm_up:
  "get_loc spy d = Inr i \<Longrightarrow> n \<le> i \<Longrightarrow> detect_try d spy n t = Inl ValueError"
  by (frule get_loc_bound)
    (simp add: detect_try_def iloc_close_def series_truth_def Let_def)

lemma detect_market_condition_sideways:
  "detect_market_condition d spy n t = (sideways, py (70 / 100))"
  by (simp add: detect_market_condition_def detect_try_def series_truth_def Let_def
      split: sum.splits)

text \<open>
  Claim C2, evaluated on a benchmark of 61 rows. The close is 100 on rows 0 to 59 and 110
  on row 60, the date of row 60 is classified with the lookback of 60 rows and the
  threshold 0.05 of the run. The date is found at position 60, which is not below the
  lookback, and the change by index offset, (110 - 100) / 100, is above the threshold, so
  the claim asks for (bull, 0.55). The test of line 177 raises and the classifier returns
  (sideways, 0.70).
\<close>

theorem classifier_never_leaves_sideways:
  "get_loc (map (\<lambda>i. (i, Fin 100)) [0..<60] @ [(60, Fin 110)]) 60 = Inr 60
   \<and> \<not> 60 < market_lookback_days
   \<and> market_threshold < ieee_quotient (Np (Fin 110) - Np (Fin 100)) (Np (Fin 100))
   \<and> detect_try 60 (map (\<lambda>i. (i, Fin 100)) [0..<60] @ [(60, Fin 110)])
        market_lookback_days market_threshold = Inl ValueError
   \<and> detect_market_condition 60 (map (\<lambda>i. (i, Fin 100)) [0..<60] @ [(60, Fin 110)])
        market_lookback_days market_threshold = (sideways, py (70 / 100))"
proof -
  let ?spy = "map (\<lambda>i. (i, Fin 100)) [0..<60] @ [(60, Fin 110)]"
  have loc: "get_loc (map (\<lambda>i. (i, Fin 100)) [k..<60] @ [(60, Fin 110)]) 60 = Inr (60 - k)"
    if "k \<le> 60" for k
    using that
  proof (induction "60 - k" arbitrary: k)
    case 0
    then show ?case by simp
  next
    case (Suc m)
    then have k: "k < 60" by simp
    then have "[k..<60] = k # [Suc k..<60]" by (simp add: upt_conv_Cons)
    moreover from Suc have "get_loc (map (\<lambda>i. (i, Fin 100)) [Suc k..<60] @ [(60, Fin 110)]) 60
        = Inr (60 - Suc k)" by simp
    ultimately show ?case using k by (simp add: Suc_diff_Suc)
  qed
  from loc [of 0] have 1: "get_loc ?spy 60 = Inr 60" by simp
  have 2: "\<not> 60 < market_lookback_days" by (simp add: market_lookback_days_def)
  have 3: "market_threshold < ieee_quotient (Np (Fin 110) - Np (Fin 100)) (Np (Fin 100))"
    by (simp add: market_threshold_def ieee_quotient_def result_def minus_number_def less_number_def)
  have 4: "detect_try 60 ?spy market_lookback_days market_threshold = Inl ValueError"
    using detect_try_after_warm_up [OF 1, of market_lookback_days market_threshold]
    by (simp add: market_lookback_days_def)
  then have 5: "detect_market_condition 60 ?spy market_lookback_days market_threshold
      = (sideways, py (70 / 100))"
    by (simp add: detect_market_condition_def)
  from 1 2 3 4 5 show ?thesis by blast
qed

lemma is_numpy_result [simp]: "is_numpy (result a b x) = (is_numpy a \<or> is_numpy b)"
  by (simp add: result_def)

lemma val_result [simp]: "val (result a b x) = x"
  by (simp add: result_def)

lemma is_numpy_arith [simp]:
  "is_numpy (a + b) = (is_numpy a \<or> is_numpy b)"
  "is_numpy (a - b) = (is_numpy a \<or> is_numpy b)"
  "is_numpy (a * b) = (is_numpy a \<or> is_numpy b)"
  "is_numpy (ieee_quotient a b) = (is_numpy a \<or> is_numpy b)"
  by (simp_all add: plus_number_def minus_number_def times_number_def ieee_quotient_def)

section \<open>Dividend reinvestment\<close>

lemma for_positions_keeps_cash:
  assumes "\<forall>(s, p) \<in> set ps. \<forall>c. body s p c = Inr (f s p, c)"
  shows "for_positions body ps c = ((map (\<lambda>(s, p). (s, f s p)) ps, c), None)"
  using assms by (induction ps arbitrary: c) auto

lemma reinvest_body_unpaid:
  "payment_on md d s p = None \<Longrightarrow> reinvest_body md d s p c = Inr (p, c)"
  by (auto simp: reinvest_body_def payment_on_def split: option.splits if_splits)

lemma reinvest_body_paid:
  "payment_on md d s p = Some amt \<Longrightarrow> close_on (dividend_data md) d s = Some close \<Longrightarrow>
     reinvest_body md d s p c
       = Inr (p\<lparr>shares := shares p + ieee_quotient (shares p * Np amt) (Py close)\<rparr>, c)"
  by (auto simp: reinvest_body_def payment_on_def close_on_def loc_close_def truediv_numpy
      Let_def split: option.splits if_splits)

lemma reinvest_loop_completes:
  assumes "\<forall>(s, p) \<in> set ps. payment_on md d s p \<noteq> None \<longrightarrow>
             close_on (dividend_data md) d s \<noteq> None"
  shows "for_positions (reinvest_body md d) ps c =
           ((map (\<lambda>(s, p). (s, reinvested md d s p)) ps, c), None)"
proof -
  have "\<forall>(s, p) \<in> set ps. \<forall>c. reinvest_body md d s p c = Inr (reinvested md d s p, c)"
  proof (clarify)
    fix s p c assume "(s, p) \<in> set ps"
    with assms have h: "payment_on md d s p \<noteq> None \<longrightarrow>
             close_on (dividend_data md) d s \<noteq> None" by blast
    show "reinvest_body md d s p c = Inr (reinvested md d s p, c)"
    proof (cases "payment_on md d s p")
      case None
      then show ?thesis by (simp add: reinvest_body_unpaid reinvested_def)
    next
      case (Some amt)
      with h obtain close where "close_on (dividend_data md) d s = Some close" by auto
      with Some show ?thesis by (simp add: reinvest_body_paid reinvested_def)
    qed
  qed
  then show ?thesis by (rule for_positions_keeps_cash)
qed

text \<open>
  Claim C3. When every position with a dividend payment recorded on the date has a close
  on that date, the reinvestment loop completes, leaves the cash balance unchanged, and
  adds to the share count of each such position the IEEE quotient of (share count * per-share
  amount) by the close of the date; a position without a payment is left as it was. For a
  finite share count, a finite amount and a finite non-zero close the new share count is
  the real number share count + (share count * amount) / close. In particular 100 shares,
  a payment of 1 per share and a close of 50 give 102 shares.
\<close>

theorem dividend_reinvestment:
  assumes ready: "\<forall>(s, p) \<in> set ps. payment_on md d s p \<noteq> None \<longrightarrow>
             close_on (dividend_data md) d s \<noteq> None"
  shows "let r = for_positions (reinvest_body md d) ps c; ps' = fst (fst r)
         in snd r = None \<and> snd (fst r) = c \<and> length ps' = length ps
            \<and> (\<forall>i < length ps. \<forall>s p. ps ! i = (s, p) \<longrightarrow>
                 (case payment_on md d s p of
                    None \<Rightarrow> ps' ! i = (s, p)
                  | Some amt \<Rightarrow>
                      (\<forall>close. close_on (dividend_data md) d s = Some close \<longrightarrow>
                         ps' ! i
                           = (s, p\<lparr>shares := shares p
                                      + ieee_quotient (shares p * Np amt) (Py close)\<rparr>))))
            \<and> (\<forall>i < length ps. \<forall>s p amt price.
                  ps ! i = (s, p) \<and> fin (shares p) \<and> payment_on md d s p = Some (Fin amt)
                  \<and> close_on (dividend_data md) d s = Some (Fin price) \<and> price \<noteq> 0 \<longrightarrow>
                  fst (ps' ! i) = s \<and> fin (shares (snd (ps' ! i)))
                  \<and> rv (shares (snd (ps' ! i)))
                      = rv (shares p) + rv (shares p) * amt / price)"
proof -
  let ?ps' = "map (\<lambda>(s, p). (s, reinvested md d s p)) ps"
  have run: "for_positions (reinvest_body md d) ps c = ((?ps', c), None)"
    using ready by (rule reinvest_loop_completes)
  have upd: "\<forall>i < length ps. \<forall>s p.  ps ! i = (s, p) \<longrightarrow>
                 (case payment_on md d s p of
                    None \<Rightarrow> ?ps' ! i = (s, p)
                  | Some amt \<Rightarrow>
                      (\<forall>close. close_on (dividend_data md) d s = Some close \<longrightarrow>
                         ?ps' ! i
                           = (s, p\<lparr>shares := shares p
                                      + ieee_quotient (shares p * Np amt) (Py close)\<rparr>)))"
    by (auto simp: reinvested_def split: option.splits)
  have real: "\<forall>i < length ps. \<forall>s p amt price.
                  ps ! i = (s, p) \<and> fin (shares p) \<and> payment_on md d s p = Some (Fin amt)
                  \<and> close_on (dividend_data md) d s = Some (Fin price) \<and> price \<noteq> 0 \<longrightarrow>
                  fst (?ps' ! i) = s \<and> fin (shares (snd (?ps' ! i)))
                  \<and> rv (shares (snd (?ps' ! i)))
                      = rv (shares p) + rv (shares p) * amt / price"
    by (auto simp: reinvested_def)
  show ?thesis
    unfolding Let_def run fst_conv snd_conv
    apply (intro conjI)
        apply simp
       apply simp
      apply simp
     apply (rule upd)
    apply (rule real)
    done
qed

theorem dividend_reinvestment_witness:
  "for_positions
     (reinvest_body
        \<lparr>spy_data = [(0, Fin 400)], dividend_data = [(''KO'', [(0, Fin 50)])],
         dividend_dividends = [(''KO'', [(0, Fin 1)])], growth_data = []\<rparr> 0)
     [(''KO'', \<lparr>shares = py 100, category = dividend_aristocrat\<rparr>)] (py 7)
   = (([(''KO'', \<lparr>shares = Np (Fin 102), category = dividend_aristocrat\<rparr>)], py 7), None)"
  using dividend_reinvestment [of "[(''KO'', \<lparr>shares = py 100, category = dividend_aristocrat\<rparr>)]"
        "\<lparr>spy_data = [(0, Fin 400)], dividend_data = [(''KO'', [(0, Fin 50)])],
         dividend_dividends = [(''KO'', [(0, Fin 1)])], growth_data = []\<rparr>" 0 "py 7"]
  by (simp add: payment_on_def close_on_def reinvest_body_def loc_close_def truediv_def
      ieee_quotient_def plus_number_def times_number_def result_def)

section \<open>Initial allocation\<close>

lemma stored_load_data: "stored (load_data raw)"
  by (auto simp: stored_def load_data_def Let_def list_all_iff)

lemma truediv_Inr: "truediv a b = Inr q \<Longrightarrow> q = ieee_quotient a b"
  by (auto simp: truediv_def split: if_splits)

lemma truediv_Inl: "truediv a b = Inl e \<Longrightarrow> e = ZeroDivisionError \<and> \<not> is_numpy a \<and> val b = Fin 0"
  by (auto simp: truediv_def split: if_splits)

lemma truediv_python_zero:
  "\<not> is_numpy a \<Longrightarrow> truediv a (Py (Fin 0)) = Inl ZeroDivisionError"
  by (simp add: truediv_def)

lemma parameters_python [simp]:
  "\<not> is_numpy initial_capital" "\<not> is_numpy dividend_alloc" "\<not> is_numpy growth_alloc"
  "\<not> is_numpy tolerance" "\<not> is_numpy market_threshold"
  "fin initial_capital" "fin dividend_alloc" "fin growth_alloc" "fin tolerance"
  by (simp_all add: initial_capital_def dividend_alloc_def growth_alloc_def tolerance_def
      market_threshold_def)

lemma allocate_dividend_others:
  "allocate_dividend dd ws ps c = Inr (ps', c') \<Longrightarrow> s \<notin> fst ` set ws \<Longrightarrow>
     map_of ps' s = map_of ps s"
proof (induction ws arbitrary: ps c)
  case Nil
  then show ?case by simp
next
  case (Cons a ws)
  obtain s0 w0 where a: "a = (s0, w0)" by (cases a)
  from Cons.prems(2) a have ne: "s \<noteq> s0" and notin: "s \<notin> fst ` set ws" by auto
  show ?case
  proof (cases "map_of dd s0")
    case None
    with Cons.prems(1) a have "allocate_dividend dd ws ps c = Inr (ps', c')" by simp
    from Cons.IH [OF this notin] show ?thesis .
  next
    case (Some frame)
    with Cons.prems(1) a obtain sh where
      "allocate_dividend dd ws
         (AList.update s0 \<lparr>shares = sh, category = dividend_aristocrat\<rparr> ps)
         (c - initial_capital * dividend_alloc * w0) = Inr (ps', c')"
      by (auto simp: Let_def split: sum.splits)
    from Cons.IH [OF this notin] ne show ?thesis by (simp add: update_conv')
  qed
qed

lemma allocate_dividend_shares:
  "allocate_dividend dd ws ps c = Inr (ps', c') \<Longrightarrow> distinct (map fst ws) \<Longrightarrow>
     (s, w) \<in> set ws \<Longrightarrow> map_of dd s = Some frame \<Longrightarrow> iloc_close frame 0 = Inr close \<Longrightarrow>
     map_of ps' s =
       Some \<lparr>shares = ieee_quotient (initial_capital * dividend_alloc * w) (Py close),
             category = dividend_aristocrat\<rparr>
     \<and> \<not> (\<not> is_numpy w \<and> close = Fin 0)"
proof (induction ws arbitrary: ps c)
  case Nil
  then show ?case by simp
next
  case (Cons a ws)
  obtain s0 w0 where a: "a = (s0, w0)" by (cases a)
  from Cons.prems(2) a have dist: "distinct (map fst ws)" and fresh: "s0 \<notin> fst ` set ws"
    by auto
  show ?case
  proof (cases "(s, w) = (s0, w0)")
    case True
    with Cons.prems(1,4,5) a obtain sh where
      dv: "truediv (initial_capital * dividend_alloc * w) (Py close) = Inr sh" and
      run: "allocate_dividend dd ws
         (AList.update s \<lparr>shares = sh, category = dividend_aristocrat\<rparr> ps)
         (c - initial_capital * dividend_alloc * w) = Inr (ps', c')"
      by (auto simp: Let_def split: sum.splits)
    from truediv_Inr [OF dv] have sh: "sh = ieee_quotient (initial_capital * dividend_alloc * w) (Py close)" .
    from dv have ok: "\<not> (\<not> is_numpy w \<and> close = Fin 0)"
      by (auto simp: truediv_def split: if_splits)
    from True fresh have "s \<notin> fst ` set ws" by simp
    from allocate_dividend_others [OF run this] sh ok show ?thesis by (simp add: update_conv')
  next
    case False
    with Cons.prems(3) a have mem: "(s, w) \<in> set ws" by auto
    show ?thesis
    proof (cases "map_of dd s0")
      case None
      with Cons.prems(1) a have "allocate_dividend dd ws ps c = Inr (ps', c')" by simp
      from Cons.IH [OF this dist mem Cons.prems(4,5)] show ?thesis .
    next
      case (Some frame0)
      with Cons.prems(1) a obtain sh where
        "allocate_dividend dd ws
           (AList.update s0 \<lparr>shares = sh, category = dividend_aristocrat\<rparr> ps)
           (c - initial_capital * dividend_alloc * w0) = Inr (ps', c')"
        by (auto simp: Let_def split: sum.splits)
      from Cons.IH [OF this dist mem Cons.prems(4,5)] show ?thesis .
    qed
  qed
qed

lemma allocate_dividend_succeeds:
  assumes "\<forall>(s, w) \<in> set ws. fin w \<and> (\<forall>frame. map_of dd s = Some frame \<longrightarrow>
             (\<exists>price. iloc_close frame 0 = Inr (Fin price) \<and> price \<noteq> 0))"
    and "fin c"
  shows "\<exists>ps' c'. allocate_dividend dd ws ps c = Inr (ps', c') \<and> fin c'
           \<and> rv c' = rv c - (\<Sum>(s, w)\<leftarrow>ws. if map_of dd s = None then 0
                                      else rv initial_capital * rv dividend_alloc * rv w)"
  using assms
proof (induction ws arbitrary: ps c)
  case Nil
  then show ?case by simp
next
  case (Cons a ws)
  obtain s0 w0 where a: "a = (s0, w0)" by (cases a)
  from Cons.prems(1) have rest: "\<forall>(s, w) \<in> set ws. fin w \<and> (\<forall>frame. map_of dd s = Some frame \<longrightarrow>
             (\<exists>price. iloc_close frame 0 = Inr (Fin price) \<and> price \<noteq> 0))" by simp
  from Cons.prems(1) a have w0: "fin w0" by simp
  show ?case
  proof (cases "map_of dd s0")
    case None
    with Cons.IH [OF rest Cons.prems(2), of ps] a show ?thesis by simp
  next
    case (Some frame)
    with Cons.prems(1) a obtain price where p: "iloc_close frame 0 = Inr (Fin price)" "price \<noteq> 0"
      by auto
    let ?t = "initial_capital * dividend_alloc * w0"
    have t: "fin ?t" "rv ?t = rv initial_capital * rv dividend_alloc * rv w0"
      using w0 by (simp_all add: initial_capital_def dividend_alloc_def)
    have dv: "truediv ?t (Py (Fin price)) = Inr (ieee_quotient ?t (Py (Fin price)))"
      using p(2) by (simp add: truediv_fin)
    from t Cons.prems(2) have c1: "fin (c - ?t)" "rv (c - ?t) = rv c - rv ?t" by simp_all
    from Cons.IH [OF rest c1(1),
        of "AList.update s0 \<lparr>shares = ieee_quotient ?t (Py (Fin price)),
              category = dividend_aristocrat\<rparr> ps"]
    show ?thesis using Some p a dv c1(2) t(2) by (auto simp: Let_def algebra_simps)
  qed
qed

lemma allocate_dividend_fails:
  "(s, w) \<in> set ws \<Longrightarrow> map_of dd s = Some frame \<Longrightarrow>
     iloc_close frame 0 = Inr (Fin 0) \<Longrightarrow> \<not> is_numpy w \<Longrightarrow>
     \<exists>e. allocate_dividend dd ws ps c = Inl e"
proof (induction ws arbitrary: ps c)
  case Nil
  then show ?case by simp
next
  case (Cons a ws)
  obtain s0 w0 where a: "a = (s0, w0)" by (cases a)
  show ?case
  proof (cases "(s, w) = (s0, w0)")
    case True
    with Cons.prems a show ?thesis by (auto simp: truediv_python_zero Let_def)
  next
    case False
    with Cons.prems a have "(s, w) \<in> set ws" by auto
    from Cons.IH [OF this Cons.prems(2,3,4)] a show ?thesis
      by (auto simp: Let_def split: option.splits sum.splits)
  qed
qed

lemma allocate_dividend_error:
  "allocate_dividend dd ws ps c = Inl e \<Longrightarrow> \<forall>(s, frame) \<in> set dd. frame \<noteq> [] \<Longrightarrow>
     e = ZeroDivisionError"
proof (induction ws arbitrary: ps c)
  case Nil
  then show ?case by simp
next
  case (Cons a ws)
  obtain s0 w0 where a: "a = (s0, w0)" by (cases a)
  show ?case
  proof (cases "map_of dd s0")
    case None
    with Cons.prems a Cons.IH show ?thesis by simp
  next
    case (Some frame)
    then have "(s0, frame) \<in> set dd" by (rule map_of_SomeD)
    with Cons.prems(2) have "frame \<noteq> []" by auto
    then obtain close where cl: "iloc_close frame 0 = Inr close" by (simp add: iloc_close_def)
    show ?thesis
    proof (cases "truediv (initial_capital * dividend_alloc * w0) (Py close)")
      case (Inl e')
      with Cons.prems(1) a Some cl truediv_Inl [OF Inl] show ?thesis by (simp add: Let_def)
    next
      case (Inr sh)
      with Cons.prems a Some cl Cons.IH show ?thesis by (simp add: Let_def)
    qed
  qed
qed

lemma allocate_growth_others:
  "allocate_growth w gd ps c = Inr (ps', c') \<Longrightarrow> s \<notin> fst ` set gd \<Longrightarrow>
     map_of ps' s = map_of ps s"
proof (induction gd arbitrary: ps c)
  case Nil
  then show ?case by simp
next
  case (Cons a gd)
  obtain s0 frame0 where a: "a = (s0, frame0)" by (cases a)
  from Cons.prems(2) a have ne: "s \<noteq> s0" and notin: "s \<notin> fst ` set gd" by auto
  from Cons.prems(1) a obtain sh where
    "allocate_growth w gd (AList.update s0 \<lparr>shares = sh, category = high_growth\<rparr> ps)
       (c - initial_capital * growth_alloc * w) = Inr (ps', c')"
    by (auto simp: Let_def split: sum.splits)
  from Cons.IH [OF this notin] ne show ?case by (simp add: update_conv')
qed

lemma allocate_growth_shares:
  "allocate_growth w gd ps c = Inr (ps', c') \<Longrightarrow> distinct (map fst gd) \<Longrightarrow>
     (s, frame) \<in> set gd \<Longrightarrow> iloc_close frame 0 = Inr close \<Longrightarrow>
     map_of ps' s =
       Some \<lparr>shares = ieee_quotient (initial_capital * growth_alloc * w) (Py close),
             category = high_growth\<rparr>
     \<and> \<not> (\<not> is_numpy w \<and> close = Fin 0)"
proof (induction gd arbitrary: ps c)
  case Nil
  then show ?case by simp
next
  case (Cons a gd)
  obtain s0 frame0 where a: "a = (s0, frame0)" by (cases a)
  from Cons.prems(2) a have dist: "distinct (map fst gd)" and fresh: "s0 \<notin> fst ` set gd"
    by auto
  show ?case
  proof (cases "s = s0")
    case True
    with Cons.prems(3) a fresh have "frame = frame0" by force
    with Cons.prems(1,4) a True obtain sh where
      dv: "truediv (initial_capital * growth_alloc * w) (Py close) = Inr sh" and
      run: "allocate_growth w gd
         (AList.update s \<lparr>shares = sh, category = high_growth\<rparr> ps)
         (c - initial_capital * growth_alloc * w) = Inr (ps', c')"
      by (auto simp: Let_def split: sum.splits)
    from truediv_Inr [OF dv] have sh: "sh = ieee_quotient (initial_capital * growth_alloc * w) (Py close)" .
    from dv have ok: "\<not> (\<not> is_numpy w \<and> close = Fin 0)"
      by (auto simp: truediv_def split: if_splits)
    from True fresh have "s \<notin> fst ` set gd" by simp
    from allocate_growth_others [OF run this] sh ok show ?thesis by (simp add: update_conv')
  next
    case False
    with Cons.prems(3) a have mem: "(s, frame) \<in> set gd" by auto
    from Cons.prems(1) a obtain sh where
      "allocate_growth w gd (AList.update s0 \<lparr>shares = sh, category = high_growth\<rparr> ps)
         (c - initial_capital * growth_alloc * w) = Inr (ps', c')"
      by (auto simp: Let_def split: sum.splits)
    from Cons.IH [OF this dist mem Cons.prems(4)] show ?thesis .
  qed
qed

lemma allocate_growth_succeeds:
  assumes "\<forall>(s, frame) \<in> set gd. \<exists>price. iloc_close frame 0 = Inr (Fin price) \<and> price \<noteq> 0"
    and "fin w" and "fin c"
  shows "\<exists>ps' c'. allocate_growth w gd ps c = Inr (ps', c') \<and> fin c'
           \<and> rv c' = rv c - real (length gd) * (rv initial_capital * rv growth_alloc * rv w)"
  using assms
proof (induction gd arbitrary: ps c)
  case Nil
  then show ?case by simp
next
  case (Cons a gd)
  obtain s0 frame0 where a: "a = (s0, frame0)" by (cases a)
  from Cons.prems(1) have rest:
    "\<forall>(s, frame) \<in> set gd. \<exists>price. iloc_close frame 0 = Inr (Fin price) \<and> price \<noteq> 0" by simp
  from Cons.prems(1) a obtain price where p: "iloc_close frame0 0 = Inr (Fin price)" "price \<noteq> 0"
    by auto
  let ?t = "initial_capital * growth_alloc * w"
  have t: "fin ?t" "rv ?t = rv initial_capital * rv growth_alloc * rv w"
    using Cons.prems(2) by simp_all
  have dv: "truediv ?t (Py (Fin price)) = Inr (ieee_quotient ?t (Py (Fin price)))"
    using p(2) by (simp add: truediv_fin)
  from t Cons.prems(3) have c1: "fin (c - ?t)" "rv (c - ?t) = rv c - rv ?t" by simp_all
  from Cons.IH [OF rest Cons.prems(2) c1(1),
      of "AList.update s0 \<lparr>shares = ieee_quotient ?t (Py (Fin price)),
            category = high_growth\<rparr> ps"]
  show ?case using p a dv c1(2) t(2) by (auto simp: Let_def algebra_simps)
qed

lemma allocate_growth_fails:
  "(s, frame) \<in> set gd \<Longrightarrow> iloc_close frame 0 = Inr (Fin 0) \<Longrightarrow> \<not> is_numpy w \<Longrightarrow>
     \<exists>e. allocate_growth w gd ps c = Inl e"
proof (induction gd arbitrary: ps c)
  case Nil
  then show ?case by simp
next
  case (Cons a gd)
  obtain s0 frame0 where a: "a = (s0, frame0)" by (cases a)
  show ?case
  proof (cases "(s, frame) = (s0, frame0)")
    case True
    with Cons.prems a show ?thesis by (auto simp: truediv_python_zero Let_def)
  next
    case False
    with Cons.prems a have "(s, frame) \<in> set gd" by auto
    from Cons.IH [OF this Cons.prems(2,3)] a show ?thesis
      by (auto simp: Let_def split: option.splits sum.splits)
  qed
qed

lemma allocate_growth_error:
  "allocate_growth w gd ps c = Inl e \<Longrightarrow> \<forall>(s, frame) \<in> set gd. frame \<noteq> [] \<Longrightarrow>
     e = ZeroDivisionError"
proof (induction gd arbitrary: ps c)
  case Nil
  then show ?case by simp
next
  case (Cons a gd)
  obtain s0 frame0 where a: "a = (s0, frame0)" by (cases a)
  from Cons.prems(2) a have "frame0 \<noteq> []" by auto
  then obtain close where cl: "iloc_close frame0 0 = Inr close" by (simp add: iloc_close_def)
  show ?case
  proof (cases "truediv (initial_capital * growth_alloc * w) (Py close)")
    case (Inl e')
    with Cons.prems(1) a cl truediv_Inl [OF Inl] show ?thesis by (simp add: Let_def)
  next
    case (Inr sh)
    with Cons.prems a cl Cons.IH show ?thesis by (simp add: Let_def)
  qed
qed

lemma growth_weight_python [simp]:
  "\<not> is_numpy (growth_weight_per_stock md)" "fin (growth_weight_per_stock md)"
  by (simp_all add: growth_weight_per_stock_def)

lemma growth_budget:
  "real (length (growth_data md))
     * (rv initial_capital * rv growth_alloc * rv (growth_weight_per_stock md))
     = (if growth_data md = [] then 0 else rv initial_capital * rv growth_alloc)"
  by (simp add: growth_weight_per_stock_def)

lemmas number_simps =
  plus_number_def minus_number_def times_number_def uminus_number_def less_number_def
  less_eq_number_def ieee_quotient_def truediv_def result_def

lemmas allocation_simps =
  initial_allocation_def iloc_close_def initial_capital_def dividend_alloc_def
  growth_alloc_def growth_weight_per_stock_def Let_def number_simps

text \<open>
  Claim C6, as the code has it. The initial allocation checks nothing about the sum of the
  weights. For every vector of finite weights with distinct symbols, summing to 1 or not,
  such that every weighted symbol with a stored frame and every growth symbol has a finite
  non-zero first close, the allocation succeeds; the cash left is the capital, minus
  initial_capital * dividend_alloc * weight for each weighted symbol with a stored frame,
  minus initial_capital * growth_alloc when a growth frame is stored; and each weighted
  symbol with a stored frame that is not also a growth symbol holds shares worth
  initial_capital * dividend_alloc * weight at its first close.
\<close>

theorem initial_allocation_by_weight:
  assumes div_ok: "\<forall>(s, w) \<in> set ws. fin w \<and> (\<forall>frame. map_of (dividend_data md) s = Some frame \<longrightarrow>
             (\<exists>price. iloc_close frame 0 = Inr (Fin price) \<and> price \<noteq> 0))"
    and gr_ok: "\<forall>(s, frame) \<in> set (growth_data md).
             \<exists>price. iloc_close frame 0 = Inr (Fin price) \<and> price \<noteq> 0"
    and dist: "distinct (map fst ws)"
  shows "\<exists>ps c. initial_allocation md ws = Inr (ps, c) \<and> fin c
           \<and> rv c = rv initial_capital
                 - (\<Sum>(s, w)\<leftarrow>ws. if map_of (dividend_data md) s = None then 0
                                 else rv initial_capital * rv dividend_alloc * rv w)
                 - (if growth_data md = [] then 0 else rv initial_capital * rv growth_alloc)
           \<and> (\<forall>(s, w) \<in> set ws. \<forall>frame price.
                 map_of (dividend_data md) s = Some frame \<and> iloc_close frame 0 = Inr (Fin price)
                   \<and> s \<notin> fst ` set (growth_data md) \<longrightarrow>
                 (\<exists>p. map_of ps s = Some p \<and> category p = dividend_aristocrat
                    \<and> fin (shares p)
                    \<and> rv (shares p) * price = rv initial_capital * rv dividend_alloc * rv w))"
proof -
  let ?spent = "\<Sum>(s, w)\<leftarrow>ws. if map_of (dividend_data md) s = None then 0
                                 else rv initial_capital * rv dividend_alloc * rv w"
  from allocate_dividend_succeeds [OF div_ok, of initial_capital "[]"]
  obtain ps1 c1 where d: "allocate_dividend (dividend_data md) ws [] initial_capital
       = Inr (ps1, c1)" and c1: "fin c1" "rv c1 = rv initial_capital - ?spent"
    by auto
  from allocate_growth_succeeds [OF gr_ok _ c1(1), of "growth_weight_per_stock md" ps1]
  obtain ps2 c2 where g: "allocate_growth (growth_weight_per_stock md) (growth_data md) ps1 c1
       = Inr (ps2, c2)" and c2: "fin c2"
     "rv c2 = rv c1 - real (length (growth_data md))
             * (rv initial_capital * rv growth_alloc * rv (growth_weight_per_stock md))"
    by auto
  have run: "initial_allocation md ws = Inr (ps2, c2)"
    using d g by (simp add: initial_allocation_def)
  have cash: "rv c2 = rv initial_capital - ?spent
      - (if growth_data md = [] then 0 else rv initial_capital * rv growth_alloc)"
    unfolding c2(2) c1(2) growth_budget ..
  have "\<forall>(s, w) \<in> set ws. \<forall>frame price.
                 map_of (dividend_data md) s = Some frame \<and> iloc_close frame 0 = Inr (Fin price)
                   \<and> s \<notin> fst ` set (growth_data md) \<longrightarrow>
                 (\<exists>p. map_of ps2 s = Some p \<and> category p = dividend_aristocrat
                    \<and> fin (shares p)
                    \<and> rv (shares p) * price = rv initial_capital * rv dividend_alloc * rv w)"
  proof (clarify)
    fix s w frame price
    assume mem: "(s, w) \<in> set ws" and fr: "map_of (dividend_data md) s = Some frame"
      and pr: "iloc_close frame 0 = Inr (Fin price)" and ng: "s \<notin> fst ` set (growth_data md)"
    from div_ok mem fr pr have nz: "price \<noteq> 0" and w: "fin w" by auto
    let ?p = "\<lparr>shares = ieee_quotient (initial_capital * dividend_alloc * w) (Py (Fin price)),
        category = dividend_aristocrat\<rparr>"
    from allocate_dividend_shares [OF d dist mem fr pr]
    have "map_of ps1 s = Some ?p" by simp
    with allocate_growth_others [OF g ng]
    have "map_of ps2 s = Some ?p" by simp
    moreover have "fin (shares ?p)"
      "rv (shares ?p) * price = rv initial_capital * rv dividend_alloc * rv w"
      using nz w by simp_all
    ultimately show "\<exists>p. map_of ps2 s = Some p \<and> category p = dividend_aristocrat
                    \<and> fin (shares p)
                    \<and> rv (shares p) * price = rv initial_capital * rv dividend_alloc * rv w"
      by (intro exI [of _ ?p]) simp
  qed
  with run c2(1) cash show ?thesis by blast
qed

theorem initial_allocation_by_weight_witness:
  "\<exists>ps. initial_allocation
     \<lparr>spy_data = [(0, Fin 400)],
      dividend_data = [(''A'', [(0, Fin 50)]), (''B'', [(0, Fin 100)])],
      dividend_dividends = [], growth_data = [(''C'', [(0, Fin 20)])]\<rparr>
     [(''A'', py (1 / 2)), (''B'', py (1 / 2))] = Inr (ps, py 0)
     \<and> map_of ps ''A'' = Some \<lparr>shares = py 700, category = dividend_aristocrat\<rparr>
     \<and> map_of ps ''B'' = Some \<lparr>shares = py 350, category = dividend_aristocrat\<rparr>"
proof -
  let ?md = "\<lparr>spy_data = [(0, Fin 400)],
      dividend_data = [(''A'', [(0, Fin 50)]), (''B'', [(0, Fin 100)])],
      dividend_dividends = [], growth_data = [(''C'', [(0, Fin 20)])]\<rparr>"
  let ?ws = "[(''A'', py (1 / 2)), (''B'', py (1 / 2))]"
  have 1: "\<forall>(s, w) \<in> set ?ws. fin w \<and> (\<forall>frame. map_of (dividend_data ?md) s = Some frame \<longrightarrow>
             (\<exists>price. iloc_close frame 0 = Inr (Fin price) \<and> price \<noteq> 0))"
    by (auto simp: iloc_close_def)
  have 2: "\<forall>(s, frame) \<in> set (growth_data ?md).
             \<exists>price. iloc_close frame 0 = Inr (Fin price) \<and> price \<noteq> 0"
    by (simp add: iloc_close_def)
  have 3: "distinct (map fst ?ws)" by simp
  from initial_allocation_by_weight [OF 1 2 3] obtain ps c where
    run: "initial_allocation ?md ?ws = Inr (ps, c)"
    and c: "rv c = rv initial_capital
                 - (\<Sum>(s, w)\<leftarrow>?ws. if map_of (dividend_data ?md) s = None then 0
                                 else rv initial_capital * rv dividend_alloc * rv w)
                 - (if growth_data ?md = [] then 0 else rv initial_capital * rv growth_alloc)"
    by blast
  from c have "rv c = 0"
    by (simp add: initial_capital_def dividend_alloc_def growth_alloc_def)
  from run have "c = py 0"
    by (simp add: allocation_simps)
  moreover from run have "map_of ps ''A'' = Some \<lparr>shares = py 700, category = dividend_aristocrat\<rparr>"
    and "map_of ps ''B'' = Some \<lparr>shares = py 350, category = dividend_aristocrat\<rparr>"
    by (auto simp: allocation_simps)
  ultimately show ?thesis using run by blast
qed

theorem weights_not_checked_counterexample:
  "sum_list (map rv (map snd [(''A'', py (1 / 2))])) \<noteq> 1
   \<and> initial_allocation
       \<lparr>spy_data = [(0, Fin 400)], dividend_data = [(''A'', [(0, Fin 50)])],
        dividend_dividends = [], growth_data = [(''C'', [(0, Fin 20)])]\<rparr>
       [(''A'', py (1 / 2))]
     = Inr ([(''A'', \<lparr>shares = py 700, category = dividend_aristocrat\<rparr>),
             (''C'', \<lparr>shares = py 1500, category = high_growth\<rparr>)], py 35000)"
  by (simp add: allocation_simps)

text \<open>
  Claim C7, as the code has it. Only non-empty frames are stored, so a first close is never
  missing, and the only exception of the initial allocation is \<^verbatim>\<open>ZeroDivisionError\<close>
  (there is no \<^verbatim>\<open>DataError\<close>). It is raised when the first close of a growth symbol is
  zero, and when the first close of a weighted dividend symbol with a stored frame is zero
  and its weight is a Python float. Nothing else about a first close is checked: whenever
  the allocation succeeds, the share count of each symbol is the IEEE quotient of its
  allocated value by its first close, whatever the sign of the close or whether it is a
  number at all; a zero first close is then only that of a dividend symbol whose weight is
  a \<^verbatim>\<open>numpy.float64\<close>. For a finite weight and a finite non-zero first close the share
  count is the real quotient allocated value / first close.
\<close>

theorem initial_allocation_prices:
  assumes frames: "stored md"
  shows "(\<forall>s frame. (s, frame) \<in> set (growth_data md) \<and> iloc_close frame 0 = Inr (Fin 0) \<longrightarrow>
            initial_allocation md ws = Inl ZeroDivisionError)
   \<and> (\<forall>s w frame. (s, w) \<in> set ws \<and> \<not> is_numpy w
          \<and> map_of (dividend_data md) s = Some frame \<and> iloc_close frame 0 = Inr (Fin 0) \<longrightarrow>
        initial_allocation md ws = Inl ZeroDivisionError)
   \<and> (\<forall>e. initial_allocation md ws = Inl e \<longrightarrow> e = ZeroDivisionError)
   \<and> (\<forall>ps c. initial_allocation md ws = Inr (ps, c) \<and> distinct (map fst ws)
        \<and> distinct (map fst (growth_data md)) \<longrightarrow>
      (\<forall>s w frame close. (s, w) \<in> set ws \<and> map_of (dividend_data md) s = Some frame
          \<and> iloc_close frame 0 = Inr close \<and> s \<notin> fst ` set (growth_data md) \<longrightarrow>
        map_of ps s
          = Some \<lparr>shares = ieee_quotient (initial_capital * dividend_alloc * w) (Py close),
                  category = dividend_aristocrat\<rparr>
        \<and> (close = Fin 0 \<longrightarrow> is_numpy w)
        \<and> (\<forall>price. fin w \<and> close = Fin price \<and> price \<noteq> 0 \<longrightarrow>
             fin (ieee_quotient (initial_capital * dividend_alloc * w) (Py close))
             \<and> rv (ieee_quotient (initial_capital * dividend_alloc * w) (Py close))
                 = rv initial_capital * rv dividend_alloc * rv w / price))
      \<and> (\<forall>s frame close. (s, frame) \<in> set (growth_data md)
          \<and> iloc_close frame 0 = Inr close \<longrightarrow>
        map_of ps s
          = Some \<lparr>shares = ieee_quotient
                     (initial_capital * growth_alloc * growth_weight_per_stock md) (Py close),
                  category = high_growth\<rparr>
        \<and> close \<noteq> Fin 0
        \<and> (\<forall>price. close = Fin price \<longrightarrow>
             fin (ieee_quotient (initial_capital * growth_alloc * growth_weight_per_stock md)
                    (Py close))
             \<and> rv (ieee_quotient (initial_capital * growth_alloc * growth_weight_per_stock md)
                    (Py close))
                 = rv initial_capital * rv growth_alloc * rv (growth_weight_per_stock md)
                     / price)))"
proof -
  from frames have dd: "\<forall>(s, frame) \<in> set (dividend_data md). frame \<noteq> []"
    and gd: "\<forall>(s, frame) \<in> set (growth_data md). frame \<noteq> []"
    by (simp_all add: stored_def list_all_iff)
  have err: "e = ZeroDivisionError" if "initial_allocation md ws = Inl e" for e
  proof (cases "allocate_dividend (dividend_data md) ws [] initial_capital")
    case (Inl e')
    with that have "e' = e" by (simp add: initial_allocation_def)
    with allocate_dividend_error [OF Inl dd] show ?thesis by simp
  next
    case (Inr r)
    obtain ps1 c1 where r: "r = (ps1, c1)" by (cases r)
    with Inr that
    have "allocate_growth (growth_weight_per_stock md) (growth_data md) ps1 c1 = Inl e"
      by (simp add: initial_allocation_def)
    from allocate_growth_error [OF this gd] show ?thesis .
  qed
  have growth_zero: "initial_allocation md ws = Inl ZeroDivisionError"
    if h: "(s, frame) \<in> set (growth_data md) \<and> iloc_close frame 0 = Inr (Fin 0)" for s frame
  proof -
    have "\<exists>e. initial_allocation md ws = Inl e"
    proof (cases "allocate_dividend (dividend_data md) ws [] initial_capital")
      case (Inl e)
      then show ?thesis by (simp add: initial_allocation_def)
    next
      case (Inr r)
      obtain ps1 c1 where r: "r = (ps1, c1)" by (cases r)
      from h allocate_growth_fails [of s frame "growth_data md" "growth_weight_per_stock md"
          ps1 c1]
      obtain e where "allocate_growth (growth_weight_per_stock md) (growth_data md) ps1 c1 = Inl e"
        by auto
      with Inr r show ?thesis by (simp add: initial_allocation_def)
    qed
    with err show ?thesis by blast
  qed
  have dividend_zero: "initial_allocation md ws = Inl ZeroDivisionError"
    if h: "(s, w) \<in> set ws \<and> \<not> is_numpy w
          \<and> map_of (dividend_data md) s = Some frame \<and> iloc_close frame 0 = Inr (Fin 0)"
    for s w frame
  proof -
    from h allocate_dividend_fails [of s w ws "dividend_data md" frame "[]" initial_capital]
    obtain e where "allocate_dividend (dividend_data md) ws [] initial_capital = Inl e"
      by blast
    then have "initial_allocation md ws = Inl e" by (simp add: initial_allocation_def)
    with err show ?thesis by blast
  qed
  have success: "(\<forall>s w frame close. (s, w) \<in> set ws \<and> map_of (dividend_data md) s = Some frame
          \<and> iloc_close frame 0 = Inr close \<and> s \<notin> fst ` set (growth_data md) \<longrightarrow>
        map_of ps s
          = Some \<lparr>shares = ieee_quotient (initial_capital * dividend_alloc * w) (Py close),
                  category = dividend_aristocrat\<rparr>
        \<and> (close = Fin 0 \<longrightarrow> is_numpy w)
        \<and> (\<forall>price. fin w \<and> close = Fin price \<and> price \<noteq> 0 \<longrightarrow>
             fin (ieee_quotient (initial_capital * dividend_alloc * w) (Py close))
             \<and> rv (ieee_quotient (initial_capital * dividend_alloc * w) (Py close))
                 = rv initial_capital * rv dividend_alloc * rv w / price))
      \<and> (\<forall>s frame close. (s, frame) \<in> set (growth_data md)
          \<and> iloc_close frame 0 = Inr close \<longrightarrow>
        map_of ps s
          = Some \<lparr>shares = ieee_quotient
                     (initial_capital * growth_alloc * growth_weight_per_stock md) (Py close),
                  category = high_growth\<rparr>
        \<and> close \<noteq> Fin 0
        \<and> (\<forall>price. close = Fin price \<longrightarrow>
             fin (ieee_quotient (initial_capital * growth_alloc * growth_weight_per_stock md)
                    (Py close))
             \<and> rv (ieee_quotient (initial_capital * growth_alloc * growth_weight_per_stock md)
                    (Py close))
                 = rv initial_capital * rv growth_alloc * rv (growth_weight_per_stock md)
                     / price))"
    if run: "initial_allocation md ws = Inr (ps, c) \<and> distinct (map fst ws)
        \<and> distinct (map fst (growth_data md))" for ps c
  proof -
    from run obtain ps1 c1 where
      d: "allocate_dividend (dividend_data md) ws [] initial_capital = Inr (ps1, c1)"
      and g: "allocate_growth (growth_weight_per_stock md) (growth_data md) ps1 c1 = Inr (ps, c)"
      by (auto simp: initial_allocation_def split: sum.splits)
    from run have dw: "distinct (map fst ws)" and dg: "distinct (map fst (growth_data md))"
      by simp_all
    have div: "map_of ps s
          = Some \<lparr>shares = ieee_quotient (initial_capital * dividend_alloc * w) (Py close),
                  category = dividend_aristocrat\<rparr>
        \<and> (close = Fin 0 \<longrightarrow> is_numpy w)
        \<and> (\<forall>price. fin w \<and> close = Fin price \<and> price \<noteq> 0 \<longrightarrow>
             fin (ieee_quotient (initial_capital * dividend_alloc * w) (Py close))
             \<and> rv (ieee_quotient (initial_capital * dividend_alloc * w) (Py close))
                 = rv initial_capital * rv dividend_alloc * rv w / price)"
      if h: "(s, w) \<in> set ws \<and> map_of (dividend_data md) s = Some frame
          \<and> iloc_close frame 0 = Inr close \<and> s \<notin> fst ` set (growth_data md)"
      for s w frame close
    proof -
      from h have mem: "(s, w) \<in> set ws" and fr: "map_of (dividend_data md) s = Some frame"
        and cl: "iloc_close frame 0 = Inr close" and ng: "s \<notin> fst ` set (growth_data md)"
        by simp_all
      from allocate_dividend_shares [OF d dw mem fr cl] allocate_growth_others [OF g ng]
      show ?thesis by auto
    qed
    have gro: "map_of ps s
          = Some \<lparr>shares = ieee_quotient
                     (initial_capital * growth_alloc * growth_weight_per_stock md) (Py close),
                  category = high_growth\<rparr>
        \<and> close \<noteq> Fin 0
        \<and> (\<forall>price. close = Fin price \<longrightarrow>
             fin (ieee_quotient (initial_capital * growth_alloc * growth_weight_per_stock md)
                    (Py close))
             \<and> rv (ieee_quotient (initial_capital * growth_alloc * growth_weight_per_stock md)
                    (Py close))
                 = rv initial_capital * rv growth_alloc * rv (growth_weight_per_stock md)
                     / price)"
      if h: "(s, frame) \<in> set (growth_data md) \<and> iloc_close frame 0 = Inr close"
      for s frame close
    proof -
      from h have mem: "(s, frame) \<in> set (growth_data md)"
        and cl: "iloc_close frame 0 = Inr close" by simp_all
      from allocate_growth_shares [OF g dg mem cl]
      show ?thesis by auto
    qed
    from div gro show ?thesis by blast
  qed
  from growth_zero dividend_zero err success show ?thesis by blast
qed

theorem negative_price_accepted_counterexample:
  "iloc_close [(0, Fin (- 50))] 0 = Inr (Fin (- 50))
   \<and> initial_allocation
       \<lparr>spy_data = [(0, Fin 400)], dividend_data = [(''A'', [(0, Fin (- 50))])],
        dividend_dividends = [], growth_data = [(''C'', [(0, Fin 20)])]\<rparr>
       [(''A'', py 1)]
     = Inr ([(''A'', \<lparr>shares = py (- 1400), category = dividend_aristocrat\<rparr>),
             (''C'', \<lparr>shares = py 1500, category = high_growth\<rparr>)], py 0)"
  by (simp add: allocation_simps)

theorem initial_allocation_prices_witness:
  "initial_allocation
       \<lparr>spy_data = [(0, Fin 400)], dividend_data = [(''A'', [(0, Fin 50)])],
        dividend_dividends = [], growth_data = [(''C'', [(0, Fin 0)])]\<rparr>
       [(''A'', py 1)] = Inl ZeroDivisionError
   \<and> initial_allocation
       \<lparr>spy_data = [(0, Fin 400)], dividend_data = [(''A'', [(0, Fin 0)])],
        dividend_dividends = [], growth_data = [(''C'', [(0, Fin 20)])]\<rparr>
       [(''A'', py 1)] = Inl ZeroDivisionError
   \<and> (\<exists>ps c. initial_allocation
       \<lparr>spy_data = [(0, Fin 400)], dividend_data = [(''A'', [(0, Fin 50)])],
        dividend_dividends = [], growth_data = [(''C'', [(0, Fin 20)])]\<rparr>
       [(''A'', py 1)] = Inr (ps, c)
      \<and> map_of ps ''A'' = Some \<lparr>shares = py 1400, category = dividend_aristocrat\<rparr>
      \<and> map_of ps ''C'' = Some \<lparr>shares = py 1500, category = high_growth\<rparr>)"
proof -
  let ?ws = "[(''A'', py 1)]"
  let ?gzero = "\<lparr>spy_data = [(0, Fin 400)], dividend_data = [(''A'', [(0, Fin 50)])],
        dividend_dividends = [], growth_data = [(''C'', [(0, Fin 0)])]\<rparr>"
  let ?dzero = "\<lparr>spy_data = [(0, Fin 400)], dividend_data = [(''A'', [(0, Fin 0)])],
        dividend_dividends = [], growth_data = [(''C'', [(0, Fin 20)])]\<rparr>"
  let ?good = "\<lparr>spy_data = [(0, Fin 400)], dividend_data = [(''A'', [(0, Fin 50)])],
        dividend_dividends = [], growth_data = [(''C'', [(0, Fin 20)])]\<rparr>"
  have st: "stored ?gzero" "stored ?dzero" "stored ?good" by (simp_all add: stored_def)
  have "(''C'', [(0, Fin 0)]) \<in> set (growth_data ?gzero)
        \<and> iloc_close [(0, Fin 0)] 0 = Inr (Fin 0)"
    by (simp add: iloc_close_def)
  with initial_allocation_prices [OF st(1), of ?ws]
  have a: "initial_allocation ?gzero ?ws = Inl ZeroDivisionError" by blast
  have "(''A'', py 1) \<in> set ?ws \<and> \<not> is_numpy (py 1)
        \<and> map_of (dividend_data ?dzero) ''A'' = Some [(0, Fin 0)]
        \<and> iloc_close [(0, Fin 0)] 0 = Inr (Fin 0)"
    by (simp add: iloc_close_def)
  with initial_allocation_prices [OF st(2), of ?ws]
  have b: "initial_allocation ?dzero ?ws = Inl ZeroDivisionError" by blast
  obtain ps c where run: "initial_allocation ?good ?ws = Inr (ps, c)"
    by (simp add: allocation_simps)
  have dist: "distinct (map fst ?ws) \<and> distinct (map fst (growth_data ?good))" by simp
  have da: "(''A'', py 1) \<in> set ?ws \<and> map_of (dividend_data ?good) ''A'' = Some [(0, Fin 50)]
          \<and> iloc_close [(0, Fin 50)] 0 = Inr (Fin 50)
          \<and> ''A'' \<notin> fst ` set (growth_data ?good)"
    by (simp add: iloc_close_def)
  have gc: "(''C'', [(0, Fin 20)]) \<in> set (growth_data ?good)
          \<and> iloc_close [(0, Fin 20)] 0 = Inr (Fin 20)"
    by (simp add: iloc_close_def)
  from initial_allocation_prices [OF st(3), of ?ws] run dist da
  have "map_of ps ''A''
      = Some \<lparr>shares = ieee_quotient (initial_capital * dividend_alloc * py 1) (Py (Fin 50)),
              category = dividend_aristocrat\<rparr>" by blast
  then have sa: "map_of ps ''A'' = Some \<lparr>shares = py 1400, category = dividend_aristocrat\<rparr>"
    by (simp add: initial_capital_def dividend_alloc_def number_simps)
  from initial_allocation_prices [OF st(3), of ?ws] run dist gc
  have "map_of ps ''C''
      = Some \<lparr>shares = ieee_quotient
                 (initial_capital * growth_alloc * growth_weight_per_stock ?good) (Py (Fin 20)),
              category = high_growth\<rparr>" by blast
  then have sc: "map_of ps ''C'' = Some \<lparr>shares = py 1500, category = high_growth\<rparr>"
    by (simp add: initial_capital_def growth_alloc_def growth_weight_per_stock_def number_simps)
  from a b run sa sc show ?thesis by blast
qed

section \<open>Valuation and the two legs of a trade\<close>

lemma holdings_simps [simp]:
  "holdings [] = []"
  "holdings ((s, p) # ps) = (s, rv (shares p)) # holdings ps"
  by (simp_all add: holdings_def)

lemma finite_positions_simps [simp]:
  "finite_positions []"
  "finite_positions ((s, p) # ps) = (fin (shares p) \<and> finite_positions ps)"
  by (simp_all add: finite_positions_def)

lemma holdings_symbols: "map fst (holdings ps) = map fst ps"
  by (induction ps) auto

lemma for_positions_values:
  assumes "\<forall>(s, p) \<in> set ps. \<forall>c. fin c \<longrightarrow>
             (\<exists>p' c'. body s p c = Inr (p', c') \<and> fin (shares p')
                \<and> rv (shares p') = f s (rv (shares p))
                \<and> fin c' \<and> rv c' = rv c + g s (rv (shares p)))"
    and "fin c"
  shows "\<exists>ps' c'. for_positions body ps c = ((ps', c'), None) \<and> finite_positions ps'
           \<and> holdings ps' = map (\<lambda>(s, x). (s, f s x)) (holdings ps)
           \<and> fin c' \<and> rv c' = rv c + (\<Sum>(s, x)\<leftarrow>holdings ps. g s x)"
  using assms
proof (induction ps arbitrary: c)
  case Nil
  then show ?case by simp
next
  case (Cons a ps)
  obtain s p where a: "a = (s, p)" by (cases a)
  from Cons.prems(1) a Cons.prems(2) obtain p' c1 where
    b: "body s p c = Inr (p', c1)" and p': "fin (shares p')"
      "rv (shares p') = f s (rv (shares p))"
    and c1: "fin c1" "rv c1 = rv c + g s (rv (shares p))"
    by fastforce
  from Cons.prems(1) have rest: "\<forall>(s, p) \<in> set ps. \<forall>c. fin c \<longrightarrow>
             (\<exists>p' c'. body s p c = Inr (p', c') \<and> fin (shares p')
                \<and> rv (shares p') = f s (rv (shares p))
                \<and> fin c' \<and> rv c' = rv c + g s (rv (shares p)))" by simp
  from Cons.IH [OF rest c1(1)] obtain ps' c' where
    r: "for_positions body ps c1 = ((ps', c'), None)" and fp: "finite_positions ps'"
    and h: "holdings ps' = map (\<lambda>(s, x). (s, f s x)) (holdings ps)"
    and c': "fin c'" "rv c' = rv c1 + (\<Sum>(s, x)\<leftarrow>holdings ps. g s x)"
    by blast
  have "for_positions body (a # ps) c = (((s, p') # ps', c'), None)"
    using a b r by simp
  moreover have "finite_positions ((s, p') # ps')" using p' fp by simp
  moreover have "holdings ((s, p') # ps') = map (\<lambda>(s, x). (s, f s x)) (holdings (a # ps))"
    using a p' h by simp
  moreover have "rv c' = rv c + (\<Sum>(s, x)\<leftarrow>holdings (a # ps). g s x)"
    using a c1 c' by simp
  ultimately show ?case using c'(1) by blast
qed

lemma price_on_Some:
  "price_on frames d s = Some price \<longleftrightarrow>
     (\<exists>frame. map_of frames s = Some frame \<and> map_of frame d = Some (Fin price))"
  by (auto simp: price_on_def close_on_def split: option.splits xreal.splits)

lemma sell_body_fin:
  assumes av: "map_of frames s \<noteq> None \<longrightarrow> price_on frames d s \<noteq> None"
    and fin: "fin (shares p)" "fin c" "fin amount" "fin V"
  shows "\<exists>p' c'. sell_body frames d amount V s p c = Inr (p', c') \<and> fin (shares p')
           \<and> rv (shares p') = sold frames d (sell_fraction_of (rv amount) (rv V)) s (rv (shares p))
           \<and> fin c'
           \<and> rv c' = rv c + (case price_on frames d s of None \<Rightarrow> 0
                 | Some price \<Rightarrow> rv (shares p) * sell_fraction_of (rv amount) (rv V) * price)"
proof (cases "map_of frames s")
  case None
  then have "price_on frames d s = None" by (simp add: price_on_def close_on_def)
  with None fin show ?thesis by (simp add: sell_body_def sold_def)
next
  case (Some frame)
  with av obtain price where pr: "price_on frames d s = Some price" by auto
  with Some have cl: "loc_close frame d = Inr (Fin price)"
    by (simp add: price_on_Some loc_close_def)
  let ?sf = "if V > py 0 then ieee_quotient amount V else py 0"
  have pos: "(V > py 0) = (rv V > 0)" using fin(4) by (simp add: less_fin)
  have sf: "fin ?sf" "rv ?sf = sell_fraction_of (rv amount) (rv V)"
    using fin pos by (auto simp: sell_fraction_of_def)
  let ?sts = "shares p * ?sf"
  have sts: "fin ?sts" "rv ?sts = rv (shares p) * sell_fraction_of (rv amount) (rv V)"
    using fin(1) sf by simp_all
  have run: "sell_body frames d amount V s p c
      = Inr (p\<lparr>shares := shares p - ?sts\<rparr>, c + ?sts * Py (Fin price))"
    using Some cl by (simp add: sell_body_def Let_def)
  show ?thesis
    unfolding run using sts fin(1,2) pr
    by (intro exI [of _ "p\<lparr>shares := shares p - ?sts\<rparr>"] exI [of _ "c + ?sts * Py (Fin price)"])
      (simp add: sold_def)
qed

lemma buy_body_fin:
  assumes av: "map_of frames s \<noteq> None \<longrightarrow>
       (case price_on frames d s of None \<Rightarrow> False | Some price \<Rightarrow> price \<noteq> 0)"
    and fin: "fin (shares p)" "fin c" "fin amount" "fin V"
  shows "\<exists>p' c'. buy_body frames d amount V s p c = Inr (p', c') \<and> fin (shares p')
           \<and> rv (shares p') = bought frames d (rv amount) (rv V) s (rv (shares p))
           \<and> fin c'
           \<and> rv c' = rv c + - (rv amount * buy_fraction_of frames d (rv V) s (rv (shares p)))"
proof (cases "map_of frames s")
  case None
  then have "price_on frames d s = None" by (simp add: price_on_def close_on_def)
  with None fin show ?thesis by (simp add: buy_body_def bought_def buy_fraction_of_def)
next
  case (Some frame)
  with av obtain price where pr: "price_on frames d s = Some price" and nz: "price \<noteq> 0"
    by (auto split: option.splits)
  with Some have cl: "loc_close frame d = Inr (Fin price)"
    by (simp add: price_on_Some loc_close_def)
  let ?bf = "if V > py 0 then ieee_quotient (shares p * Py (Fin price)) V
             else py (1 / real (length frames))"
  have pos: "(V > py 0) = (rv V > 0)" using fin(4) by (simp add: less_fin)
  have bf: "fin ?bf" "rv ?bf = buy_fraction_of frames d (rv V) s (rv (shares p))"
    using fin pos pr by (auto simp: buy_fraction_of_def)
  let ?ba = "amount * ?bf"
  have ba: "fin ?ba" "rv ?ba = rv amount * buy_fraction_of frames d (rv V) s (rv (shares p))"
    using fin(3) bf by simp_all
  have dv: "truediv ?ba (Py (Fin price)) = Inr (ieee_quotient ?ba (Py (Fin price)))"
    using nz by (simp add: truediv_fin)
  have run: "buy_body frames d amount V s p c
      = Inr (p\<lparr>shares := shares p + ieee_quotient ?ba (Py (Fin price))\<rparr>, c - ?ba)"
    using Some cl dv by (simp add: buy_body_def Let_def)
  show ?thesis
    unfolding run using ba fin(1,2) pr nz
    by (intro exI [of _ "p\<lparr>shares := shares p + ieee_quotient ?ba (Py (Fin price))\<rparr>"]
        exI [of _ "c - ?ba"])
      (simp add: bought_def)
qed

lemma finite_positions_member:
  "finite_positions ps \<Longrightarrow> (s, p) \<in> set ps \<Longrightarrow> fin (shares p)"
  by (auto simp: finite_positions_def list_all_iff)

lemma available_member:
  "available frames d (holdings ps) \<Longrightarrow> (s, p) \<in> set ps \<Longrightarrow>
     map_of frames s \<noteq> None \<longrightarrow>
       (case price_on frames d s of None \<Rightarrow> False | Some price \<Rightarrow> price \<noteq> 0)"
  by (induction ps) (auto simp: available_def)

lemma sell_leg:
  assumes av: "available frames d (holdings ps)" and fp: "finite_positions ps"
    and fin: "fin c" "fin amount" "fin V"
  shows "\<exists>ps' c'. for_positions (sell_body frames d amount V) ps c = ((ps', c'), None)
           \<and> finite_positions ps'
           \<and> holdings ps'
               = map (\<lambda>(s, x). (s, sold frames d (sell_fraction_of (rv amount) (rv V)) s x))
                   (holdings ps)
           \<and> fin c'
           \<and> rv c' = rv c
                 + sell_fraction_of (rv amount) (rv V) * sleeve_value frames d (holdings ps)"
proof -
  let ?sf = "sell_fraction_of (rv amount) (rv V)"
  let ?g = "\<lambda>s x. case price_on frames d s of None \<Rightarrow> 0 | Some price \<Rightarrow> x * ?sf * price"
  have "\<forall>(s, p) \<in> set ps. \<forall>c. fin c \<longrightarrow>
          (\<exists>p' c'. sell_body frames d amount V s p c = Inr (p', c') \<and> fin (shares p')
             \<and> rv (shares p') = sold frames d ?sf s (rv (shares p))
             \<and> fin c' \<and> rv c' = rv c + ?g s (rv (shares p)))"
  proof (clarify)
    fix s p c assume mem: "(s, p) \<in> set ps" and c: "fin c"
    from available_member [OF av mem]
    have "map_of frames s \<noteq> None \<longrightarrow> price_on frames d s \<noteq> None"
      by (auto split: option.splits)
    from sell_body_fin [OF this finite_positions_member [OF fp mem] c fin(2,3)]
    show "\<exists>p' c'. sell_body frames d amount V s p c = Inr (p', c') \<and> fin (shares p')
             \<and> rv (shares p') = sold frames d ?sf s (rv (shares p))
             \<and> fin c' \<and> rv c' = rv c + ?g s (rv (shares p))" .
  qed
  from for_positions_values [OF this fin(1)] obtain ps' c' where
    r: "for_positions (sell_body frames d amount V) ps c = ((ps', c'), None)"
    "finite_positions ps'"
    "holdings ps' = map (\<lambda>(s, x). (s, sold frames d ?sf s x)) (holdings ps)"
    "fin c'" and c': "rv c' = rv c + (\<Sum>(s, x)\<leftarrow>holdings ps. ?g s x)"
    by blast
  have "(\<Sum>(s, x)\<leftarrow>hs. ?g s x) = ?sf * sleeve_value frames d hs" for hs
    by (induction hs) (auto simp: sleeve_value_def algebra_simps split: option.splits)
  with c' have "rv c' = rv c + ?sf * sleeve_value frames d (holdings ps)" by simp
  with r show ?thesis by blast
qed

lemma buy_leg:
  assumes av: "available frames d (holdings ps)" and fp: "finite_positions ps"
    and fin: "fin c" "fin amount" "fin V"
  shows "\<exists>ps' c'. for_positions (buy_body frames d amount V) ps c = ((ps', c'), None)
           \<and> finite_positions ps'
           \<and> holdings ps'
               = map (\<lambda>(s, x). (s, bought frames d (rv amount) (rv V) s x)) (holdings ps)
           \<and> fin c'
           \<and> rv c' = rv c
                 - rv amount * (\<Sum>(s, x)\<leftarrow>holdings ps. buy_fraction_of frames d (rv V) s x)"
proof -
  let ?g = "\<lambda>s x. - (rv amount * buy_fraction_of frames d (rv V) s x)"
  have "\<forall>(s, p) \<in> set ps. \<forall>c. fin c \<longrightarrow>
          (\<exists>p' c'. buy_body frames d amount V s p c = Inr (p', c') \<and> fin (shares p')
             \<and> rv (shares p') = bought frames d (rv amount) (rv V) s (rv (shares p))
             \<and> fin c' \<and> rv c' = rv c + ?g s (rv (shares p)))"
  proof (clarify)
    fix s p c assume mem: "(s, p) \<in> set ps" and c: "fin c"
    from buy_body_fin [OF available_member [OF av mem] finite_positions_member [OF fp mem]
        c fin(2,3)]
    show "\<exists>p' c'. buy_body frames d amount V s p c = Inr (p', c') \<and> fin (shares p')
             \<and> rv (shares p') = bought frames d (rv amount) (rv V) s (rv (shares p))
             \<and> fin c' \<and> rv c' = rv c + ?g s (rv (shares p))" .
  qed
  from for_positions_values [OF this fin(1)] obtain ps' c' where
    r: "for_positions (buy_body frames d amount V) ps c = ((ps', c'), None)"
    "finite_positions ps'"
    "holdings ps' = map (\<lambda>(s, x). (s, bought frames d (rv amount) (rv V) s x)) (holdings ps)"
    "fin c'" and c': "rv c' = rv c + (\<Sum>(s, x)\<leftarrow>holdings ps. ?g s x)"
    by blast
  have "(\<Sum>(s, x)\<leftarrow>hs. ?g s x)
      = - (rv amount * (\<Sum>(s, x)\<leftarrow>hs. buy_fraction_of frames d (rv V) s x))" for hs
    by (induction hs) (auto simp: algebra_simps)
  with c' have "rv c' = rv c
      - rv amount * (\<Sum>(s, x)\<leftarrow>holdings ps. buy_fraction_of frames d (rv V) s x)" by simp
  with r show ?thesis by blast
qed

lemma priced_symbol_cases:
  assumes "priced_symbol md d s"
  shows "(map_of (dividend_data md) s \<noteq> None \<longrightarrow>
           (\<exists>price. price_on (dividend_data md) d s = Some price \<and> price \<noteq> 0)
           \<and> price_on (growth_data md) d s = None)
       \<and> (map_of (growth_data md) s \<noteq> None \<longrightarrow>
           (\<exists>price. price_on (growth_data md) d s = Some price \<and> price \<noteq> 0)
           \<and> price_on (dividend_data md) d s = None)"
  using assms
  by (cases "map_of (dividend_data md) s"; cases "map_of (growth_data md) s")
    (auto simp: priced_symbol_def price_on_def close_on_def split: option.splits xreal.splits)

lemma priced_member: "priced md d ps \<Longrightarrow> (s, p) \<in> set ps \<Longrightarrow> priced_symbol md d s"
  by (auto simp: priced_def list_all_iff)

lemma priced_available:
  assumes "priced md d ps"
  shows "available (dividend_data md) d (holdings ps)"
    and "available (growth_data md) d (holdings ps)"
proof -
  have *: "\<And>s x. (s, x) \<in> set (holdings ps) \<Longrightarrow> priced_symbol md d s"
    using assms by (auto simp: holdings_def priced_def list_all_iff)
  show "available (dividend_data md) d (holdings ps)"
    unfolding available_def list_all_iff
  proof (clarify)
    fix s x y assume "(s, x) \<in> set (holdings ps)" "map_of (dividend_data md) s = Some y"
    with priced_symbol_cases [OF *] obtain price where
      "price_on (dividend_data md) d s = Some price" "price \<noteq> 0" by blast
    then show "case price_on (dividend_data md) d s of None \<Rightarrow> False | Some price \<Rightarrow> price \<noteq> 0"
      by simp
  qed
  show "available (growth_data md) d (holdings ps)"
    unfolding available_def list_all_iff
  proof (clarify)
    fix s x y assume "(s, x) \<in> set (holdings ps)" "map_of (growth_data md) s = Some y"
    with priced_symbol_cases [OF *] obtain price where
      "price_on (growth_data md) d s = Some price" "price \<noteq> 0" by blast
    then show "case price_on (growth_data md) d s of None \<Rightarrow> False | Some price \<Rightarrow> price \<noteq> 0"
      by simp
  qed
qed

lemma priced_Cons:
  "priced md d ((s, p) # ps) \<longleftrightarrow> priced_symbol md d s \<and> priced md d ps"
  by (simp add: priced_def)

lemma priced_symbols: "map fst ps' = map fst ps \<Longrightarrow> priced md d ps' = priced md d ps"
proof (induction ps arbitrary: ps')
  case Nil
  then show ?case by simp
next
  case (Cons a ps)
  then obtain b qs where ps': "ps' = b # qs" by (cases ps') auto
  with Cons.prems have "fst b = fst a" "map fst qs = map fst ps" by simp_all
  with Cons.IH [of qs] ps' show ?case by (cases a; cases b) (simp add: priced_Cons)
qed

lemma covered_symbols: "map fst ps' = map fst ps \<Longrightarrow> covered frames ps' = covered frames ps"
proof -
  assume eq: "map fst ps' = map fst ps"
  have *: "length (filter (\<lambda>(s, p). P s) qs) = length (filter P (map fst qs))"
    for qs :: positions and P
    by (induction qs) auto
  show ?thesis unfolding covered_def * eq ..
qed

lemma priced_disjoint_all:
  assumes "priced md d ps"
  shows "\<forall>(s, x) \<in> set (holdings ps). price_on (dividend_data md) d s \<noteq> None
            \<longrightarrow> price_on (growth_data md) d s = None"
    and "\<forall>(s, x) \<in> set (holdings ps). price_on (growth_data md) d s \<noteq> None
            \<longrightarrow> price_on (dividend_data md) d s = None"
proof -
  have *: "\<And>s x. (s, x) \<in> set (holdings ps) \<Longrightarrow> priced_symbol md d s"
    using assms by (auto simp: holdings_def priced_def list_all_iff)
  show "\<forall>(s, x) \<in> set (holdings ps). price_on (dividend_data md) d s \<noteq> None
            \<longrightarrow> price_on (growth_data md) d s = None"
  proof (clarify)
    fix s x y assume mem: "(s, x) \<in> set (holdings ps)"
      and "price_on (dividend_data md) d s = Some y"
    then have "map_of (dividend_data md) s \<noteq> None" by (auto simp: price_on_Some)
    with priced_symbol_cases [OF * [OF mem]]
    show "price_on (growth_data md) d s = None" by blast
  qed
  show "\<forall>(s, x) \<in> set (holdings ps). price_on (growth_data md) d s \<noteq> None
            \<longrightarrow> price_on (dividend_data md) d s = None"
  proof (clarify)
    fix s x y assume mem: "(s, x) \<in> set (holdings ps)"
      and "price_on (growth_data md) d s = Some y"
    then have "map_of (growth_data md) s \<noteq> None" by (auto simp: price_on_Some)
    with priced_symbol_cases [OF * [OF mem]]
    show "price_on (dividend_data md) d s = None" by blast
  qed
qed

lemma value_loop_priced:
  "priced md d ps \<Longrightarrow> finite_positions ps \<Longrightarrow> fin pv \<Longrightarrow> fin dv \<Longrightarrow> fin gv \<Longrightarrow>
     \<exists>pv' dv' gv'. value_loop md d ps (pv, dv, gv) = Inr (pv', dv', gv')
       \<and> fin pv' \<and> fin dv' \<and> fin gv'
       \<and> rv pv' = rv pv + sleeve_value (dividend_data md) d (holdings ps)
                    + sleeve_value (growth_data md) d (holdings ps)
       \<and> rv dv' = rv dv + sleeve_value (dividend_data md) d (holdings ps)
       \<and> rv gv' = rv gv + sleeve_value (growth_data md) d (holdings ps)"
proof (induction ps arbitrary: pv dv gv)
  case Nil
  then show ?case by (simp add: sleeve_value_def)
next
  case (Cons a ps)
  obtain s p where a: "a = (s, p)" by (cases a)
  from Cons.prems a have ps: "priced md d ps" and sym: "priced_symbol md d s"
    and fp: "finite_positions ps" and sh: "fin (shares p)"
    by (simp_all add: priced_Cons)
  note IH = Cons.IH [OF ps fp]
  show ?case
  proof (cases "map_of (dividend_data md) s")
    case (Some frame)
    with priced_symbol_cases [OF sym] obtain price where
      pr: "price_on (dividend_data md) d s = Some price"
      and g: "price_on (growth_data md) d s = None" by auto
    from pr Some have cl: "loc_close frame d = Inr (Fin price)"
      by (simp add: price_on_Some loc_close_def)
    let ?v = "shares p * Py (Fin price)"
    have v: "fin ?v" "rv ?v = rv (shares p) * price" using sh by simp_all
    have run: "value_loop md d (a # ps) (pv, dv, gv)
        = value_loop md d ps (pv + ?v, dv + ?v, gv)"
      using a Some cl by (simp add: Let_def)
    from IH [of "pv + ?v" "dv + ?v" gv] v Cons.prems(3,4,5) a pr g
    show ?thesis unfolding run by (simp add: sleeve_value_def algebra_simps)
  next
    case None
    then have dn: "price_on (dividend_data md) d s = None"
      by (simp add: price_on_def close_on_def)
    show ?thesis
    proof (cases "map_of (growth_data md) s")
      case (Some frame)
      with priced_symbol_cases [OF sym] obtain price where
        pr: "price_on (growth_data md) d s = Some price" by auto
      from pr Some have cl: "loc_close frame d = Inr (Fin price)"
        by (simp add: price_on_Some loc_close_def)
      let ?v = "shares p * Py (Fin price)"
      have v: "fin ?v" "rv ?v = rv (shares p) * price" using sh by simp_all
      have run: "value_loop md d (a # ps) (pv, dv, gv)
          = value_loop md d ps (pv + ?v, dv, gv + ?v)"
        using a None Some cl by (simp add: Let_def)
      from IH [of "pv + ?v" dv "gv + ?v"] v Cons.prems(3,4,5) a pr dn
      show ?thesis unfolding run by (simp add: sleeve_value_def algebra_simps)
    next
      case gn: None
      then have g: "price_on (growth_data md) d s = None"
        by (simp add: price_on_def close_on_def)
      have run: "value_loop md d (a # ps) (pv, dv, gv) = value_loop md d ps (pv, dv, gv)"
        using a None gn by simp
      from IH [of pv dv gv] Cons.prems(3,4,5) a dn g
      show ?thesis unfolding run by (simp add: sleeve_value_def)
    qed
  qed
qed

lemma valuation_priced:
  assumes "priced md d ps" "finite_positions ps" "fin c"
  shows "\<exists>pv dv gv. valuation md d ps c = Inr (pv, dv, gv)
       \<and> fin pv \<and> fin dv \<and> fin gv
       \<and> rv pv = rv c + sleeve_value (dividend_data md) d (holdings ps)
                    + sleeve_value (growth_data md) d (holdings ps)
       \<and> rv dv = sleeve_value (dividend_data md) d (holdings ps)
       \<and> rv gv = sleeve_value (growth_data md) d (holdings ps)"
  using value_loop_priced [OF assms, of "py 0" "py 0"] by (simp add: valuation_def)

lemma sleeve_value_sold_same:
  "sleeve_value frames d (map (\<lambda>(s, x). (s, sold frames d sf s x)) hs)
     = (1 - sf) * sleeve_value frames d hs"
  by (induction hs) (auto simp: sleeve_value_def sold_def algebra_simps split: option.splits)

lemma sleeve_value_sold_other:
  assumes "\<forall>(s, x) \<in> set hs. price_on frames d s \<noteq> None \<longrightarrow> price_on other d s = None"
  shows "sleeve_value other d (map (\<lambda>(s, x). (s, sold frames d sf s x)) hs)
     = sleeve_value other d hs"
  using assms
  by (induction hs) (auto simp: sleeve_value_def sold_def split: option.splits)

lemma sleeve_value_bought_same:
  assumes "available frames d hs"
  shows "sleeve_value frames d (map (\<lambda>(s, x). (s, bought frames d amount V s x)) hs)
     = sleeve_value frames d hs + amount * (\<Sum>(s, x)\<leftarrow>hs. buy_fraction_of frames d V s x)"
  using assms
proof (induction hs)
  case Nil
  then show ?case by (simp add: sleeve_value_def)
next
  case (Cons a hs)
  obtain s x where a: "a = (s, x)" by (cases a)
  from Cons.prems a have av: "available frames d hs"
    and hd: "map_of frames s \<noteq> None \<longrightarrow>
        (case price_on frames d s of None \<Rightarrow> False | Some price \<Rightarrow> price \<noteq> 0)"
    by (simp_all add: available_def)
  have step: "(case price_on frames d s of None \<Rightarrow> 0
               | Some price \<Rightarrow> bought frames d amount V s x * price)
     = (case price_on frames d s of None \<Rightarrow> 0 | Some price \<Rightarrow> x * price)
       + amount * buy_fraction_of frames d V s x"
  proof (cases "price_on frames d s")
    case None
    then show ?thesis by (simp add: buy_fraction_of_def)
  next
    case (Some price)
    then have "map_of frames s \<noteq> None" by (auto simp: price_on_Some)
    with hd Some have "price \<noteq> 0" by simp
    with Some show ?thesis by (simp add: bought_def algebra_simps)
  qed
  from Cons.IH [OF av] step a show ?case
    by (simp add: sleeve_value_def algebra_simps)
qed

lemma sleeve_value_bought_other:
  assumes "\<forall>(s, x) \<in> set hs. price_on frames d s \<noteq> None \<longrightarrow> price_on other d s = None"
  shows "sleeve_value other d (map (\<lambda>(s, x). (s, bought frames d amount V s x)) hs)
     = sleeve_value other d hs"
  using assms
  by (induction hs) (auto simp: sleeve_value_def bought_def split: option.splits)

lemma buy_fractions_proportional:
  assumes "V > 0"
  shows "(\<Sum>(s, x)\<leftarrow>hs. buy_fraction_of frames d V s x) = sleeve_value frames d hs / V"
  using assms
  by (induction hs)
    (auto simp: sleeve_value_def buy_fraction_of_def add_divide_distrib split: option.splits)

lemma buy_fractions_equal_weight:
  assumes "\<not> V > 0" "available frames d hs"
  shows "(\<Sum>(s, x)\<leftarrow>hs. buy_fraction_of frames d V s x)
     = real (length (filter (\<lambda>s. map_of frames s \<noteq> None) (map fst hs))) / real (length frames)"
  using assms
proof (induction hs)
  case Nil
  then show ?case by simp
next
  case (Cons a hs)
  obtain s x where a: "a = (s, x)" by (cases a)
  from Cons.prems a have av: "available frames d hs"
    and hd: "map_of frames s \<noteq> None \<longrightarrow>
        (case price_on frames d s of None \<Rightarrow> False | Some price \<Rightarrow> price \<noteq> 0)"
    by (simp_all add: available_def)
  have "buy_fraction_of frames d V s x
     = (if map_of frames s \<noteq> None then 1 / real (length frames) else 0)"
    using hd Cons.prems(1)
    by (auto simp: buy_fraction_of_def price_on_def close_on_def split: option.splits)
  with Cons.IH [OF Cons.prems(1) av] a show ?case
    by (simp add: add_divide_distrib)
qed

lemma covered_count:
  "covered frames ps \<longleftrightarrow>
     frames \<noteq> [] \<and> length (filter (\<lambda>s. map_of frames s \<noteq> None) (map fst ps)) = length frames"
proof -
  have *: "length (filter (\<lambda>(s, p). P s) qs) = length (filter P (map fst qs))"
    for qs :: positions and P
    by (induction qs) auto
  show ?thesis unfolding covered_def * ..
qed

lemma buy_fractions_total:
  assumes "available frames d (holdings ps)" "V = sleeve_value frames d (holdings ps)"
    "V > 0 \<or> covered frames ps"
  shows "(\<Sum>(s, x)\<leftarrow>holdings ps. buy_fraction_of frames d V s x) = 1"
proof (cases "V > 0")
  case True
  with buy_fractions_proportional [OF True, of frames d "holdings ps"] assms(2)
  show ?thesis by simp
next
  case False
  with assms(3) have cov: "covered frames ps" by simp
  with buy_fractions_equal_weight [OF False assms(1)] show ?thesis
    by (simp add: covered_count holdings_symbols)
qed

lemma available_map:
  "available frames d (map (\<lambda>(s, x). (s, h s x)) hs) = available frames d hs"
  by (induction hs) (auto simp: available_def)

lemma available_symbols:
  "map fst hs' = map fst hs \<Longrightarrow> available frames d hs' = available frames d hs"
proof (induction hs arbitrary: hs')
  case Nil
  then show ?case by simp
next
  case (Cons a hs)
  then obtain b qs where hs': "hs' = b # qs" by (cases hs') auto
  with Cons.prems have "fst b = fst a" "map fst qs = map fst hs" by simp_all
  with Cons.IH [of qs] hs' show ?case by (cases a; cases b) (simp add: available_def)
qed

lemma map_fst_map: "map fst (map (\<lambda>(s, x). (s, h s x)) hs) = map fst hs"
  by (induction hs) auto

text \<open>
  The two loops of a trade on a finite ledger with available prices: both complete, the
  sale adds the sold fraction of the source sleeve to the cash, the purchase takes the
  amount out of it, the source sleeve keeps the unsold fraction and the destination sleeve
  gains the amount.
\<close>

lemma trade_legs:
  assumes av_src: "available src d (holdings ps)" and av_dst: "available dst d (holdings ps)"
    and disj: "\<forall>(s, x) \<in> set (holdings ps). price_on src d s \<noteq> None \<longrightarrow> price_on dst d s = None"
    and fp: "finite_positions ps" and fin: "fin c" "fin amount" "fin vs" "fin vd"
    and vs: "rv vs = sleeve_value src d (holdings ps)"
    and vd: "rv vd = sleeve_value dst d (holdings ps)"
    and dest: "rv vd > 0 \<or> covered dst ps"
  shows "\<exists>ps1 c1 ps2 c2.
           for_positions (sell_body src d amount vs) ps c = ((ps1, c1), None)
           \<and> fin c1 \<and> rv c1 = rv c + sell_fraction_of (rv amount) (rv vs) * rv vs
           \<and> for_positions (buy_body dst d amount vd) ps1 c1 = ((ps2, c2), None)
           \<and> fin c2 \<and> rv c2 = rv c1 - rv amount
           \<and> finite_positions ps2 \<and> map fst ps2 = map fst ps
           \<and> holdings ps2 = traded src dst d (rv amount) (rv vs) (rv vd) (holdings ps)
           \<and> sleeve_value src d (holdings ps2)
               = (1 - sell_fraction_of (rv amount) (rv vs)) * rv vs
           \<and> sleeve_value dst d (holdings ps2) = rv vd + rv amount"
proof -
  let ?sf = "sell_fraction_of (rv amount) (rv vs)"
  let ?hs1 = "map (\<lambda>(s, x). (s, sold src d ?sf s x)) (holdings ps)"
  from sell_leg [OF av_src fp fin(1,2,3)] obtain ps1 c1 where
    l1: "for_positions (sell_body src d amount vs) ps c = ((ps1, c1), None)"
    and fp1: "finite_positions ps1" and h1: "holdings ps1 = ?hs1"
    and c1: "fin c1" "rv c1 = rv c + ?sf * sleeve_value src d (holdings ps)"
    by blast
  have sym1: "map fst ps1 = map fst ps"
  proof -
    have "map fst ps1 = map fst (holdings ps1)" by (simp only: holdings_symbols)
    also have "\<dots> = map fst (holdings ps)" unfolding h1 by (rule map_fst_map)
    also have "\<dots> = map fst ps" by (rule holdings_symbols)
    finally show ?thesis .
  qed
  have disj': "\<forall>(s, x) \<in> set (holdings ps). price_on dst d s \<noteq> None \<longrightarrow> price_on src d s = None"
    using disj by fastforce
  have disj1: "\<forall>(s, x) \<in> set ?hs1. price_on dst d s \<noteq> None \<longrightarrow> price_on src d s = None"
    using disj' by fastforce
  have av1: "available dst d (holdings ps1)" using av_dst by (simp add: h1 available_map)
  have vd1: "sleeve_value dst d (holdings ps1) = rv vd"
    using sleeve_value_sold_other [OF disj] vd by (simp add: h1)
  have cov1: "rv vd > 0 \<or> covered dst ps1" using dest by (simp add: covered_symbols [OF sym1])
  have total: "(\<Sum>(s, x)\<leftarrow>holdings ps1. buy_fraction_of dst d (rv vd) s x) = 1"
    using buy_fractions_total [OF av1 _ cov1] vd1 by simp
  from buy_leg [OF av1 fp1 c1(1) fin(2,4)] obtain ps2 c2 where
    l2: "for_positions (buy_body dst d amount vd) ps1 c1 = ((ps2, c2), None)"
    and fp2: "finite_positions ps2"
    and h2: "holdings ps2
        = map (\<lambda>(s, x). (s, bought dst d (rv amount) (rv vd) s x)) (holdings ps1)"
    and c2: "fin c2" "rv c2 = rv c1
        - rv amount * (\<Sum>(s, x)\<leftarrow>holdings ps1. buy_fraction_of dst d (rv vd) s x)"
    by blast
  have tr: "holdings ps2 = traded src dst d (rv amount) (rv vs) (rv vd) (holdings ps)"
    by (simp add: h2 h1 traded_def)
  have sym2: "map fst ps2 = map fst ps"
  proof -
    have "map fst ps2 = map fst (holdings ps2)" by (simp only: holdings_symbols)
    also have "\<dots> = map fst (holdings ps1)" unfolding h2 by (rule map_fst_map)
    also have "\<dots> = map fst ps1" by (rule holdings_symbols)
    finally show ?thesis using sym1 by simp
  qed
  have s_src: "sleeve_value src d (holdings ps2) = (1 - ?sf) * rv vs"
    unfolding h2 h1
    using sleeve_value_bought_other [OF disj1] sleeve_value_sold_same [of src d ?sf "holdings ps"]
      vs by simp
  have s_dst: "sleeve_value dst d (holdings ps2) = rv vd + rv amount"
    unfolding h2
    using sleeve_value_bought_same [OF av1, of "rv amount" "rv vd"] total vd1 by simp
  from l1 c1 vs l2 c2 total fp2 sym2 tr s_src s_dst show ?thesis by auto
qed

section \<open>The tolerance band and the trade\<close>

lemma target_sideways:
  assumes "detect_market_condition d spy n t = (mc, tgt)"
  shows "mc = sideways" and "tgt = py (70 / 100)"
  using assms by (simp_all add: detect_market_condition_sideways)

lemma alloc_fraction_fin:
  assumes "fin v" "fin pv"
  shows "fin (alloc_fraction v pv)"
    and "rv (alloc_fraction v pv) = (if rv pv > 0 then rv v / rv pv else 0)"
  using assms by (auto simp: alloc_fraction_def less_fin)

lemma above_band_positive:
  assumes "fin dv" "fin pv" "alloc_fraction dv pv > py (70 / 100) + tolerance"
  shows "rv pv > 0" and "rv dv > 0"
proof -
  have t: "fin (py (70 / 100) + tolerance)" "rv (py (70 / 100) + tolerance) = 75 / 100"
    by (simp_all add: tolerance_def)
  from assms(3) have gt: "rv (alloc_fraction dv pv) > 75 / 100"
    using less_fin [OF t(1) alloc_fraction_fin(1) [OF assms(1,2)]] t(2) by simp
  then show pos: "rv pv > 0"
    by (simp add: alloc_fraction_fin(2) [OF assms(1,2)] split: if_splits)
  with gt have "rv dv / rv pv > 75 / 100" by (simp add: alloc_fraction_fin(2) [OF assms(1,2)])
  then have "rv dv / rv pv > 0" by linarith
  with pos show "rv dv > 0" by (simp add: zero_less_divide_iff)
qed

lemma record_event_cash:
  "cash (fst (record_event md d st dir mc tgt cur tdv pv)) = cash st"
  by (simp add: record_event_def Let_def split: sum.splits)


lemma rebalance_unfold:
  "rebalance md d st (pv, dv, gv) =
     (let st1 = st\<lparr>market_conditions := market_conditions st @ [sideways],
                   dynamic_targets := dynamic_targets st @ [py (70 / 100)]\<rparr>
      in if alloc_fraction dv pv > py (70 / 100) + tolerance then
           sell_dividend_branch md d st1 sideways (py (70 / 100)) (alloc_fraction dv pv)
             (pv, dv, gv)
         else if alloc_fraction dv pv < py (70 / 100) - tolerance then
           buy_dividend_branch md d st1 sideways (py (70 / 100)) (alloc_fraction dv pv)
             (pv, dv, gv)
         else (st1, Inr (pv, dv, gv)))"
  by (simp add: rebalance_def Let_def detect_market_condition_sideways)

lemma sell_dividend_branch_trade:
  assumes pr: "priced md d (positions st)" and fp: "finite_positions (positions st)"
    and fc: "fin (cash st)"
    and val: "valuation md d (positions st) (cash st) = Inr (pv, dv, gv)"
    and tgt: "fin tgt"
    and src: "rv dv > 0" and dst: "rv gv > 0 \<or> covered (growth_data md) (positions st)"
  shows "\<exists>ps1 c1 ps2 c2.
           for_positions (sell_body (dividend_data md) d (dv - pv * tgt) dv)
               (positions st) (cash st) = ((ps1, c1), None)
           \<and> fin c1 \<and> rv c1 = rv (cash st) + (rv dv - rv pv * rv tgt)
           \<and> for_positions (buy_body (growth_data md) d (dv - pv * tgt) gv) ps1 c1
               = ((ps2, c2), None)
           \<and> fin c2 \<and> rv c2 = rv (cash st)
           \<and> finite_positions ps2 \<and> map fst ps2 = map fst (positions st)
           \<and> sell_dividend_branch md d st mc tgt cur (pv, dv, gv)
               = record_event md d
                   (st\<lparr>excess_dividend_value := Some (dv - pv * tgt),
                       positions := ps2, cash := c2\<rparr>)
                   sell_dividend mc tgt cur (pv * tgt) pv
           \<and> (\<exists>pv' dv' gv'. valuation md d ps2 c2 = Inr (pv', dv', gv')
                 \<and> fin pv' \<and> fin dv' \<and> fin gv'
                 \<and> rv pv' = rv pv \<and> rv dv' = rv pv * rv tgt
                 \<and> rv gv' = rv gv + (rv dv - rv pv * rv tgt))"
proof -
  let ?e = "dv - pv * tgt"
  let ?ps = "positions st"
  from valuation_priced [OF pr fp fc] val
  have f: "fin pv" "fin dv" "fin gv"
    and pv: "rv pv = rv (cash st) + rv dv + rv gv"
    and dv: "rv dv = sleeve_value (dividend_data md) d (holdings ?ps)"
    and gv: "rv gv = sleeve_value (growth_data md) d (holdings ?ps)" by auto
  have e: "fin ?e" "rv ?e = rv dv - rv pv * rv tgt" using f tgt by simp_all
  from trade_legs [OF priced_available(1) [OF pr] priced_available(2) [OF pr]
      priced_disjoint_all(1) [OF pr] fp fc e(1) f(2,3) dv gv dst]
  obtain ps1 c1 ps2 c2 where
    l1: "for_positions (sell_body (dividend_data md) d ?e dv) ?ps (cash st) = ((ps1, c1), None)"
    and c1: "fin c1" "rv c1 = rv (cash st) + sell_fraction_of (rv ?e) (rv dv) * rv dv"
    and l2: "for_positions (buy_body (growth_data md) d ?e gv) ps1 c1 = ((ps2, c2), None)"
    and c2: "fin c2" "rv c2 = rv c1 - rv ?e"
    and fp2: "finite_positions ps2" and sym2: "map fst ps2 = map fst ?ps"
    and s_src: "sleeve_value (dividend_data md) d (holdings ps2)
               = (1 - sell_fraction_of (rv ?e) (rv dv)) * rv dv"
    and s_dst: "sleeve_value (growth_data md) d (holdings ps2) = rv gv + rv ?e"
    by blast
  from src have sf: "sell_fraction_of (rv ?e) (rv dv) * rv dv = rv ?e"
    by (simp add: sell_fraction_of_def)
  have c1': "rv c1 = rv (cash st) + (rv dv - rv pv * rv tgt)" using c1(2) sf e(2) by simp
  have c2': "rv c2 = rv (cash st)" using c2(2) c1' e(2) by simp
  have br: "sell_dividend_branch md d st mc tgt cur (pv, dv, gv)
      = record_event md d (st\<lparr>excess_dividend_value := Some ?e, positions := ps2, cash := c2\<rparr>)
          sell_dividend mc tgt cur (pv * tgt) pv"
    by (simp add: sell_dividend_branch_def Let_def l1 l2)
  have pr2: "priced md d ps2" using pr by (simp add: priced_symbols [OF sym2])
  have keep: "(1 - sell_fraction_of (rv ?e) (rv dv)) * rv dv = rv dv - rv ?e"
    using sf by (simp add: algebra_simps)
  from valuation_priced [OF pr2 fp2 c2(1)] obtain pv' dv' gv' where
    v2: "valuation md d ps2 c2 = Inr (pv', dv', gv')" and f2: "fin pv'" "fin dv'" "fin gv'"
    and r2: "rv pv' = rv c2 + sleeve_value (dividend_data md) d (holdings ps2)
                    + sleeve_value (growth_data md) d (holdings ps2)"
      "rv dv' = sleeve_value (dividend_data md) d (holdings ps2)"
      "rv gv' = sleeve_value (growth_data md) d (holdings ps2)"
    by blast
  have "rv pv' = rv pv" "rv dv' = rv pv * rv tgt" "rv gv' = rv gv + (rv dv - rv pv * rv tgt)"
    using r2 s_src s_dst keep c2' pv e(2) by simp_all
  with v2 f2 have "\<exists>pv' dv' gv'. valuation md d ps2 c2 = Inr (pv', dv', gv')
                 \<and> fin pv' \<and> fin dv' \<and> fin gv'
                 \<and> rv pv' = rv pv \<and> rv dv' = rv pv * rv tgt
                 \<and> rv gv' = rv gv + (rv dv - rv pv * rv tgt)" by blast
  with l1 c1(1) c1' l2 c2(1) c2' fp2 sym2 br show ?thesis by blast
qed

lemma buy_dividend_branch_trade:
  assumes pr: "priced md d (positions st)" and fp: "finite_positions (positions st)"
    and fc: "fin (cash st)"
    and val: "valuation md d (positions st) (cash st) = Inr (pv, dv, gv)"
    and tgt: "fin tgt"
    and src: "rv gv > 0" and dst: "rv dv > 0 \<or> covered (dividend_data md) (positions st)"
  shows "\<exists>ps1 c1 ps2 c2.
           for_positions (sell_body (growth_data md) d (pv * tgt - dv) gv)
               (positions st) (cash st) = ((ps1, c1), None)
           \<and> fin c1 \<and> rv c1 = rv (cash st) + (rv pv * rv tgt - rv dv)
           \<and> for_positions (buy_body (dividend_data md) d (pv * tgt - dv) dv) ps1 c1
               = ((ps2, c2), None)
           \<and> fin c2 \<and> rv c2 = rv (cash st)
           \<and> finite_positions ps2 \<and> map fst ps2 = map fst (positions st)
           \<and> buy_dividend_branch md d st mc tgt cur (pv, dv, gv)
               = record_event md d
                   (st\<lparr>deficit_dividend_value := Some (pv * tgt - dv),
                       positions := ps2, cash := c2\<rparr>)
                   buy_dividend mc tgt cur (pv * tgt) pv
           \<and> (\<exists>pv' dv' gv'. valuation md d ps2 c2 = Inr (pv', dv', gv')
                 \<and> fin pv' \<and> fin dv' \<and> fin gv'
                 \<and> rv pv' = rv pv \<and> rv dv' = rv pv * rv tgt
                 \<and> rv gv' = rv gv - (rv pv * rv tgt - rv dv))"
proof -
  let ?e = "pv * tgt - dv"
  let ?ps = "positions st"
  from valuation_priced [OF pr fp fc] val
  have f: "fin pv" "fin dv" "fin gv"
    and pv: "rv pv = rv (cash st) + rv dv + rv gv"
    and dv: "rv dv = sleeve_value (dividend_data md) d (holdings ?ps)"
    and gv: "rv gv = sleeve_value (growth_data md) d (holdings ?ps)" by auto
  have e: "fin ?e" "rv ?e = rv pv * rv tgt - rv dv" using f tgt by simp_all
  from trade_legs [OF priced_available(2) [OF pr] priced_available(1) [OF pr]
      priced_disjoint_all(2) [OF pr] fp fc e(1) f(3,2) gv dv dst]
  obtain ps1 c1 ps2 c2 where
    l1: "for_positions (sell_body (growth_data md) d ?e gv) ?ps (cash st) = ((ps1, c1), None)"
    and c1: "fin c1" "rv c1 = rv (cash st) + sell_fraction_of (rv ?e) (rv gv) * rv gv"
    and l2: "for_positions (buy_body (dividend_data md) d ?e dv) ps1 c1 = ((ps2, c2), None)"
    and c2: "fin c2" "rv c2 = rv c1 - rv ?e"
    and fp2: "finite_positions ps2" and sym2: "map fst ps2 = map fst ?ps"
    and s_src: "sleeve_value (growth_data md) d (holdings ps2)
               = (1 - sell_fraction_of (rv ?e) (rv gv)) * rv gv"
    and s_dst: "sleeve_value (dividend_data md) d (holdings ps2) = rv dv + rv ?e"
    by blast
  from src have sf: "sell_fraction_of (rv ?e) (rv gv) * rv gv = rv ?e"
    by (simp add: sell_fraction_of_def)
  have c1': "rv c1 = rv (cash st) + (rv pv * rv tgt - rv dv)" using c1(2) sf e(2) by simp
  have c2': "rv c2 = rv (cash st)" using c2(2) c1' e(2) by simp
  have br: "buy_dividend_branch md d st mc tgt cur (pv, dv, gv)
      = record_event md d (st\<lparr>deficit_dividend_value := Some ?e, positions := ps2, cash := c2\<rparr>)
          buy_dividend mc tgt cur (pv * tgt) pv"
    by (simp add: buy_dividend_branch_def Let_def l1 l2)
  have pr2: "priced md d ps2" using pr by (simp add: priced_symbols [OF sym2])
  have keep: "(1 - sell_fraction_of (rv ?e) (rv gv)) * rv gv = rv gv - rv ?e"
    using sf by (simp add: algebra_simps)
  from valuation_priced [OF pr2 fp2 c2(1)] obtain pv' dv' gv' where
    v2: "valuation md d ps2 c2 = Inr (pv', dv', gv')" and f2: "fin pv'" "fin dv'" "fin gv'"
    and r2: "rv pv' = rv c2 + sleeve_value (dividend_data md) d (holdings ps2)
                    + sleeve_value (growth_data md) d (holdings ps2)"
      "rv dv' = sleeve_value (dividend_data md) d (holdings ps2)"
      "rv gv' = sleeve_value (growth_data md) d (holdings ps2)"
    by blast
  have "rv pv' = rv pv" "rv dv' = rv pv * rv tgt" "rv gv' = rv gv - (rv pv * rv tgt - rv dv)"
    using r2 s_src s_dst keep c2' pv e(2) by simp_all
  with v2 f2 have "\<exists>pv' dv' gv'. valuation md d ps2 c2 = Inr (pv', dv', gv')
                 \<and> fin pv' \<and> fin dv' \<and> fin gv'
                 \<and> rv pv' = rv pv \<and> rv dv' = rv pv * rv tgt
                 \<and> rv gv' = rv gv - (rv pv * rv tgt - rv dv)" by blast
  with l1 c1(1) c1' l2 c2(1) c2' fp2 sym2 br show ?thesis by blast
qed

text \<open>
  Claim C4, as the code has it. Let the positions of a date be priced (every held symbol
  belongs to at most one sleeve dictionary and has a finite non-zero close there), with
  finite share counts and a finite cash balance, and let (portfolio value, dividend value,
  growth value) be their valuation. If the sell-dividend branch runs and the growth sleeve
  either has positive value or holds a position for every symbol of its dictionary (at
  least one), or the buy-dividend branch runs, the growth sleeve has positive value and
  the dividend sleeve either has positive value or holds a position for every symbol of
  its dictionary (at least one), then the sale loop adds exactly the moved amount to cash,
  the purchase loop removes exactly the same amount, also through the equal-weight fallback
  of a destination sleeve worth zero, and the cash balance after the rebalancing step has
  the value it had before it.
\<close>

theorem rebalance_restores_cash:
  assumes pr: "priced md d (positions st)"
    and fp: "finite_positions (positions st)" and fc: "fin (cash st)"
    and val: "valuation md d (positions st) (cash st) = Inr (pv, dv, gv)"
    and det: "detect_market_condition d (spy_data md) market_lookback_days market_threshold
                = (mc, tgt)"
    and sell_dst: "alloc_fraction dv pv > tgt + tolerance \<longrightarrow>
                     gv > py 0 \<or> covered (growth_data md) (positions st)"
    and buy_src: "alloc_fraction dv pv < tgt - tolerance \<longrightarrow>
                     gv > py 0 \<and> (dv > py 0 \<or> covered (dividend_data md) (positions st))"
  shows "fin (cash (fst (rebalance md d st (pv, dv, gv))))
    \<and> rv (cash (fst (rebalance md d st (pv, dv, gv)))) = rv (cash st)
    \<and> (alloc_fraction dv pv > tgt + tolerance \<longrightarrow>
         (\<exists>ps1 c1 ps2 c2.
            for_positions (sell_body (dividend_data md) d (dv - pv * tgt) dv)
                (positions st) (cash st)
              = ((ps1, c1), None)
            \<and> fin c1 \<and> rv c1 = rv (cash st) + (rv dv - rv pv * rv tgt)
            \<and> for_positions (buy_body (growth_data md) d (dv - pv * tgt) gv) ps1 c1
              = ((ps2, c2), None)
            \<and> fin c2 \<and> rv c2 = rv (cash st)))
    \<and> (\<not> alloc_fraction dv pv > tgt + tolerance \<and> alloc_fraction dv pv < tgt - tolerance \<longrightarrow>
         (\<exists>ps1 c1 ps2 c2.
            for_positions (sell_body (growth_data md) d (pv * tgt - dv) gv)
                (positions st) (cash st)
              = ((ps1, c1), None)
            \<and> fin c1 \<and> rv c1 = rv (cash st) + (rv pv * rv tgt - rv dv)
            \<and> for_positions (buy_body (dividend_data md) d (pv * tgt - dv) dv) ps1 c1
              = ((ps2, c2), None)
            \<and> fin c2 \<and> rv c2 = rv (cash st)))"
proof -
  let ?st1 = "st\<lparr>market_conditions := market_conditions st @ [sideways],
                   dynamic_targets := dynamic_targets st @ [py (70 / 100)]\<rparr>"
  let ?cur = "alloc_fraction dv pv"
  let ?r = "rebalance md d st (pv, dv, gv)"
  from target_sideways [OF det] have mc: "mc = sideways" and tgt: "tgt = py (70 / 100)" .
  have ft: "fin tgt" by (simp add: tgt)
  from valuation_priced [OF pr fp fc] val
  have f: "fin pv" "fin dv" "fin gv" by auto
  have pr1: "priced md d (positions ?st1)" using pr by simp
  have fp1: "finite_positions (positions ?st1)" using fp by simp
  have fc1: "fin (cash ?st1)" using fc by simp
  have val1: "valuation md d (positions ?st1) (cash ?st1) = Inr (pv, dv, gv)" using val by simp
  have sell: "fin (cash (fst ?r)) \<and> rv (cash (fst ?r)) = rv (cash st)
      \<and> (\<exists>ps1 c1 ps2 c2.
            for_positions (sell_body (dividend_data md) d (dv - pv * tgt) dv)
                (positions st) (cash st)
              = ((ps1, c1), None)
            \<and> fin c1 \<and> rv c1 = rv (cash st) + (rv dv - rv pv * rv tgt)
            \<and> for_positions (buy_body (growth_data md) d (dv - pv * tgt) gv) ps1 c1
              = ((ps2, c2), None)
            \<and> fin c2 \<and> rv c2 = rv (cash st))"
    if above: "?cur > tgt + tolerance"
  proof -
    from above_band_positive [OF f(2,1)] above tgt have src: "rv dv > 0" by simp
    from sell_dst above have dst: "rv gv > 0 \<or> covered (growth_data md) (positions ?st1)"
      using less_fin [of "py 0" gv] f(3) by simp
    from sell_dividend_branch_trade [OF pr1 fp1 fc1 val1 ft src dst, of sideways ?cur]
    obtain ps1 c1 ps2 c2 where
      l1: "for_positions (sell_body (dividend_data md) d (dv - pv * tgt) dv)
               (positions ?st1) (cash ?st1) = ((ps1, c1), None)"
      and c1: "fin c1" "rv c1 = rv (cash ?st1) + (rv dv - rv pv * rv tgt)"
      and l2: "for_positions (buy_body (growth_data md) d (dv - pv * tgt) gv) ps1 c1
               = ((ps2, c2), None)"
      and c2: "fin c2" "rv c2 = rv (cash ?st1)"
      and br: "sell_dividend_branch md d ?st1 sideways tgt ?cur (pv, dv, gv)
               = record_event md d
                   (?st1\<lparr>excess_dividend_value := Some (dv - pv * tgt),
                       positions := ps2, cash := c2\<rparr>)
                   sell_dividend sideways tgt ?cur (pv * tgt) pv"
      by blast
    from above br have "cash (fst ?r) = c2"
      by (simp add: rebalance_unfold Let_def tgt record_event_cash)
    with c2 l1 c1 l2 show ?thesis by auto
  qed
  have buy: "fin (cash (fst ?r)) \<and> rv (cash (fst ?r)) = rv (cash st)
      \<and> (\<exists>ps1 c1 ps2 c2.
            for_positions (sell_body (growth_data md) d (pv * tgt - dv) gv)
                (positions st) (cash st)
              = ((ps1, c1), None)
            \<and> fin c1 \<and> rv c1 = rv (cash st) + (rv pv * rv tgt - rv dv)
            \<and> for_positions (buy_body (dividend_data md) d (pv * tgt - dv) dv) ps1 c1
              = ((ps2, c2), None)
            \<and> fin c2 \<and> rv c2 = rv (cash st))"
    if notabove: "\<not> ?cur > tgt + tolerance" and below: "?cur < tgt - tolerance"
  proof -
    from buy_src below have src: "rv gv > 0"
      and dst: "rv dv > 0 \<or> covered (dividend_data md) (positions ?st1)"
      using less_fin [of "py 0" gv] less_fin [of "py 0" dv] f(2,3) by auto
    from buy_dividend_branch_trade [OF pr1 fp1 fc1 val1 ft src dst, of sideways ?cur]
    obtain ps1 c1 ps2 c2 where
      l1: "for_positions (sell_body (growth_data md) d (pv * tgt - dv) gv)
               (positions ?st1) (cash ?st1) = ((ps1, c1), None)"
      and c1: "fin c1" "rv c1 = rv (cash ?st1) + (rv pv * rv tgt - rv dv)"
      and l2: "for_positions (buy_body (dividend_data md) d (pv * tgt - dv) dv) ps1 c1
               = ((ps2, c2), None)"
      and c2: "fin c2" "rv c2 = rv (cash ?st1)"
      and br: "buy_dividend_branch md d ?st1 sideways tgt ?cur (pv, dv, gv)
               = record_event md d
                   (?st1\<lparr>deficit_dividend_value := Some (pv * tgt - dv),
                       positions := ps2, cash := c2\<rparr>)
                   buy_dividend sideways tgt ?cur (pv * tgt) pv"
      by blast
    from notabove below br have "cash (fst ?r) = c2"
      by (simp add: rebalance_unfold Let_def tgt record_event_cash)
    with c2 l1 c1 l2 show ?thesis by auto
  qed
  have none: "fin (cash (fst ?r)) \<and> rv (cash (fst ?r)) = rv (cash st)"
    if "\<not> ?cur > tgt + tolerance" and "\<not> ?cur < tgt - tolerance"
    using that fc by (simp add: rebalance_unfold Let_def tgt)
  from sell buy none show ?thesis by blast
qed

lemmas eval_simps =
  process_date_def rebalance_def sell_dividend_branch_def buy_dividend_branch_def
  record_event_def make_event_def record_values_def valuation_def
  reinvest_body_def sell_body_def buy_body_def
  loc_close_def iloc_close_def alloc_fraction_def
  detect_market_condition_sideways
  tolerance_def initial_capital_def
  initial_state_def Let_def number_simps

theorem rebalance_spends_cash_counterexample:
  "valuation
     \<lparr>spy_data = [(0, Fin 400), (1, Fin 400)],
      dividend_data = [(''D'', [(0, Fin 10), (1, Fin 5)])],
      dividend_dividends = [], growth_data = []\<rparr> 1
     [(''D'', \<lparr>shares = py 7000, category = dividend_aristocrat\<rparr>)] (py 30000)
     = Inr (py 65000, py 35000, py 0)
   \<and> rebalance
       \<lparr>spy_data = [(0, Fin 400), (1, Fin 400)],
        dividend_data = [(''D'', [(0, Fin 10), (1, Fin 5)])],
        dividend_dividends = [], growth_data = []\<rparr> 1
       (initial_state [(''D'', \<lparr>shares = py 7000, category = dividend_aristocrat\<rparr>)] (py 30000))
       (py 65000, py 35000, py 0)
     = ((initial_state [(''D'', \<lparr>shares = py 9100, category = dividend_aristocrat\<rparr>)] (py 19500))
          \<lparr>deficit_dividend_value := Some (py 10500),
            market_conditions := [sideways], dynamic_targets := [py (70 / 100)],
            rebalancing_events :=
              [\<lparr>event_date = 1, event_type = (buy_dividend, sideways),
                event_market_condition = sideways, target_alloc = py (70 / 100),
                excess_moved = py 10500, dividend_alloc_before = py (35000 / 65000),
                dividend_alloc_after = py (70 / 100)\<rparr>]\<rparr>,
        Inr (py 65000, py 45500, py 0))
   \<and> rv (cash (fst (rebalance
       \<lparr>spy_data = [(0, Fin 400), (1, Fin 400)],
        dividend_data = [(''D'', [(0, Fin 10), (1, Fin 5)])],
        dividend_dividends = [], growth_data = []\<rparr> 1
       (initial_state [(''D'', \<lparr>shares = py 7000, category = dividend_aristocrat\<rparr>)] (py 30000))
       (py 65000, py 35000, py 0))))
     \<noteq> rv (cash (initial_state
                  [(''D'', \<lparr>shares = py 7000, category = dividend_aristocrat\<rparr>)] (py 30000)))"
  by (simp add: eval_simps)

theorem rebalance_restores_cash_witness:
  "priced
     \<lparr>spy_data = [(0, Fin 400)], dividend_data = [(''D'', [(0, Fin 10)])],
      dividend_dividends = [], growth_data = [(''G'', [(0, Fin 20)])]\<rparr> 0
     [(''D'', \<lparr>shares = py 100, category = dividend_aristocrat\<rparr>),
      (''G'', \<lparr>shares = py 0, category = high_growth\<rparr>)]
   \<and> covered [(''G'', [(0, Fin 20)])]
     [(''D'', \<lparr>shares = py 100, category = dividend_aristocrat\<rparr>),
      (''G'', \<lparr>shares = py 0, category = high_growth\<rparr>)]
   \<and> alloc_fraction (py 1000) (py 1000) > py (70 / 100) + tolerance
   \<and> rv (cash (fst (rebalance
       \<lparr>spy_data = [(0, Fin 400)], dividend_data = [(''D'', [(0, Fin 10)])],
        dividend_dividends = [], growth_data = [(''G'', [(0, Fin 20)])]\<rparr> 0
       (initial_state
          [(''D'', \<lparr>shares = py 100, category = dividend_aristocrat\<rparr>),
           (''G'', \<lparr>shares = py 0, category = high_growth\<rparr>)] (py 0))
       (py 1000, py 1000, py 0)))) = 0
   \<and> positions (fst (rebalance
       \<lparr>spy_data = [(0, Fin 400)], dividend_data = [(''D'', [(0, Fin 10)])],
        dividend_dividends = [], growth_data = [(''G'', [(0, Fin 20)])]\<rparr> 0
       (initial_state
          [(''D'', \<lparr>shares = py 100, category = dividend_aristocrat\<rparr>),
           (''G'', \<lparr>shares = py 0, category = high_growth\<rparr>)] (py 0))
       (py 1000, py 1000, py 0)))
     = [(''D'', \<lparr>shares = py 70, category = dividend_aristocrat\<rparr>),
        (''G'', \<lparr>shares = py 15, category = high_growth\<rparr>)]"
proof -
  let ?md = "\<lparr>spy_data = [(0, Fin 400)], dividend_data = [(''D'', [(0, Fin 10)])],
      dividend_dividends = [], growth_data = [(''G'', [(0, Fin 20)])]\<rparr>"
  let ?ps = "[(''D'', \<lparr>shares = py 100, category = dividend_aristocrat\<rparr>),
      (''G'', \<lparr>shares = py 0, category = high_growth\<rparr>)]"
  let ?st = "initial_state ?ps (py 0)"
  have pr: "priced ?md 0 (positions ?st)"
    by (simp add: priced_def priced_symbol_def initial_state_def)
  have fp: "finite_positions (positions ?st)" by (simp add: initial_state_def)
  have fc: "fin (cash ?st)" by (simp add: initial_state_def)
  have val: "valuation ?md 0 (positions ?st) (cash ?st) = Inr (py 1000, py 1000, py 0)"
    by (simp add: eval_simps)
  have det: "detect_market_condition 0 (spy_data ?md) market_lookback_days market_threshold
                = (sideways, py (70 / 100))"
    by (rule detect_market_condition_sideways)
  have cov: "covered (growth_data ?md) (positions ?st)"
    by (simp add: covered_def initial_state_def)
  have above: "alloc_fraction (py 1000) (py 1000) > py (70 / 100) + tolerance"
    by (simp add: alloc_fraction_def tolerance_def number_simps)
  have h1: "alloc_fraction (py 1000) (py 1000) > py (70 / 100) + tolerance \<longrightarrow>
              py 0 > py 0 \<or> covered (growth_data ?md) (positions ?st)"
    using cov by simp
  have h2: "alloc_fraction (py 1000) (py 1000) < py (70 / 100) - tolerance \<longrightarrow>
              py 0 > py 0 \<and> (py 1000 > py 0 \<or> covered (dividend_data ?md) (positions ?st))"
    by (simp add: alloc_fraction_def tolerance_def number_simps)
  from rebalance_restores_cash [OF pr fp fc val det h1 h2]
  have "rv (cash (fst (rebalance ?md 0 ?st (py 1000, py 1000, py 0)))) = rv (cash ?st)"
    by blast
  then have c: "rv (cash (fst (rebalance ?md 0 ?st (py 1000, py 1000, py 0)))) = 0"
    by (simp add: initial_state_def)
  have p: "positions (fst (rebalance ?md 0 ?st (py 1000, py 1000, py 0)))
     = [(''D'', \<lparr>shares = py 70, category = dividend_aristocrat\<rparr>),
        (''G'', \<lparr>shares = py 15, category = high_growth\<rparr>)]"
    by (simp add: eval_simps)
  from pr cov above c p show ?thesis by (simp add: initial_state_def)
qed

lemma make_event_Inr:
  assumes "is_numpy tdv \<or> is_numpy pv \<or> val pv \<noteq> Fin 0"
    and "excess_dividend_value st \<noteq> None \<or> deficit_dividend_value st \<noteq> None"
  shows "make_event d st dir mc tgt cur tdv pv
           = Inr \<lparr>event_date = d, event_type = (dir, mc), event_market_condition = mc,
                  target_alloc = tgt,
                  excess_moved = (case excess_dividend_value st of
                                    Some x \<Rightarrow> x
                                  | None \<Rightarrow> (case deficit_dividend_value st of
                                               Some y \<Rightarrow> y | None \<Rightarrow> py 0)),
                  dividend_alloc_before = cur, dividend_alloc_after = ieee_quotient tdv pv\<rparr>"
  using assms
  by (cases "excess_dividend_value st"; cases "deficit_dividend_value st")
    (auto simp: make_event_def truediv_def)

lemma record_event_Inr:
  assumes "is_numpy tdv \<or> is_numpy pv \<or> val pv \<noteq> Fin 0"
    and "excess_dividend_value st \<noteq> None \<or> deficit_dividend_value st \<noteq> None"
  shows "\<exists>ev. record_event md d st dir mc tgt cur tdv pv
           = (st\<lparr>rebalancing_events := rebalancing_events st @ [ev]\<rparr>,
              valuation md d (positions st) (cash st))
         \<and> event_type ev = (dir, mc) \<and> event_date ev = d \<and> target_alloc ev = tgt
         \<and> dividend_alloc_before ev = cur \<and> dividend_alloc_after ev = ieee_quotient tdv pv
         \<and> excess_moved ev = (case excess_dividend_value st of
                                Some x \<Rightarrow> x
                              | None \<Rightarrow> (case deficit_dividend_value st of
                                           Some y \<Rightarrow> y | None \<Rightarrow> py 0))"
proof -
  let ?ev = "\<lparr>event_date = d, event_type = (dir, mc), event_market_condition = mc,
                  target_alloc = tgt,
                  excess_moved = (case excess_dividend_value st of
                                    Some x \<Rightarrow> x
                                  | None \<Rightarrow> (case deficit_dividend_value st of
                                               Some y \<Rightarrow> y | None \<Rightarrow> py 0)),
                  dividend_alloc_before = cur, dividend_alloc_after = ieee_quotient tdv pv\<rparr>"
  have "record_event md d st dir mc tgt cur tdv pv
           = (st\<lparr>rebalancing_events := rebalancing_events st @ [?ev]\<rparr>,
              valuation md d (positions st) (cash st))"
    by (simp add: record_event_def make_event_Inr [OF assms] Let_def)
  then show ?thesis by (intro exI [of _ ?ev]) simp
qed

text \<open>
  Claim C1, as the code has it. The target fraction is the one the classifier returns, which
  is always 0.70, and the tolerance is 0.05. Let the positions of a date be priced (every
  held symbol belongs to at most one sleeve dictionary and has a finite non-zero close
  there), with finite share counts and a finite cash balance, and let (portfolio value,
  dividend value, growth value) be their valuation. If the dividend fraction is above
  target + tolerance, and the growth sleeve has positive value or holds a position for
  every symbol of its dictionary (at least one), the sell-dividend branch moves dividend
  value - portfolio value * target from the dividend sleeve to the growth sleeve and logs
  one sell-dividend event. If the fraction is below target - tolerance, and the portfolio
  and the growth sleeve have positive value and the dividend sleeve has positive value or
  holds a position for every symbol of its dictionary (at least one), the buy-dividend
  branch moves portfolio value * target - dividend value the other way and logs one
  buy-dividend event. After either trade the portfolio value and the cash are what they
  were and the recomputed dividend fraction equals the target. If the fraction is neither
  above target + tolerance nor below target - tolerance, positions, cash and event log are
  unchanged.
\<close>

theorem tolerance_band_rebalance:
  assumes pr: "priced md d (positions st)"
    and fp: "finite_positions (positions st)" and fc: "fin (cash st)"
    and val: "valuation md d (positions st) (cash st) = Inr (pv, dv, gv)"
    and det: "detect_market_condition d (spy_data md) market_lookback_days market_threshold
                = (mc, tgt)"
    and sell_dst: "alloc_fraction dv pv > tgt + tolerance \<longrightarrow>
                     gv > py 0 \<or> covered (growth_data md) (positions st)"
    and buy_ok: "alloc_fraction dv pv < tgt - tolerance \<longrightarrow>
                   pv > py 0 \<and> gv > py 0
                   \<and> (dv > py 0 \<or> covered (dividend_data md) (positions st))"
  shows "let cur = alloc_fraction dv pv; r = rebalance md d st (pv, dv, gv)
         in tgt = py (70 / 100)
          \<and> (cur > tgt + tolerance \<longrightarrow>
               (\<exists>pv' dv' gv' ev. snd r = Inr (pv', dv', gv')
                  \<and> fin pv' \<and> fin dv' \<and> fin gv'
                  \<and> rv pv' = rv pv
                  \<and> rv dv' = rv dv - (rv dv - rv pv * rv tgt)
                  \<and> rv gv' = rv gv + (rv dv - rv pv * rv tgt)
                  \<and> rv (cash (fst r)) = rv (cash st)
                  \<and> valuation md d (positions (fst r)) (cash (fst r)) = snd r
                  \<and> rebalancing_events (fst r) = rebalancing_events st @ [ev]
                  \<and> event_type ev = (sell_dividend, mc)
                  \<and> dividend_alloc_before ev = cur
                  \<and> rv (alloc_fraction dv' pv') = rv tgt))
          \<and> (cur < tgt - tolerance \<longrightarrow>
               (\<exists>pv' dv' gv' ev. snd r = Inr (pv', dv', gv')
                  \<and> fin pv' \<and> fin dv' \<and> fin gv'
                  \<and> rv pv' = rv pv
                  \<and> rv dv' = rv dv + (rv pv * rv tgt - rv dv)
                  \<and> rv gv' = rv gv - (rv pv * rv tgt - rv dv)
                  \<and> rv (cash (fst r)) = rv (cash st)
                  \<and> valuation md d (positions (fst r)) (cash (fst r)) = snd r
                  \<and> rebalancing_events (fst r) = rebalancing_events st @ [ev]
                  \<and> event_type ev = (buy_dividend, mc)
                  \<and> dividend_alloc_before ev = cur
                  \<and> rv (alloc_fraction dv' pv') = rv tgt))
          \<and> (\<not> cur > tgt + tolerance \<and> \<not> cur < tgt - tolerance \<longrightarrow>
               r = (st\<lparr>market_conditions := market_conditions st @ [mc],
                        dynamic_targets := dynamic_targets st @ [tgt]\<rparr>,
                    Inr (pv, dv, gv)))"
proof -
  let ?st1 = "st\<lparr>market_conditions := market_conditions st @ [sideways],
                   dynamic_targets := dynamic_targets st @ [py (70 / 100)]\<rparr>"
  let ?cur = "alloc_fraction dv pv"
  let ?r = "rebalance md d st (pv, dv, gv)"
  from target_sideways [OF det] have mc: "mc = sideways" and tgt: "tgt = py (70 / 100)" .
  have ft: "fin tgt" and rt: "rv tgt = 70 / 100" by (simp_all add: tgt)
  from valuation_priced [OF pr fp fc] val
  have f: "fin pv" "fin dv" "fin gv" by auto
  have pr1: "priced md d (positions ?st1)" using pr by simp
  have fp1: "finite_positions (positions ?st1)" using fp by simp
  have fc1: "fin (cash ?st1)" using fc by simp
  have val1: "valuation md d (positions ?st1) (cash ?st1) = Inr (pv, dv, gv)" using val by simp
  have frac: "rv (alloc_fraction dv' pv') = rv tgt"
    if "fin pv'" "fin dv'" "rv pv' = rv pv" "rv dv' = rv pv * rv tgt" "rv pv > 0"
    for pv' dv'
    using that by (simp add: alloc_fraction_fin)
  have sell: "\<exists>pv' dv' gv' ev. snd ?r = Inr (pv', dv', gv')
                  \<and> fin pv' \<and> fin dv' \<and> fin gv'
                  \<and> rv pv' = rv pv
                  \<and> rv dv' = rv dv - (rv dv - rv pv * rv tgt)
                  \<and> rv gv' = rv gv + (rv dv - rv pv * rv tgt)
                  \<and> rv (cash (fst ?r)) = rv (cash st)
                  \<and> valuation md d (positions (fst ?r)) (cash (fst ?r)) = snd ?r
                  \<and> rebalancing_events (fst ?r) = rebalancing_events st @ [ev]
                  \<and> event_type ev = (sell_dividend, mc)
                  \<and> dividend_alloc_before ev = ?cur
                  \<and> rv (alloc_fraction dv' pv') = rv tgt"
    if above: "?cur > tgt + tolerance"
  proof -
    from above_band_positive [OF f(2,1)] above tgt have pos: "rv pv > 0" and src: "rv dv > 0"
      by simp_all
    from sell_dst above have dst: "rv gv > 0 \<or> covered (growth_data md) (positions ?st1)"
      using less_fin [of "py 0" gv] f(3) by simp
    from sell_dividend_branch_trade [OF pr1 fp1 fc1 val1 ft src dst, of sideways ?cur]
    obtain ps2 c2 pv' dv' gv' where
      c2: "fin c2" "rv c2 = rv (cash ?st1)"
      and br: "sell_dividend_branch md d ?st1 sideways tgt ?cur (pv, dv, gv)
               = record_event md d
                   (?st1\<lparr>excess_dividend_value := Some (dv - pv * tgt),
                       positions := ps2, cash := c2\<rparr>)
                   sell_dividend sideways tgt ?cur (pv * tgt) pv"
      and v2: "valuation md d ps2 c2 = Inr (pv', dv', gv')"
      and f2: "fin pv'" "fin dv'" "fin gv'"
      and r2: "rv pv' = rv pv" "rv dv' = rv pv * rv tgt"
        "rv gv' = rv gv + (rv dv - rv pv * rv tgt)"
      by blast
    let ?st2 = "?st1\<lparr>excess_dividend_value := Some (dv - pv * tgt),
                       positions := ps2, cash := c2\<rparr>"
    from pos f(1) have nz: "is_numpy (pv * tgt) \<or> is_numpy pv \<or> val pv \<noteq> Fin 0"
      by (auto simp: fin_cases)
    from record_event_Inr [OF nz, where st = ?st2 and md = md and d = d and dir = sell_dividend
        and mc = sideways and tgt = tgt and cur = ?cur]
    obtain ev where ev: "record_event md d ?st2 sell_dividend sideways tgt ?cur (pv * tgt) pv
           = (?st2\<lparr>rebalancing_events := rebalancing_events ?st2 @ [ev]\<rparr>,
              valuation md d (positions ?st2) (cash ?st2))"
      and ty: "event_type ev = (sell_dividend, sideways)"
      and be: "dividend_alloc_before ev = ?cur"
      by auto
    from above br ev
    have r: "?r = (?st2\<lparr>rebalancing_events := rebalancing_events ?st2 @ [ev]\<rparr>,
              Inr (pv', dv', gv'))"
      using v2 by (simp add: rebalance_unfold Let_def tgt)
    have "snd ?r = Inr (pv', dv', gv')" using r by simp
    moreover have "rv dv' = rv dv - (rv dv - rv pv * rv tgt)" using r2(2) by simp
    moreover have "rv (cash (fst ?r)) = rv (cash st)" using r c2(2) by simp
    moreover have "valuation md d (positions (fst ?r)) (cash (fst ?r)) = snd ?r"
      using r v2 by simp
    moreover have "rebalancing_events (fst ?r) = rebalancing_events st @ [ev]" using r by simp
    moreover have "event_type ev = (sell_dividend, mc)" using ty mc by simp
    moreover have "rv (alloc_fraction dv' pv') = rv tgt"
      using frac [OF f2(1,2) r2(1,2) pos] .
    ultimately show ?thesis using f2 r2(1,3) be by blast
  qed
  have buy: "\<exists>pv' dv' gv' ev. snd ?r = Inr (pv', dv', gv')
                  \<and> fin pv' \<and> fin dv' \<and> fin gv'
                  \<and> rv pv' = rv pv
                  \<and> rv dv' = rv dv + (rv pv * rv tgt - rv dv)
                  \<and> rv gv' = rv gv - (rv pv * rv tgt - rv dv)
                  \<and> rv (cash (fst ?r)) = rv (cash st)
                  \<and> valuation md d (positions (fst ?r)) (cash (fst ?r)) = snd ?r
                  \<and> rebalancing_events (fst ?r) = rebalancing_events st @ [ev]
                  \<and> event_type ev = (buy_dividend, mc)
                  \<and> dividend_alloc_before ev = ?cur
                  \<and> rv (alloc_fraction dv' pv') = rv tgt"
    if below: "?cur < tgt - tolerance"
  proof -
    have lo: "fin (tgt - tolerance)" "rv (tgt - tolerance) = 65 / 100"
      and hi: "fin (tgt + tolerance)" "rv (tgt + tolerance) = 75 / 100"
      by (simp_all add: tgt tolerance_def)
    from below have "rv ?cur < 65 / 100"
      using less_fin [OF alloc_fraction_fin(1) [OF f(2,1)] lo(1)] lo(2) by simp
    then have notabove: "\<not> ?cur > tgt + tolerance"
      using less_fin [OF hi(1) alloc_fraction_fin(1) [OF f(2,1)]] hi(2) by simp
    from buy_ok below have pos: "rv pv > 0" and src: "rv gv > 0"
      and dst: "rv dv > 0 \<or> covered (dividend_data md) (positions ?st1)"
      using less_fin [of "py 0" gv] less_fin [of "py 0" dv] less_fin [of "py 0" pv] f by auto
    from buy_dividend_branch_trade [OF pr1 fp1 fc1 val1 ft src dst, of sideways ?cur]
    obtain ps2 c2 pv' dv' gv' where
      c2: "fin c2" "rv c2 = rv (cash ?st1)"
      and br: "buy_dividend_branch md d ?st1 sideways tgt ?cur (pv, dv, gv)
               = record_event md d
                   (?st1\<lparr>deficit_dividend_value := Some (pv * tgt - dv),
                       positions := ps2, cash := c2\<rparr>)
                   buy_dividend sideways tgt ?cur (pv * tgt) pv"
      and v2: "valuation md d ps2 c2 = Inr (pv', dv', gv')"
      and f2: "fin pv'" "fin dv'" "fin gv'"
      and r2: "rv pv' = rv pv" "rv dv' = rv pv * rv tgt"
        "rv gv' = rv gv - (rv pv * rv tgt - rv dv)"
      by blast
    let ?st2 = "?st1\<lparr>deficit_dividend_value := Some (pv * tgt - dv),
                       positions := ps2, cash := c2\<rparr>"
    from pos f(1) have nz: "is_numpy (pv * tgt) \<or> is_numpy pv \<or> val pv \<noteq> Fin 0"
      by (auto simp: fin_cases)
    from record_event_Inr [OF nz, where st = ?st2 and md = md and d = d and dir = buy_dividend
        and mc = sideways and tgt = tgt and cur = ?cur]
    obtain ev where ev: "record_event md d ?st2 buy_dividend sideways tgt ?cur (pv * tgt) pv
           = (?st2\<lparr>rebalancing_events := rebalancing_events ?st2 @ [ev]\<rparr>,
              valuation md d (positions ?st2) (cash ?st2))"
      and ty: "event_type ev = (buy_dividend, sideways)"
      and be: "dividend_alloc_before ev = ?cur"
      by auto
    from notabove below br ev
    have r: "?r = (?st2\<lparr>rebalancing_events := rebalancing_events ?st2 @ [ev]\<rparr>,
              Inr (pv', dv', gv'))"
      using v2 by (simp add: rebalance_unfold Let_def tgt)
    have "snd ?r = Inr (pv', dv', gv')" using r by simp
    moreover have "rv dv' = rv dv + (rv pv * rv tgt - rv dv)" using r2(2) by simp
    moreover have "rv (cash (fst ?r)) = rv (cash st)" using r c2(2) by simp
    moreover have "valuation md d (positions (fst ?r)) (cash (fst ?r)) = snd ?r"
      using r v2 by simp
    moreover have "rebalancing_events (fst ?r) = rebalancing_events st @ [ev]" using r by simp
    moreover have "event_type ev = (buy_dividend, mc)" using ty mc by simp
    moreover have "rv (alloc_fraction dv' pv') = rv tgt"
      using frac [OF f2(1,2) r2(1,2) pos] .
    ultimately show ?thesis using f2 r2(1,3) be by blast
  qed
  have none: "?r = (st\<lparr>market_conditions := market_conditions st @ [mc],
                        dynamic_targets := dynamic_targets st @ [tgt]\<rparr>, Inr (pv, dv, gv))"
    if "\<not> ?cur > tgt + tolerance \<and> \<not> ?cur < tgt - tolerance"
    using that by (simp add: rebalance_unfold Let_def tgt mc)
  from tgt sell buy none show ?thesis unfolding Let_def by blast
qed

theorem excess_left_in_cash_counterexample:
  "initial_allocation
     \<lparr>spy_data = [(0, Fin 400), (1, Fin 400)],
      dividend_data = [(''D'', [(0, Fin 10), (1, Fin 20)])],
      dividend_dividends = [], growth_data = []\<rparr>
     [(''D'', py 1)]
     = Inr ([(''D'', \<lparr>shares = py 7000, category = dividend_aristocrat\<rparr>)], py 30000)
   \<and> valuation
       \<lparr>spy_data = [(0, Fin 400), (1, Fin 400)],
        dividend_data = [(''D'', [(0, Fin 10), (1, Fin 20)])],
        dividend_dividends = [], growth_data = []\<rparr> 1
       [(''D'', \<lparr>shares = py 7000, category = dividend_aristocrat\<rparr>)] (py 30000)
     = Inr (py 170000, py 140000, py 0)
   \<and> alloc_fraction (py 140000) (py 170000) > py (70 / 100) + tolerance
   \<and> rebalance
       \<lparr>spy_data = [(0, Fin 400), (1, Fin 400)],
        dividend_data = [(''D'', [(0, Fin 10), (1, Fin 20)])],
        dividend_dividends = [], growth_data = []\<rparr> 1
       (initial_state [(''D'', \<lparr>shares = py 7000, category = dividend_aristocrat\<rparr>)] (py 30000))
       (py 170000, py 140000, py 0)
     = ((initial_state [(''D'', \<lparr>shares = py 5950, category = dividend_aristocrat\<rparr>)] (py 51000))
          \<lparr>excess_dividend_value := Some (py 21000),
            market_conditions := [sideways], dynamic_targets := [py (70 / 100)],
            rebalancing_events :=
              [\<lparr>event_date = 1, event_type = (sell_dividend, sideways),
                event_market_condition = sideways, target_alloc = py (70 / 100),
                excess_moved = py 21000, dividend_alloc_before = py (140000 / 170000),
                dividend_alloc_after = py (70 / 100)\<rparr>]\<rparr>,
        Inr (py 170000, py 119000, py 0))"
  by (simp add: eval_simps allocation_simps)

theorem tolerance_band_rebalance_witness:
  "priced
     \<lparr>spy_data = [(0, Fin 400)], dividend_data = [(''D'', [(0, Fin 10)])],
      dividend_dividends = [], growth_data = [(''G'', [(0, Fin 10)])]\<rparr> 0
     [(''D'', \<lparr>shares = py 77, category = dividend_aristocrat\<rparr>),
      (''G'', \<lparr>shares = py 23, category = high_growth\<rparr>)]
   \<and> alloc_fraction (py 770) (py 1000) = py (77 / 100)
   \<and> snd (rebalance
       \<lparr>spy_data = [(0, Fin 400)], dividend_data = [(''D'', [(0, Fin 10)])],
        dividend_dividends = [], growth_data = [(''G'', [(0, Fin 10)])]\<rparr> 0
       (initial_state
          [(''D'', \<lparr>shares = py 77, category = dividend_aristocrat\<rparr>),
           (''G'', \<lparr>shares = py 23, category = high_growth\<rparr>)] (py 0))
       (py 1000, py 770, py 230)) = Inr (py 1000, py 700, py 300)
   \<and> alloc_fraction (py 700) (py 1000) = py (70 / 100)
   \<and> alloc_fraction (py 600) (py 1000) = py (60 / 100)
   \<and> snd (rebalance
       \<lparr>spy_data = [(0, Fin 400)], dividend_data = [(''D'', [(0, Fin 10)])],
        dividend_dividends = [], growth_data = [(''G'', [(0, Fin 10)])]\<rparr> 0
       (initial_state
          [(''D'', \<lparr>shares = py 60, category = dividend_aristocrat\<rparr>),
           (''G'', \<lparr>shares = py 40, category = high_growth\<rparr>)] (py 0))
       (py 1000, py 600, py 400)) = Inr (py 1000, py 700, py 300)"
proof -
  let ?md = "\<lparr>spy_data = [(0, Fin 400)], dividend_data = [(''D'', [(0, Fin 10)])],
      dividend_dividends = [], growth_data = [(''G'', [(0, Fin 10)])]\<rparr>"
  let ?ps = "[(''D'', \<lparr>shares = py 77, category = dividend_aristocrat\<rparr>),
      (''G'', \<lparr>shares = py 23, category = high_growth\<rparr>)]"
  let ?qs = "[(''D'', \<lparr>shares = py 60, category = dividend_aristocrat\<rparr>),
      (''G'', \<lparr>shares = py 40, category = high_growth\<rparr>)]"
  let ?st = "initial_state ?ps (py 0)"
  let ?su = "initial_state ?qs (py 0)"
  have det: "detect_market_condition 0 (spy_data ?md) market_lookback_days market_threshold
                = (sideways, py (70 / 100))"
    by (rule detect_market_condition_sideways)
  have pr: "priced ?md 0 (positions ?st)"
    by (simp add: priced_def priced_symbol_def initial_state_def)
  have fp: "finite_positions (positions ?st)" by (simp add: initial_state_def)
  have fc: "fin (cash ?st)" by (simp add: initial_state_def)
  have val: "valuation ?md 0 (positions ?st) (cash ?st) = Inr (py 1000, py 770, py 230)"
    by (simp add: eval_simps)
  have above: "alloc_fraction (py 770) (py 1000) > py (70 / 100) + tolerance"
    by (simp add: alloc_fraction_def tolerance_def number_simps)
  have s1: "alloc_fraction (py 770) (py 1000) > py (70 / 100) + tolerance \<longrightarrow>
      py 230 > py 0 \<or> covered (growth_data ?md) (positions ?st)"
    by (simp add: number_simps)
  have b1: "alloc_fraction (py 770) (py 1000) < py (70 / 100) - tolerance \<longrightarrow>
      py 1000 > py 0 \<and> py 230 > py 0
      \<and> (py 770 > py 0 \<or> covered (dividend_data ?md) (positions ?st))"
    by (simp add: number_simps)
  from tolerance_band_rebalance [OF pr fp fc val det s1 b1] above
  obtain pv' dv' gv' where
    "snd (rebalance ?md 0 ?st (py 1000, py 770, py 230)) = Inr (pv', dv', gv')"
    "rv pv' = rv (py 1000)" "rv dv' = rv (py 770) - (rv (py 770) - rv (py 1000) * rv (py (70 / 100)))"
    "rv gv' = rv (py 230) + (rv (py 770) - rv (py 1000) * rv (py (70 / 100)))"
    unfolding Let_def by blast
  then have sell_values: "\<exists>pv' dv' gv'.
      snd (rebalance ?md 0 ?st (py 1000, py 770, py 230)) = Inr (pv', dv', gv')
      \<and> rv pv' = 1000 \<and> rv dv' = 700 \<and> rv gv' = 300"
    by simp
  have sell_run: "snd (rebalance ?md 0 ?st (py 1000, py 770, py 230))
      = Inr (py 1000, py 700, py 300)"
    by (simp add: eval_simps)
  have pr': "priced ?md 0 (positions ?su)"
    by (simp add: priced_def priced_symbol_def initial_state_def)
  have fp': "finite_positions (positions ?su)" by (simp add: initial_state_def)
  have fc': "fin (cash ?su)" by (simp add: initial_state_def)
  have val': "valuation ?md 0 (positions ?su) (cash ?su) = Inr (py 1000, py 600, py 400)"
    by (simp add: eval_simps)
  have below: "alloc_fraction (py 600) (py 1000) < py (70 / 100) - tolerance"
    by (simp add: alloc_fraction_def tolerance_def number_simps)
  have s2: "alloc_fraction (py 600) (py 1000) > py (70 / 100) + tolerance \<longrightarrow>
      py 400 > py 0 \<or> covered (growth_data ?md) (positions ?su)"
    by (simp add: number_simps)
  have b2: "alloc_fraction (py 600) (py 1000) < py (70 / 100) - tolerance \<longrightarrow>
      py 1000 > py 0 \<and> py 400 > py 0
      \<and> (py 600 > py 0 \<or> covered (dividend_data ?md) (positions ?su))"
    by (simp add: number_simps)
  from tolerance_band_rebalance [OF pr' fp' fc' val' det s2 b2] below
  obtain pv'' dv'' gv'' where
    "snd (rebalance ?md 0 ?su (py 1000, py 600, py 400)) = Inr (pv'', dv'', gv'')"
    "rv pv'' = rv (py 1000)"
    "rv dv'' = rv (py 600) + (rv (py 1000) * rv (py (70 / 100)) - rv (py 600))"
    "rv gv'' = rv (py 400) - (rv (py 1000) * rv (py (70 / 100)) - rv (py 600))"
    unfolding Let_def by blast
  then have buy_values: "\<exists>pv' dv' gv'.
      snd (rebalance ?md 0 ?su (py 1000, py 600, py 400)) = Inr (pv', dv', gv')
      \<and> rv pv' = 1000 \<and> rv dv' = 700 \<and> rv gv' = 300"
    by simp
  have buy_run: "snd (rebalance ?md 0 ?su (py 1000, py 600, py 400))
      = Inr (py 1000, py 700, py 300)"
    by (simp add: eval_simps)
  have fr: "alloc_fraction (py 770) (py 1000) = py (77 / 100)"
    "alloc_fraction (py 700) (py 1000) = py (70 / 100)"
    "alloc_fraction (py 600) (py 1000) = py (60 / 100)"
    by (simp_all add: alloc_fraction_def number_simps)
  from pr sell_values sell_run buy_values buy_run fr show ?thesis
    by (simp add: initial_state_def)
qed

section \<open>Valuation on a date of the walk\<close>

lemma x_nan [simp]:
  "x_add x NaN = NaN" "x_add NaN x = NaN" "x_mul x NaN = NaN" "x_mul NaN x = NaN"
  by (cases x; simp)+

lemma is_nan_absorbs [simp]:
  "is_nan b \<Longrightarrow> is_nan (a + b)" "is_nan a \<Longrightarrow> is_nan (a + b)"
  "is_nan b \<Longrightarrow> is_nan (a * b)" "is_nan a \<Longrightarrow> is_nan (a * b)"
  by (simp_all add: is_nan_def plus_number_def times_number_def)

lemma is_nan_simps [simp]: "is_nan (Py NaN)" "is_nan (Np NaN)" "\<not> is_nan (Py (Fin r))"
  by (simp_all add: is_nan_def)

lemma is_nan_not_fin: "is_nan a \<Longrightarrow> \<not> fin a"
  by (simp add: is_nan_def fin_def)

text \<open>
  The walk visits only the dates common to all frames (lines 122-128): on such a date every
  frame has a row.
\<close>

lemma all_dates_rows:
  assumes "d \<in> set (all_dates md)"
  shows "map_of (dividend_data md) s = Some frame \<Longrightarrow> \<exists>close. loc_close frame d = Inr close"
    and "map_of (growth_data md) s = Some frame \<Longrightarrow> \<exists>close. loc_close frame d = Inr close"
proof -
  from assms have dd: "\<forall>(symbol, frame) \<in> set (dividend_data md). d \<in> fst ` set frame"
    and gd: "\<forall>(symbol, frame) \<in> set (growth_data md). d \<in> fst ` set frame"
    by (simp_all add: all_dates_def list_all_iff)
  show "\<exists>close. loc_close frame d = Inr close" if "map_of (dividend_data md) s = Some frame"
  proof -
    from that have "(s, frame) \<in> set (dividend_data md)" by (rule map_of_SomeD)
    with dd have "d \<in> fst ` set frame" by blast
    then have "map_of frame d \<noteq> None" by (simp add: map_of_eq_None_iff)
    then show ?thesis by (auto simp: loc_close_def)
  qed
  show "\<exists>close. loc_close frame d = Inr close" if "map_of (growth_data md) s = Some frame"
  proof -
    from that have "(s, frame) \<in> set (growth_data md)" by (rule map_of_SomeD)
    with gd have "d \<in> fst ` set frame" by blast
    then have "map_of frame d \<noteq> None" by (simp add: map_of_eq_None_iff)
    then show ?thesis by (auto simp: loc_close_def)
  qed
qed

lemma value_loop_walked:
  assumes "d \<in> set (all_dates md)"
  shows "\<exists>v. value_loop md d ps acc = Inr v"
proof (induction ps arbitrary: acc)
  case Nil
  show ?case by (intro exI [of _ acc]) simp
next
  case (Cons a ps)
  obtain s p where a: "a = (s, p)" by (cases a)
  obtain pv dv gv where acc: "acc = (pv, dv, gv)" by (cases acc)
  show ?case
  proof (cases "map_of (dividend_data md) s")
    case (Some frame)
    from all_dates_rows(1) [OF assms Some] obtain close where "loc_close frame d = Inr close" ..
    with Some a acc Cons.IH show ?thesis by (simp add: Let_def)
  next
    case None
    show ?thesis
    proof (cases "map_of (growth_data md) s")
      case (Some frame)
      from all_dates_rows(2) [OF assms Some] obtain close where "loc_close frame d = Inr close" ..
      with Some None a acc Cons.IH show ?thesis by (simp add: Let_def)
    next
      case gn: None
      with None a acc Cons.IH show ?thesis by simp
    qed
  qed
qed

lemma value_loop_keeps_nan:
  "value_loop md d ps (pv, dv, gv) = Inr (pv', dv', gv') \<Longrightarrow>
     (is_nan pv \<longrightarrow> is_nan pv') \<and> (is_nan dv \<longrightarrow> is_nan dv') \<and> (is_nan gv \<longrightarrow> is_nan gv')"
proof (induction ps arbitrary: pv dv gv)
  case Nil
  then show ?case by simp
next
  case (Cons a ps)
  obtain s p where a: "a = (s, p)" by (cases a)
  show ?case
  proof (cases "map_of (dividend_data md) s")
    case (Some frame)
    with Cons.prems a obtain close where
      "value_loop md d ps (pv + shares p * Py close, dv + shares p * Py close, gv)
         = Inr (pv', dv', gv')"
      by (auto simp: Let_def split: sum.splits)
    from Cons.IH [OF this] show ?thesis by simp
  next
    case None
    show ?thesis
    proof (cases "map_of (growth_data md) s")
      case (Some frame)
      with Cons.prems a None obtain close where
        "value_loop md d ps (pv + shares p * Py close, dv, gv + shares p * Py close)
           = Inr (pv', dv', gv')"
        by (auto simp: Let_def split: sum.splits)
      from Cons.IH [OF this] show ?thesis by simp
    next
      case gn: None
      with Cons.prems a None have "value_loop md d ps (pv, dv, gv) = Inr (pv', dv', gv')"
        by simp
      from Cons.IH [OF this] show ?thesis .
    qed
  qed
qed

lemma value_loop_nan_dividend:
  "value_loop md d ps (pv, dv, gv) = Inr (pv', dv', gv') \<Longrightarrow> (s, p) \<in> set ps \<Longrightarrow>
     close_on (dividend_data md) d s = Some NaN \<Longrightarrow> is_nan pv' \<and> is_nan dv'"
proof (induction ps arbitrary: pv dv gv)
  case Nil
  then show ?case by simp
next
  case (Cons a ps)
  obtain s0 p0 where a: "a = (s0, p0)" by (cases a)
  show ?case
  proof (cases "s0 = s")
    case True
    from Cons.prems(3) obtain frame where fr: "map_of (dividend_data md) s = Some frame"
      and cl: "loc_close frame d = Inr NaN"
      by (auto simp: close_on_def loc_close_def split: option.splits)
    with Cons.prems(1) a True have
      "value_loop md d ps (pv + shares p0 * Py NaN, dv + shares p0 * Py NaN, gv)
         = Inr (pv', dv', gv')"
      by (simp add: Let_def)
    from value_loop_keeps_nan [OF this] show ?thesis by simp
  next
    case False
    with Cons.prems(2) a have mem: "(s, p) \<in> set ps" by auto
    from Cons.prems(1) a obtain pv1 dv1 gv1 where
      "value_loop md d ps (pv1, dv1, gv1) = Inr (pv', dv', gv')"
      by (auto simp: Let_def split: option.splits sum.splits)
    from Cons.IH [OF this mem Cons.prems(3)] show ?thesis .
  qed
qed

lemma value_loop_nan_growth:
  "value_loop md d ps (pv, dv, gv) = Inr (pv', dv', gv') \<Longrightarrow> (s, p) \<in> set ps \<Longrightarrow>
     map_of (dividend_data md) s = None \<Longrightarrow>
     close_on (growth_data md) d s = Some NaN \<Longrightarrow> is_nan pv' \<and> is_nan gv'"
proof (induction ps arbitrary: pv dv gv)
  case Nil
  then show ?case by simp
next
  case (Cons a ps)
  obtain s0 p0 where a: "a = (s0, p0)" by (cases a)
  show ?case
  proof (cases "s0 = s")
    case True
    from Cons.prems(4) obtain frame where fr: "map_of (growth_data md) s = Some frame"
      and cl: "loc_close frame d = Inr NaN"
      by (auto simp: close_on_def loc_close_def split: option.splits)
    with Cons.prems(1,3) a True have
      "value_loop md d ps (pv + shares p0 * Py NaN, dv, gv + shares p0 * Py NaN)
         = Inr (pv', dv', gv')"
      by (simp add: Let_def)
    from value_loop_keeps_nan [OF this] show ?thesis by simp
  next
    case False
    with Cons.prems(2) a have mem: "(s, p) \<in> set ps" by auto
    from Cons.prems(1) a obtain pv1 dv1 gv1 where
      "value_loop md d ps (pv1, dv1, gv1) = Inr (pv', dv', gv')"
      by (auto simp: Let_def split: option.splits sum.splits)
    from Cons.IH [OF this mem Cons.prems(3,4)] show ?thesis .
  qed
qed

lemmas run_simps =
  run_optimized_backtest_def all_dates_def allocation_simps

text \<open>
  Claim C5, as the code has it. On a date of the walk every frame has a row, so the
  valuation raises nothing and skips no position: no position is counted as zero for lack
  of a price. A close that is there but is not a number is not treated as a gap either: if
  a held position's close on the date is NaN, the portfolio value and the value of the
  position's sleeve are NaN (the dividend sleeve for a symbol of the dividend dictionary,
  the growth sleeve for a symbol of the growth dictionary only). When the positions are
  priced (every held symbol belongs to at most one sleeve dictionary and has a finite
  non-zero close there) and share counts and cash are finite, the value of each sleeve is
  the sum of share count * close over its positions and the portfolio value is the cash
  plus the two sleeve values.
\<close>

theorem valuation_on_walked_date:
  assumes walked: "d \<in> set (all_dates md)"
  shows "(\<exists>pv dv gv. valuation md d ps c = Inr (pv, dv, gv))
    \<and> (\<forall>s p. (s, p) \<in> set ps \<and> close_on (dividend_data md) d s = Some NaN \<longrightarrow>
          (\<exists>pv dv gv. valuation md d ps c = Inr (pv, dv, gv) \<and> is_nan pv \<and> is_nan dv))
    \<and> (\<forall>s p. (s, p) \<in> set ps \<and> map_of (dividend_data md) s = None
            \<and> close_on (growth_data md) d s = Some NaN \<longrightarrow>
          (\<exists>pv dv gv. valuation md d ps c = Inr (pv, dv, gv) \<and> is_nan pv \<and> is_nan gv))
    \<and> (priced md d ps \<and> finite_positions ps \<and> fin c \<longrightarrow>
          (\<exists>pv dv gv. valuation md d ps c = Inr (pv, dv, gv)
             \<and> fin pv \<and> fin dv \<and> fin gv
             \<and> rv dv = sleeve_value (dividend_data md) d (holdings ps)
             \<and> rv gv = sleeve_value (growth_data md) d (holdings ps)
             \<and> rv pv = rv c + rv dv + rv gv))"
proof -
  from value_loop_walked [OF walked, of ps "(c, py 0, py 0)"]
  obtain pv dv gv where v: "value_loop md d ps (c, py 0, py 0) = Inr (pv, dv, gv)"
    by (metis prod_cases3)
  then have run: "valuation md d ps c = Inr (pv, dv, gv)" by (simp add: valuation_def)
  have 1: "\<exists>pv dv gv. valuation md d ps c = Inr (pv, dv, gv)" using run by blast
  have 2: "\<exists>pv dv gv. valuation md d ps c = Inr (pv, dv, gv) \<and> is_nan pv \<and> is_nan dv"
    if "(s, p) \<in> set ps \<and> close_on (dividend_data md) d s = Some NaN" for s p
    using value_loop_nan_dividend [OF v, of s p] that run by blast
  have 3: "\<exists>pv dv gv. valuation md d ps c = Inr (pv, dv, gv) \<and> is_nan pv \<and> is_nan gv"
    if "(s, p) \<in> set ps \<and> map_of (dividend_data md) s = None
            \<and> close_on (growth_data md) d s = Some NaN" for s p
  proof -
    from that have "(s, p) \<in> set ps" "map_of (dividend_data md) s = None"
      "close_on (growth_data md) d s = Some NaN" by simp_all
    from value_loop_nan_growth [OF v this] run show ?thesis by blast
  qed
  have 4: "\<exists>pv dv gv. valuation md d ps c = Inr (pv, dv, gv)
             \<and> fin pv \<and> fin dv \<and> fin gv
             \<and> rv dv = sleeve_value (dividend_data md) d (holdings ps)
             \<and> rv gv = sleeve_value (growth_data md) d (holdings ps)
             \<and> rv pv = rv c + rv dv + rv gv"
    if "priced md d ps \<and> finite_positions ps \<and> fin c"
  proof -
    from that have "priced md d ps" "finite_positions ps" "fin c" by simp_all
    from valuation_priced [OF this] show ?thesis by auto
  qed
  from 1 2 3 4 show ?thesis by blast
qed

theorem nan_price_is_not_zero_counterexample:
  "all_dates
     \<lparr>spy_data = [(0, Fin 400), (1, Fin 400)],
      dividend_data = [(''A'', [(0, Fin 50), (1, Fin 50)]), (''B'', [(0, Fin 100), (1, NaN)])],
      dividend_dividends = [], growth_data = [(''C'', [(0, Fin 20), (1, Fin 20)])]\<rparr> = [0, 1]
   \<and> initial_allocation
       \<lparr>spy_data = [(0, Fin 400), (1, Fin 400)],
        dividend_data = [(''A'', [(0, Fin 50), (1, Fin 50)]), (''B'', [(0, Fin 100), (1, NaN)])],
        dividend_dividends = [], growth_data = [(''C'', [(0, Fin 20), (1, Fin 20)])]\<rparr>
       [(''A'', py (1 / 2)), (''B'', py (1 / 2))]
     = Inr ([(''A'', \<lparr>shares = py 700, category = dividend_aristocrat\<rparr>),
             (''B'', \<lparr>shares = py 350, category = dividend_aristocrat\<rparr>),
             (''C'', \<lparr>shares = py 1500, category = high_growth\<rparr>)], py 0)
   \<and> valuation
       \<lparr>spy_data = [(0, Fin 400), (1, Fin 400)],
        dividend_data = [(''A'', [(0, Fin 50), (1, Fin 50)]), (''B'', [(0, Fin 100), (1, NaN)])],
        dividend_dividends = [], growth_data = [(''C'', [(0, Fin 20), (1, Fin 20)])]\<rparr> 1
       [(''A'', \<lparr>shares = py 700, category = dividend_aristocrat\<rparr>),
        (''B'', \<lparr>shares = py 350, category = dividend_aristocrat\<rparr>),
        (''C'', \<lparr>shares = py 1500, category = high_growth\<rparr>)] (py 0)
     = Inr (Py NaN, Py NaN, py 30000)
   \<and> run_optimized_backtest
       \<lparr>spy_data = [(0, Fin 400), (1, Fin 400)],
        dividend_data = [(''A'', [(0, Fin 50), (1, Fin 50)]), (''B'', [(0, Fin 100), (1, NaN)])],
        dividend_dividends = [], growth_data = [(''C'', [(0, Fin 20), (1, Fin 20)])]\<rparr>
       [(''A'', py (1 / 2)), (''B'', py (1 / 2))]
     = Returned
         \<lparr>positions =
            [(''A'', \<lparr>shares = Py NaN, category = dividend_aristocrat\<rparr>),
             (''B'', \<lparr>shares = Py NaN, category = dividend_aristocrat\<rparr>),
             (''C'', \<lparr>shares = Py NaN, category = high_growth\<rparr>)],
          cash = Py NaN, excess_dividend_value = None,
          deficit_dividend_value = Some (Py NaN),
          market_conditions = [sideways, sideways],
          dynamic_targets = [py (70 / 100), py (70 / 100)],
          rebalancing_events =
            [\<lparr>event_date = 1, event_type = (buy_dividend, sideways),
              event_market_condition = sideways, target_alloc = py (70 / 100),
              excess_moved = Py NaN, dividend_alloc_before = py 0,
              dividend_alloc_after = Py NaN\<rparr>],
          portfolio_values = [py 100000, Py NaN],
          spy_values = [Np (Fin 100000), Np (Fin 100000)],
          dividend_values = [py 70000, Py NaN],
          growth_values = [py 30000, Py NaN], dates = [0, 1],
          dividend_contributions = [py (70 / 100), py 0],
          growth_contributions = [py (30 / 100), py 0]\<rparr>"
  by (simp add: run_simps eval_simps)

theorem valuation_on_walked_date_witness:
  "1 \<in> set (all_dates
     \<lparr>spy_data = [(0, Fin 400), (1, Fin 400)],
      dividend_data = [(''A'', [(0, Fin 50), (1, Fin 50)]), (''B'', [(0, Fin 100), (1, NaN)])],
      dividend_dividends = [], growth_data = [(''C'', [(0, Fin 20), (1, Fin 20)])]\<rparr>)
   \<and> (\<exists>pv dv gv. valuation
       \<lparr>spy_data = [(0, Fin 400), (1, Fin 400)],
        dividend_data = [(''A'', [(0, Fin 50), (1, Fin 50)]), (''B'', [(0, Fin 100), (1, NaN)])],
        dividend_dividends = [], growth_data = [(''C'', [(0, Fin 20), (1, Fin 20)])]\<rparr> 1
       [(''A'', \<lparr>shares = py 700, category = dividend_aristocrat\<rparr>),
        (''B'', \<lparr>shares = py 350, category = dividend_aristocrat\<rparr>),
        (''C'', \<lparr>shares = py 1500, category = high_growth\<rparr>)] (py 0) = Inr (pv, dv, gv)
       \<and> is_nan pv \<and> is_nan dv)
   \<and> (\<exists>pv dv gv. valuation
       \<lparr>spy_data = [(0, Fin 400), (1, Fin 400)],
        dividend_data = [(''A'', [(0, Fin 50), (1, Fin 50)]), (''B'', [(0, Fin 100), (1, NaN)])],
        dividend_dividends = [], growth_data = [(''C'', [(0, Fin 20), (1, Fin 20)])]\<rparr> 0
       [(''A'', \<lparr>shares = py 700, category = dividend_aristocrat\<rparr>),
        (''B'', \<lparr>shares = py 350, category = dividend_aristocrat\<rparr>),
        (''C'', \<lparr>shares = py 1500, category = high_growth\<rparr>)] (py 0) = Inr (pv, dv, gv)
       \<and> rv pv = 100000 \<and> rv dv = 70000 \<and> rv gv = 30000)"
proof -
  let ?md = "\<lparr>spy_data = [(0, Fin 400), (1, Fin 400)],
      dividend_data = [(''A'', [(0, Fin 50), (1, Fin 50)]), (''B'', [(0, Fin 100), (1, NaN)])],
      dividend_dividends = [], growth_data = [(''C'', [(0, Fin 20), (1, Fin 20)])]\<rparr>"
  let ?ps = "[(''A'', \<lparr>shares = py 700, category = dividend_aristocrat\<rparr>),
        (''B'', \<lparr>shares = py 350, category = dividend_aristocrat\<rparr>),
        (''C'', \<lparr>shares = py 1500, category = high_growth\<rparr>)]"
  have w1: "1 \<in> set (all_dates ?md)" and w0: "0 \<in> set (all_dates ?md)"
    by (simp_all add: all_dates_def)
  have held: "(''B'', \<lparr>shares = py 350, category = dividend_aristocrat\<rparr>) \<in> set ?ps
      \<and> close_on (dividend_data ?md) 1 ''B'' = Some NaN"
    by (simp add: close_on_def)
  from valuation_on_walked_date [OF w1, of ?ps "py 0"] held
  have nan: "\<exists>pv dv gv. valuation ?md 1 ?ps (py 0) = Inr (pv, dv, gv) \<and> is_nan pv \<and> is_nan dv"
    by blast
  have ok: "priced ?md 0 ?ps \<and> finite_positions ?ps \<and> fin (py 0)"
    by (simp add: priced_def priced_symbol_def)
  from valuation_on_walked_date [OF w0, of ?ps "py 0"] ok
  obtain pv dv gv where v: "valuation ?md 0 ?ps (py 0) = Inr (pv, dv, gv)"
    and dv: "rv dv = sleeve_value (dividend_data ?md) 0 (holdings ?ps)"
    and gv: "rv gv = sleeve_value (growth_data ?md) 0 (holdings ?ps)"
    and pv: "rv pv = rv (py 0) + rv dv + rv gv"
    by blast
  from dv have dv': "rv dv = 70000" by (simp add: sleeve_value_def price_on_def close_on_def)
  from gv have gv': "rv gv = 30000" by (simp add: sleeve_value_def price_on_def close_on_def)
  from pv dv' gv' have "rv pv = 100000" by simp
  with v dv' gv' have "\<exists>pv dv gv. valuation ?md 0 ?ps (py 0) = Inr (pv, dv, gv)
       \<and> rv pv = 100000 \<and> rv dv = 70000 \<and> rv gv = 30000" by blast
  with w1 nan show ?thesis by blast
qed

section \<open>The event log, failed dates and the recorded lists\<close>

text \<open>
  Claim C8, evaluated on a run of three dates. The dividend symbol doubles on date 1 and
  falls to a quarter of that on date 2; the sell-dividend branch runs on date 1 and moves
  21000, the buy-dividend branch runs on date 2 and moves 26775. The event logged on date
  2 carries \<open>excess_moved = 21000\<close>, the value left in \<^verbatim>\<open>excess_dividend_value\<close>
  by date 1, not the 26775 traded on date 2.
\<close>

theorem stale_excess_logged:
  "(case run_optimized_backtest
       \<lparr>spy_data = [(0, Fin 400), (1, Fin 400), (2, Fin 400)],
        dividend_data = [(''D'', [(0, Fin 10), (1, Fin 20), (2, Fin 5)])],
        dividend_dividends = [],
        growth_data = [(''G'', [(0, Fin 10), (1, Fin 10), (2, Fin 10)])]\<rparr> [(''D'', py 1)] of
      Returned st \<Rightarrow>
        map event_type (rebalancing_events st)
          = [(sell_dividend, sideways), (buy_dividend, sideways)]
        \<and> map event_date (rebalancing_events st) = [1, 2]
        \<and> map excess_moved (rebalancing_events st) = [py 21000, py 21000]
        \<and> deficit_dividend_value st = Some (py 26775)
    | _ \<Rightarrow> False)"
  by (simp add: run_simps eval_simps)

lemma for_positions_symbols:
  "for_positions body ps c = ((ps', c'), r) \<Longrightarrow> map fst ps' = map fst ps"
proof (induction ps arbitrary: c ps' c' r)
  case Nil
  then show ?case by simp
next
  case (Cons a ps)
  obtain s p where a: "a = (s, p)" by (cases a)
  show ?case
  proof (cases "body s p c")
    case (Inl e)
    with Cons.prems a show ?thesis by auto
  next
    case (Inr x)
    obtain p1 c1 where x: "x = (p1, c1)" by (cases x)
    obtain rest' c'' r' where rec: "for_positions body ps c1 = ((rest', c''), r')"
      by (metis prod.exhaust)
    from Cons.IH [OF rec] Cons.prems a Inr x rec show ?thesis by auto
  qed
qed

lemma record_event_snapshots:
  "snapshots (fst (record_event md d st dir mc tgt cur tdv pv)) = snapshots st"
  by (simp add: record_event_def snapshots_def Let_def split: sum.splits)

lemma sell_dividend_branch_snapshots:
  "snapshots (fst (sell_dividend_branch md d st mc tgt cur v)) = snapshots st"
  by (cases v)
    (auto simp: sell_dividend_branch_def Let_def record_event_snapshots
      split: prod.splits option.splits, simp_all add: snapshots_def)

lemma buy_dividend_branch_snapshots:
  "snapshots (fst (buy_dividend_branch md d st mc tgt cur v)) = snapshots st"
  by (cases v)
    (auto simp: buy_dividend_branch_def Let_def record_event_snapshots
      split: prod.splits option.splits, simp_all add: snapshots_def)

lemma rebalance_snapshots:
  "snapshots (fst (rebalance md d st v)) = snapshots st"
  by (cases v)
    (auto simp: rebalance_def Let_def sell_dividend_branch_snapshots
      buy_dividend_branch_snapshots split: prod.splits, simp_all add: snapshots_def)

lemma record_values_result:
  "record_values md d st v = (st', r) \<Longrightarrow>
     (case r of
        Some e \<Rightarrow> st' = st
      | None \<Rightarrow>
          (\<exists>b. st' = st\<lparr>portfolio_values := portfolio_values st @ [fst v],
                    spy_values := spy_values st @ [b],
                    dividend_values := dividend_values st @ [fst (snd v)],
                    growth_values := growth_values st @ [snd (snd v)],
                    dates := dates st @ [d],
                    dividend_contributions := dividend_contributions st
                      @ [alloc_fraction (fst (snd v)) (fst v)],
                    growth_contributions := growth_contributions st
                      @ [alloc_fraction (snd (snd v)) (fst v)]\<rparr>))"
  by (cases v) (auto simp: record_values_def Let_def split: sum.splits)

lemma process_date_failed_snapshots:
  assumes "process_date md d st = (st', Some e)"
  shows "snapshots st' = snapshots st"
proof (cases "for_positions (reinvest_body md d) (positions st) (cash st)")
  case (Pair pc r)
  obtain ps1 c1 where pc: "pc = (ps1, c1)" by (cases pc)
  let ?st1 = "st\<lparr>positions := ps1, cash := c1\<rparr>"
  show ?thesis
  proof (cases r)
    case (Some e1)
    with assms Pair pc have "st' = ?st1" by (simp add: process_date_def)
    then show ?thesis by (simp add: snapshots_def)
  next
    case None
    show ?thesis
    proof (cases "valuation md d ps1 c1")
      case (Inl e1)
      with assms Pair pc None have "st' = ?st1" by (simp add: process_date_def)
      then show ?thesis by (simp add: snapshots_def)
    next
      case (Inr v)
      obtain st2 r2 where rb: "rebalance md d ?st1 v = (st2, r2)" by (cases "rebalance md d ?st1 v")
      from rebalance_snapshots [of md d ?st1 v] rb
      have s2: "snapshots st2 = snapshots st" by (simp add: snapshots_def)
      show ?thesis
      proof (cases r2)
        case (Inl e2)
        with assms Pair pc None Inr rb have "st' = st2" by (simp add: process_date_def)
        with s2 show ?thesis by simp
      next
        case r2: (Inr v')
        with assms Pair pc None Inr rb have "record_values md d st2 v' = (st', Some e)"
          by (simp add: process_date_def)
        from record_values_result [OF this] have "st' = st2" by simp
        with s2 show ?thesis by simp
      qed
    qed
  qed
qed

lemma record_event_conditions:
  "market_conditions (fst (record_event md d st dir mc tgt cur tdv pv)) = market_conditions st"
  "dynamic_targets (fst (record_event md d st dir mc tgt cur tdv pv)) = dynamic_targets st"
  by (simp_all add: record_event_def Let_def split: sum.splits)

lemma sell_dividend_branch_conditions:
  "market_conditions (fst (sell_dividend_branch md d st mc tgt cur v)) = market_conditions st"
  "dynamic_targets (fst (sell_dividend_branch md d st mc tgt cur v)) = dynamic_targets st"
  by (cases v; auto simp: sell_dividend_branch_def Let_def record_event_conditions
      split: prod.splits option.splits)+

lemma buy_dividend_branch_conditions:
  "market_conditions (fst (buy_dividend_branch md d st mc tgt cur v)) = market_conditions st"
  "dynamic_targets (fst (buy_dividend_branch md d st mc tgt cur v)) = dynamic_targets st"
  by (cases v; auto simp: buy_dividend_branch_def Let_def record_event_conditions
      split: prod.splits option.splits)+

lemma rebalance_conditions:
  "market_conditions (fst (rebalance md d st v))
     = market_conditions st
       @ [fst (detect_market_condition d (spy_data md) market_lookback_days market_threshold)]"
  "dynamic_targets (fst (rebalance md d st v))
     = dynamic_targets st
       @ [snd (detect_market_condition d (spy_data md) market_lookback_days market_threshold)]"
  by (cases v; auto simp: rebalance_def Let_def sell_dividend_branch_conditions
      buy_dividend_branch_conditions split: prod.splits)+

lemma record_values_conditions:
  "market_conditions (fst (record_values md d st v)) = market_conditions st"
  "dynamic_targets (fst (record_values md d st v)) = dynamic_targets st"
  by (cases v; auto simp: record_values_def Let_def split: sum.splits)+

lemma process_date_after_valuation:
  assumes re: "for_positions (reinvest_body md d) (positions st) (cash st) = ((ps1, c1), None)"
    and va: "valuation md d ps1 c1 = Inr v"
  shows "market_conditions (fst (process_date md d st))
     = market_conditions st
       @ [fst (detect_market_condition d (spy_data md) market_lookback_days market_threshold)]"
    and "dynamic_targets (fst (process_date md d st))
     = dynamic_targets st
       @ [snd (detect_market_condition d (spy_data md) market_lookback_days market_threshold)]"
proof -
  let ?st1 = "st\<lparr>positions := ps1, cash := c1\<rparr>"
  obtain st2 r2 where rb: "rebalance md d ?st1 v = (st2, r2)" by (cases "rebalance md d ?st1 v")
  from rebalance_conditions [of md d ?st1 v] rb
  have m2: "market_conditions st2 = market_conditions st
       @ [fst (detect_market_condition d (spy_data md) market_lookback_days market_threshold)]"
    and t2: "dynamic_targets st2 = dynamic_targets st
       @ [snd (detect_market_condition d (spy_data md) market_lookback_days market_threshold)]"
    by simp_all
  have "market_conditions (fst (process_date md d st)) = market_conditions st2
      \<and> dynamic_targets (fst (process_date md d st)) = dynamic_targets st2"
  proof (cases r2)
    case (Inl e)
    with re va rb show ?thesis by (simp add: process_date_def)
  next
    case (Inr v')
    with re va rb show ?thesis by (simp add: process_date_def record_values_conditions)
  qed
  with m2 t2 show "market_conditions (fst (process_date md d st))
     = market_conditions st
       @ [fst (detect_market_condition d (spy_data md) market_lookback_days market_threshold)]"
    and "dynamic_targets (fst (process_date md d st))
     = dynamic_targets st
       @ [snd (detect_market_condition d (spy_data md) market_lookback_days market_threshold)]"
    by simp_all
qed

lemma process_date_before_valuation:
  assumes "for_positions (reinvest_body md d) (positions st) (cash st) = ((ps1, c1), r)"
    and "r \<noteq> None \<or> isl (valuation md d ps1 c1)"
  shows "process_date md d st = (st\<lparr>positions := ps1, cash := c1\<rparr>,
           case r of Some e \<Rightarrow> Some e
           | None \<Rightarrow> (case valuation md d ps1 c1 of Inl e \<Rightarrow> Some e | Inr v \<Rightarrow> None))"
  using assms by (cases r; cases "valuation md d ps1 c1") (simp_all add: process_date_def)

lemma process_date_conditions_grow:
  "length (market_conditions st) \<le> length (market_conditions (fst (process_date md d st)))
   \<and> length (dynamic_targets (fst (process_date md d st))) - length (dynamic_targets st)
     = length (market_conditions (fst (process_date md d st))) - length (market_conditions st)
   \<and> length (dynamic_targets st) \<le> length (dynamic_targets (fst (process_date md d st)))
   \<and> (snd (process_date md d st) = None \<longrightarrow>
        length (market_conditions (fst (process_date md d st)))
          = length (market_conditions st) + 1)"
proof -
  obtain ps1 c1 r where re: "for_positions (reinvest_body md d) (positions st) (cash st)
      = ((ps1, c1), r)" by (metis prod.exhaust)
  show ?thesis
  proof (cases "r \<noteq> None \<or> isl (valuation md d ps1 c1)")
    case True
    from process_date_before_valuation [OF re True] True show ?thesis
      by (cases r; cases "valuation md d ps1 c1") auto
  next
    case False
    then have r: "r = None" and "\<not> isl (valuation md d ps1 c1)" by simp_all
    then obtain v where va: "valuation md d ps1 c1 = Inr v"
      by (cases "valuation md d ps1 c1") auto
    from process_date_after_valuation [OF re [unfolded r] va] show ?thesis by simp
  qed
qed

lemma process_date_succeeded_snapshots:
  assumes "process_date md d st = (st', None)"
  shows "length (dates st') = length (dates st) + 1
    \<and> length (portfolio_values st') = length (portfolio_values st) + 1
    \<and> length (spy_values st') = length (spy_values st) + 1
    \<and> length (dividend_values st') = length (dividend_values st) + 1
    \<and> length (growth_values st') = length (growth_values st) + 1"
proof -
  obtain ps1 c1 r where re: "for_positions (reinvest_body md d) (positions st) (cash st)
      = ((ps1, c1), r)" by (metis prod.exhaust)
  let ?st1 = "st\<lparr>positions := ps1, cash := c1\<rparr>"
  from assms re have r: "r = None"
    by (cases r) (simp_all add: process_date_def)
  from assms re r obtain v where va: "valuation md d ps1 c1 = Inr v"
    by (cases "valuation md d ps1 c1") (simp_all add: process_date_def)
  obtain st2 r2 where rb: "rebalance md d ?st1 v = (st2, r2)" by (cases "rebalance md d ?st1 v")
  from assms re r va rb obtain v' where r2: "r2 = Inr v'"
    by (cases r2) (simp_all add: process_date_def)
  from assms re r va rb r2 have rv: "record_values md d st2 v' = (st', None)"
    by (simp add: process_date_def)
  from rebalance_snapshots [of md d ?st1 v] rb
  have s2: "snapshots st2 = snapshots st" by (simp add: snapshots_def)
  from record_values_result [OF rv] s2 show ?thesis
    by (auto simp: snapshots_def)
qed

lemma process_date_aligned:
  assumes "aligned st"
  shows "aligned (fst (process_date md d st))"
proof (cases "process_date md d st")
  case (Pair st' r)
  note grow = process_date_conditions_grow [of st md d]
  show ?thesis
  proof (cases r)
    case None
    from process_date_succeeded_snapshots [OF Pair [unfolded None]] grow Pair None assms
    show ?thesis by (auto simp: aligned_def)
  next
    case (Some e)
    from process_date_failed_snapshots [OF Pair [unfolded Some]] grow Pair assms
    show ?thesis by (auto simp: aligned_def snapshots_def)
  qed
qed

lemma run_loop_aligned:
  "aligned st \<Longrightarrow> aligned (run_loop md ds st)"
  by (induction ds arbitrary: st) (simp_all add: process_date_aligned)

lemma histogram_total_count:
  "histogram_total (count_condition counts condition) = histogram_total counts + 1"
  by (cases condition) (auto simp: histogram_total_def count_condition_def split: option.splits)

lemma histogram_total_counts:
  "histogram_total (market_condition_counts counts xs) = histogram_total counts + length xs"
  by (induction xs arbitrary: counts) (simp_all add: histogram_total_count)

lemma histogram_total_from_empty:
  "histogram_total (market_condition_counts Map.empty xs) = length xs"
proof -
  have "histogram_total Map.empty = 0" by (simp add: histogram_total_def)
  with histogram_total_counts [of Map.empty xs] show ?thesis by simp
qed

lemma initial_state_aligned: "aligned (initial_state ps c)"
  by (simp add: aligned_def initial_state_def)

lemma zero_price_run:
  "run_loop
     \<lparr>spy_data = [(0, Fin 400), (1, Fin 400), (2, Fin 400)],
      dividend_data = [(''D'', [(0, Fin 10), (1, Fin 20), (2, Fin 20)])],
      dividend_dividends = [],
      growth_data = [(''G'', [(0, Fin 10), (1, Fin 0), (2, Fin 10)])]\<rparr> [0, 1, 2]
     (initial_state
        [(''D'', \<lparr>shares = py 7000, category = dividend_aristocrat\<rparr>),
         (''G'', \<lparr>shares = py 3000, category = high_growth\<rparr>)] (py 0))
   = \<lparr>positions =
        [(''D'', \<lparr>shares = py 5950, category = dividend_aristocrat\<rparr>),
         (''G'', \<lparr>shares = py 900, category = high_growth\<rparr>)],
      cash = py 42000, excess_dividend_value = Some (py 42000),
      deficit_dividend_value = Some (py 21000),
      market_conditions = [sideways, sideways, sideways],
      dynamic_targets = [py (7 / 10), py (7 / 10), py (7 / 10)],
      rebalancing_events =
        [\<lparr>event_date = 2, event_type = (buy_dividend, sideways),
          event_market_condition = sideways, target_alloc = py (7 / 10),
          excess_moved = py 42000, dividend_alloc_before = py (49 / 85),
          dividend_alloc_after = py (7 / 10)\<rparr>],
      portfolio_values = [py 100000, py 170000],
      spy_values = [Np (Fin 100000), Np (Fin 100000)],
      dividend_values = [py 70000, py 119000], growth_values = [py 30000, py 9000],
      dates = [0, 2], dividend_contributions = [py (7 / 10), py (7 / 10)],
      growth_contributions = [py (3 / 10), py (9 / 170)]\<rparr>"
  by (simp add: eval_simps)

text \<open>
  Claim C10. After any walk from the initial state, the five snapshot lists (dates,
  portfolio values, benchmark values, dividend values, growth values) have equal lengths,
  each market condition has its dynamic target, and the histogram of market conditions
  counts at least as many dates as there are snapshots. A date that raises after its
  valuation has appended its market condition and dynamic target and appends no snapshot.
  There is a walk whose histogram counts more dates than it has snapshots.
\<close>

theorem conditions_recorded_before_snapshot:
  "(let st = run_loop md ds (initial_state ps c)
    in length (portfolio_values st) = length (dates st)
       \<and> length (spy_values st) = length (dates st)
       \<and> length (dividend_values st) = length (dates st)
       \<and> length (growth_values st) = length (dates st)
       \<and> length (dynamic_targets st) = length (market_conditions st)
       \<and> length (dates st)
           \<le> histogram_total (market_condition_counts Map.empty (market_conditions st)))
   \<and> (\<forall>ps1 c1 v e st'.
         for_positions (reinvest_body md d) (positions st0) (cash st0) = ((ps1, c1), None)
         \<and> valuation md d ps1 c1 = Inr v
         \<and> process_date md d st0 = (st', Some e) \<longrightarrow>
         market_conditions st'
           = market_conditions st0
             @ [fst (detect_market_condition d (spy_data md) market_lookback_days
                   market_threshold)]
         \<and> dynamic_targets st'
           = dynamic_targets st0
             @ [snd (detect_market_condition d (spy_data md) market_lookback_days
                   market_threshold)]
         \<and> snapshots st' = snapshots st0)
   \<and> (\<exists>md' ds' ps' c'.
         length (dates (run_loop md' ds' (initial_state ps' c')))
           < histogram_total (market_condition_counts Map.empty
               (market_conditions (run_loop md' ds' (initial_state ps' c')))))"
proof (intro conjI)
  from run_loop_aligned [OF initial_state_aligned, of md ds ps c]
  show "let st = run_loop md ds (initial_state ps c)
    in length (portfolio_values st) = length (dates st)
       \<and> length (spy_values st) = length (dates st)
       \<and> length (dividend_values st) = length (dates st)
       \<and> length (growth_values st) = length (dates st)
       \<and> length (dynamic_targets st) = length (market_conditions st)
       \<and> length (dates st)
           \<le> histogram_total (market_condition_counts Map.empty (market_conditions st))"
    by (simp add: Let_def aligned_def histogram_total_from_empty)
next
  show "\<forall>ps1 c1 v e st'.
         for_positions (reinvest_body md d) (positions st0) (cash st0) = ((ps1, c1), None)
         \<and> valuation md d ps1 c1 = Inr v
         \<and> process_date md d st0 = (st', Some e) \<longrightarrow>
         market_conditions st'
           = market_conditions st0
             @ [fst (detect_market_condition d (spy_data md) market_lookback_days
                   market_threshold)]
         \<and> dynamic_targets st'
           = dynamic_targets st0
             @ [snd (detect_market_condition d (spy_data md) market_lookback_days
                   market_threshold)]
         \<and> snapshots st' = snapshots st0"
  proof (intro allI impI)
    fix ps1 c1 v e st'
    assume h: "for_positions (reinvest_body md d) (positions st0) (cash st0) = ((ps1, c1), None)
         \<and> valuation md d ps1 c1 = Inr v
         \<and> process_date md d st0 = (st', Some e)"
    then have re: "for_positions (reinvest_body md d) (positions st0) (cash st0)
        = ((ps1, c1), None)" and va: "valuation md d ps1 c1 = Inr v"
      and pd: "process_date md d st0 = (st', Some e)" by simp_all
    from process_date_after_valuation [OF re va] pd process_date_failed_snapshots [OF pd]
    show "market_conditions st'
           = market_conditions st0
             @ [fst (detect_market_condition d (spy_data md) market_lookback_days
                   market_threshold)]
         \<and> dynamic_targets st'
           = dynamic_targets st0
             @ [snd (detect_market_condition d (spy_data md) market_lookback_days
                   market_threshold)]
         \<and> snapshots st' = snapshots st0" by simp
  qed
next
  let ?md = "\<lparr>spy_data = [(0, Fin 400), (1, Fin 400), (2, Fin 400)],
      dividend_data = [(''D'', [(0, Fin 10), (1, Fin 20), (2, Fin 20)])],
      dividend_dividends = [],
      growth_data = [(''G'', [(0, Fin 10), (1, Fin 0), (2, Fin 10)])]\<rparr>"
  let ?ps = "[(''D'', \<lparr>shares = py 7000, category = dividend_aristocrat\<rparr>),
         (''G'', \<lparr>shares = py 3000, category = high_growth\<rparr>)]"
  have "length (dates (run_loop ?md [0, 1, 2] (initial_state ?ps (py 0))))
           < histogram_total (market_condition_counts Map.empty
               (market_conditions (run_loop ?md [0, 1, 2] (initial_state ?ps (py 0)))))"
    unfolding zero_price_run histogram_total_from_empty by simp
  then show "\<exists>md' ds' ps' c'.
         length (dates (run_loop md' ds' (initial_state ps' c')))
           < histogram_total (market_condition_counts Map.empty
               (market_conditions (run_loop md' ds' (initial_state ps' c'))))"
    by blast
qed

theorem conditions_recorded_before_snapshot_witness:
  "for_positions
     (reinvest_body
        \<lparr>spy_data = [(0, Fin 400), (1, Fin 400), (2, Fin 400)],
         dividend_data = [(''D'', [(0, Fin 10), (1, Fin 20), (2, Fin 20)])],
         dividend_dividends = [],
         growth_data = [(''G'', [(0, Fin 10), (1, Fin 0), (2, Fin 10)])]\<rparr> 1)
     [(''D'', \<lparr>shares = py 7000, category = dividend_aristocrat\<rparr>),
      (''G'', \<lparr>shares = py 3000, category = high_growth\<rparr>)] (py 0)
     = (([(''D'', \<lparr>shares = py 7000, category = dividend_aristocrat\<rparr>),
          (''G'', \<lparr>shares = py 3000, category = high_growth\<rparr>)], py 0), None)
   \<and> valuation
       \<lparr>spy_data = [(0, Fin 400), (1, Fin 400), (2, Fin 400)],
        dividend_data = [(''D'', [(0, Fin 10), (1, Fin 20), (2, Fin 20)])],
        dividend_dividends = [],
        growth_data = [(''G'', [(0, Fin 10), (1, Fin 0), (2, Fin 10)])]\<rparr> 1
       [(''D'', \<lparr>shares = py 7000, category = dividend_aristocrat\<rparr>),
        (''G'', \<lparr>shares = py 3000, category = high_growth\<rparr>)] (py 0)
     = Inr (py 140000, py 140000, py 0)
   \<and> (\<exists>st'. process_date
       \<lparr>spy_data = [(0, Fin 400), (1, Fin 400), (2, Fin 400)],
        dividend_data = [(''D'', [(0, Fin 10), (1, Fin 20), (2, Fin 20)])],
        dividend_dividends = [],
        growth_data = [(''G'', [(0, Fin 10), (1, Fin 0), (2, Fin 10)])]\<rparr> 1
       (initial_state
          [(''D'', \<lparr>shares = py 7000, category = dividend_aristocrat\<rparr>),
           (''G'', \<lparr>shares = py 3000, category = high_growth\<rparr>)] (py 0))
       = (st', Some ZeroDivisionError)
      \<and> market_conditions st' = [sideways] \<and> dynamic_targets st' = [py (70 / 100)]
      \<and> dates st' = [] \<and> portfolio_values st' = [])"
proof -
  let ?md = "\<lparr>spy_data = [(0, Fin 400), (1, Fin 400), (2, Fin 400)],
      dividend_data = [(''D'', [(0, Fin 10), (1, Fin 20), (2, Fin 20)])],
      dividend_dividends = [],
      growth_data = [(''G'', [(0, Fin 10), (1, Fin 0), (2, Fin 10)])]\<rparr>"
  let ?ps = "[(''D'', \<lparr>shares = py 7000, category = dividend_aristocrat\<rparr>),
         (''G'', \<lparr>shares = py 3000, category = high_growth\<rparr>)]"
  let ?st0 = "initial_state ?ps (py 0)"
  have re: "for_positions (reinvest_body ?md 1) (positions ?st0) (cash ?st0)
      = ((?ps, py 0), None)"
    by (simp add: eval_simps)
  have va: "valuation ?md 1 ?ps (py 0) = Inr (py 140000, py 140000, py 0)"
    by (simp add: eval_simps)
  obtain st' where pd: "process_date ?md 1 ?st0 = (st', Some ZeroDivisionError)"
    by (simp add: eval_simps)
  have det: "detect_market_condition 1 (spy_data ?md) market_lookback_days market_threshold
      = (sideways, py (70 / 100))"
    by (rule detect_market_condition_sideways)
  from conditions_recorded_before_snapshot
    [where md = ?md and d = 1 and ?st0.0 = ?st0 and ds = "[]" and ps = "[]" and c = "py 0"]
  have "\<forall>ps1 c1 v e st'.
         for_positions (reinvest_body ?md 1) (positions ?st0) (cash ?st0) = ((ps1, c1), None)
         \<and> valuation ?md 1 ps1 c1 = Inr v
         \<and> process_date ?md 1 ?st0 = (st', Some e) \<longrightarrow>
         market_conditions st'
           = market_conditions ?st0
             @ [fst (detect_market_condition 1 (spy_data ?md) market_lookback_days
                   market_threshold)]
         \<and> dynamic_targets st'
           = dynamic_targets ?st0
             @ [snd (detect_market_condition 1 (spy_data ?md) market_lookback_days
                   market_threshold)]
         \<and> snapshots st' = snapshots ?st0"
    by (elim conjE)
  with re va pd have "market_conditions st'
           = market_conditions ?st0
             @ [fst (detect_market_condition 1 (spy_data ?md) market_lookback_days
                   market_threshold)]
         \<and> dynamic_targets st'
           = dynamic_targets ?st0
             @ [snd (detect_market_condition 1 (spy_data ?md) market_lookback_days
                   market_threshold)]
         \<and> snapshots st' = snapshots ?st0"
    by blast
  with det have "market_conditions st' = [sideways] \<and> dynamic_targets st' = [py (70 / 100)]
      \<and> dates st' = [] \<and> portfolio_values st' = []"
    by (simp add: initial_state_def snapshots_def)
  with re va pd show ?thesis by (auto simp: initial_state_def)
qed

section \<open>The ledger a failed date leaves behind\<close>











end
